(* ===== verification/Prelude.thy ===== *)
theory Prelude
  imports Main "HOL-Library.Word"
begin

section \<open>Shared types, hints and lemmas\<close>

text \<open>
  What every theory of the development uses: the Go integer types as machine words with the
  lemmas that read them without wrap-around, the shape of an operation that returns a value or
  an error beside the new state, lookups in Go maps with the zero value for a missing key, and
  sums over finite maps.
\<close>

named_theorems op_defs \<open>unfolding rules of the store operations\<close>
named_theorems frame_simps \<open>fields an operation leaves alone\<close>

subsection \<open>Machine integers\<close>

type_synonym int64 = "64 word"
type_synonym uint64 = "64 word"

lemma sint64_range: "- (2 ^ 63) \<le> sint (a :: int64) \<and> sint a < 2 ^ 63"
  using sint_range_size [of a] by (simp add: word_size)

lemma sint64_add:
  fixes a b :: int64
  assumes "- (2 ^ 63) \<le> sint a + sint b" and "sint a + sint b < 2 ^ 63"
  shows "sint (a + b) = sint a + sint b"
  using assms by (simp add: sint_word_ariths signed_take_bit_int_eq_self)

lemma sint64_sub:
  fixes a b :: int64
  assumes "- (2 ^ 63) \<le> sint a - sint b" and "sint a - sint b < 2 ^ 63"
  shows "sint (a - b) = sint a - sint b"
  using assms by (simp add: sint_word_ariths signed_take_bit_int_eq_self)

lemma sint64_of_nat: "n < 2 ^ 63 \<Longrightarrow> sint (of_nat n :: int64) = int n"
  by (simp add: signed_of_nat signed_take_bit_int_eq_self)

lemmas int64_arith = sint64_add sint64_sub

subsection \<open>Operations with a result or an error\<close>

text \<open>
  A Go method with results \<open>(T, error)\<close> on a value with state: the new state, and \<open>Inl\<close> the
  error or \<open>Inr\<close> the result. The state is returned with an error as well, because some methods
  write before they fail.
\<close>

type_synonym ('s, 'e, 'a) op = "'s \<Rightarrow> 's \<times> ('e + 'a)"

definition preserves :: "('s \<Rightarrow> bool) \<Rightarrow> ('s, 'e, 'a) op \<Rightarrow> bool" where
  "preserves I f \<longleftrightarrow> (\<forall>s. I s \<longrightarrow> I (fst (f s)))"

lemma preservesI: "(\<And>s. I s \<Longrightarrow> I (fst (f s))) \<Longrightarrow> preserves I f"
  by (simp add: preserves_def)

lemma preservesD: "preserves I f \<Longrightarrow> I s \<Longrightarrow> I (fst (f s))"
  by (simp add: preserves_def)

text \<open>A method that only reads: the state is returned as it was, whatever the result.\<close>

definition read_only :: "('s, 'e, 'a) op \<Rightarrow> bool" where
  "read_only f \<longleftrightarrow> (\<forall>s. fst (f s) = s)"

lemma read_only_preserves: "read_only f \<Longrightarrow> preserves I f"
  by (simp add: read_only_def preserves_def)

subsection \<open>Go maps\<close>

text \<open>Reading a missing key of a Go map gives the zero value of the element type.\<close>

definition map_get :: "('k \<rightharpoonup> 'v) \<Rightarrow> 'k \<Rightarrow> 'v \<Rightarrow> 'v" where
  "map_get m k zero = (case m k of None \<Rightarrow> zero | Some v \<Rightarrow> v)"

lemma map_get_simps [simp]:
  "m k = None \<Longrightarrow> map_get m k z = z"
  "m k = Some v \<Longrightarrow> map_get m k z = v"
  "map_get (m(k \<mapsto> v)) k z = v"
  "k \<noteq> j \<Longrightarrow> map_get (m(j \<mapsto> v)) k z = map_get m k z"
  by (simp_all add: map_get_def)

text \<open>The sum of a measure of the values of a map.\<close>

definition map_sum :: "('v \<Rightarrow> int) \<Rightarrow> ('k \<rightharpoonup> 'v) \<Rightarrow> int" where
  "map_sum f m = (\<Sum>k\<in>dom m. f (the (m k)))"

lemma map_sum_empty [simp]: "map_sum f Map.empty = 0"
  by (simp add: map_sum_def)

lemma map_sum_upd:
  assumes "finite (dom m)"
  shows "map_sum f (m(k \<mapsto> v)) = map_sum f m - (case m k of None \<Rightarrow> 0 | Some w \<Rightarrow> f w) + f v"
proof -
  have same: "(\<Sum>j\<in>dom m - {k}. f (the ((m(k \<mapsto> v)) j))) = (\<Sum>j\<in>dom m - {k}. f (the (m j)))"
    by (rule sum.cong) auto
  have "map_sum f (m(k \<mapsto> v)) = f v + (\<Sum>j\<in>dom m - {k}. f (the (m j)))"
    unfolding map_sum_def using assms same
    by (simp add: insert_Diff_if sum.insert_remove)
  moreover have "(\<Sum>j\<in>dom m - {k}. f (the (m j)))
      = map_sum f m - (case m k of None \<Rightarrow> 0 | Some w \<Rightarrow> f w)"
    unfolding map_sum_def using assms by (auto simp: sum_diff1 split: option.split)
  ultimately show ?thesis by simp
qed

lemma map_sum_nonneg: "(\<And>k v. m k = Some v \<Longrightarrow> 0 \<le> f v) \<Longrightarrow> 0 \<le> map_sum f m"
  unfolding map_sum_def by (rule sum_nonneg) auto

lemma map_sum_member_le:
  assumes "finite (dom m)" and "m k = Some v" and "\<And>k v. m k = Some v \<Longrightarrow> 0 \<le> f v"
  shows "f v \<le> map_sum f m"
proof -
  have "f (the (m k)) \<le> map_sum f m"
    unfolding map_sum_def using assms by (intro member_le_sum) auto
  with assms(2) show ?thesis by simp
qed

end
