(* ===== verification/Go_Text.thy ===== *)
theory Go_Text
  imports Prelude
begin

section \<open>Text: the parts of Go's standard library the program uses\<close>

text \<open>
  A Go string is a sequence of bytes, here a \<open>string\<close> whose characters are bytes; \<open>len\<close> is the
  length in bytes. Modelled: \<open>strings.TrimSpace\<close> on UTF-8 (every rune of \<open>unicode.IsSpace\<close>, by
  its encoding), \<open>strings.ToLower\<close> and \<open>strings.ToUpper\<close> (ASCII exactly; the Unicode case tables
  for text with other bytes are a parameter), the decimal verbs \<open>%d\<close> and \<open>%06d\<close> of \<open>fmt\<close>, and
  \<open>hex.EncodeToString\<close>.
\<close>

subsection \<open>Removing leading pieces\<close>

fun drop_prefix :: "string \<Rightarrow> string \<Rightarrow> string option" where
  "drop_prefix [] s = Some s"
| "drop_prefix (c # cs) [] = None"
| "drop_prefix (c # cs) (d # ds) = (if c = d then drop_prefix cs ds else None)"

lemma drop_prefix_Some: "drop_prefix p s = Some r \<longleftrightarrow> s = p @ r"
  by (induction p s rule: drop_prefix.induct) auto

lemma drop_prefix_None: "drop_prefix p s = None \<longleftrightarrow> (\<forall>r. s \<noteq> p @ r)"
  using drop_prefix_Some [of p s] by (cases "drop_prefix p s") auto

fun strip_one :: "string list \<Rightarrow> string \<Rightarrow> string option" where
  "strip_one [] s = None"
| "strip_one (e # es) s = (case drop_prefix e s of Some r \<Rightarrow> Some r | None \<Rightarrow> strip_one es s)"

lemma strip_one_Some: "strip_one es s = Some r \<Longrightarrow> \<exists>e\<in>set es. s = e @ r"
  by (induction es) (auto split: option.splits simp: drop_prefix_Some)

lemma strip_one_None: "strip_one es s = None \<longleftrightarrow> (\<forall>e\<in>set es. \<forall>r. s \<noteq> e @ r)"
  by (induction es) (auto split: option.splits simp: drop_prefix_None drop_prefix_Some)

lemma strip_one_None_prefix: "strip_one es (t @ u) = None \<Longrightarrow> strip_one es t = None"
  by (auto simp: strip_one_None)

function strip_all :: "string list \<Rightarrow> string \<Rightarrow> string" where
  "strip_all es s =
     (case strip_one es s of
        None \<Rightarrow> s
      | Some r \<Rightarrow> if length r < length s then strip_all es r else s)"
  by pat_completeness auto
termination
  by (relation "measure (\<lambda>(es, s). length s)") auto

declare strip_all.simps [simp del]

lemma strip_all_done: "strip_one es s = None \<Longrightarrow> strip_all es s = s"
  by (simp add: strip_all.simps)

lemma strip_one_shorter: "strip_one es s = Some r \<Longrightarrow> [] \<notin> set es \<Longrightarrow> length r < length s"
  using strip_one_Some [of es s r] by fastforce

lemma strip_all_step:
  "strip_one es s = Some r \<Longrightarrow> length r < length s \<Longrightarrow> strip_all es s = strip_all es r"
  by (simp add: strip_all.simps [of es s])

lemma strip_all_none: "[] \<notin> set es \<Longrightarrow> strip_one es (strip_all es s) = None"
proof (induction es s rule: strip_all.induct)
  case (1 es s)
  show ?case
  proof (cases "strip_one es s")
    case None
    then show ?thesis by (simp add: strip_all_done)
  next
    case (Some r)
    then have "length r < length s"
      using "1.prems" by (rule strip_one_shorter)
    with 1 Some show ?thesis by (simp add: strip_all_step)
  qed
qed

lemma strip_all_suffix: "[] \<notin> set es \<Longrightarrow> \<exists>u. s = u @ strip_all es s"
proof (induction es s rule: strip_all.induct)
  case (1 es s)
  show ?case
  proof (cases "strip_one es s")
    case None
    then show ?thesis by (simp add: strip_all_done)
  next
    case (Some r)
    then have less: "length r < length s"
      using "1.prems" by (rule strip_one_shorter)
    from Some obtain e where e: "s = e @ r"
      using strip_one_Some by blast
    from 1 Some less obtain u where "r = u @ strip_all es r" by blast
    with e have "s = (e @ u) @ strip_all es r" by simp
    with Some less show ?thesis by (simp only: strip_all_step) blast
  qed
qed

subsection \<open>\<open>strings.TrimSpace\<close>\<close>

text \<open>
  The UTF-8 encodings of the runes for which \<open>unicode.IsSpace\<close> holds: tab, newline, vertical
  tab, form feed, carriage return, space, U+0085, U+00A0, U+1680, U+2000 to U+200A, U+2028,
  U+2029, U+202F, U+205F and U+3000. Trimming on the right works on the reversed text with the
  reversed encodings: a byte sequence ends in a rune exactly when it ends in its encoding.
\<close>

definition white_runes :: "string list" where
  "white_runes =
     [[CHR 0x09], [CHR 0x0A], [CHR 0x0B], [CHR 0x0C], [CHR 0x0D], [CHR 0x20],
      [CHR 0xC2, CHR 0x85], [CHR 0xC2, CHR 0xA0], [CHR 0xE1, CHR 0x9A, CHR 0x80],
      [CHR 0xE2, CHR 0x80, CHR 0x80], [CHR 0xE2, CHR 0x80, CHR 0x81],
      [CHR 0xE2, CHR 0x80, CHR 0x82], [CHR 0xE2, CHR 0x80, CHR 0x83],
      [CHR 0xE2, CHR 0x80, CHR 0x84], [CHR 0xE2, CHR 0x80, CHR 0x85],
      [CHR 0xE2, CHR 0x80, CHR 0x86], [CHR 0xE2, CHR 0x80, CHR 0x87],
      [CHR 0xE2, CHR 0x80, CHR 0x88], [CHR 0xE2, CHR 0x80, CHR 0x89],
      [CHR 0xE2, CHR 0x80, CHR 0x8A], [CHR 0xE2, CHR 0x80, CHR 0xA8],
      [CHR 0xE2, CHR 0x80, CHR 0xA9], [CHR 0xE2, CHR 0x80, CHR 0xAF],
      [CHR 0xE2, CHR 0x81, CHR 0x9F], [CHR 0xE3, CHR 0x80, CHR 0x80]]"

definition TrimSpace :: "string \<Rightarrow> string" where
  "TrimSpace s = rev (strip_all (map rev white_runes) (rev (strip_all white_runes s)))"

text \<open>The text neither starts nor ends in white space.\<close>

definition trimmed :: "string \<Rightarrow> bool" where
  "trimmed s \<longleftrightarrow> strip_one white_runes s = None \<and> strip_one (map rev white_runes) (rev s) = None"

lemma white_runes_nonempty: "[] \<notin> set white_runes" "[] \<notin> set (map rev white_runes)"
  by (simp_all add: white_runes_def)

lemma trimmed_TrimSpace: "trimmed (TrimSpace s)"
proof -
  define t where "t = strip_all white_runes s"
  define r where "r = strip_all (map rev white_runes) (rev t)"
  have lead: "strip_one white_runes t = None"
    unfolding t_def by (rule strip_all_none) (rule white_runes_nonempty)
  obtain u where "rev t = u @ r"
    using strip_all_suffix [OF white_runes_nonempty(2)] unfolding r_def by blast
  then have "t = rev r @ rev u"
    by (metis rev_append rev_rev_ident)
  with lead have "strip_one white_runes (rev r) = None"
    using strip_one_None_prefix by blast
  moreover have "strip_one (map rev white_runes) r = None"
    unfolding r_def by (rule strip_all_none) (rule white_runes_nonempty)
  ultimately show ?thesis
    by (simp add: trimmed_def TrimSpace_def flip: t_def r_def)
qed

lemma TrimSpace_trimmed: "trimmed s \<Longrightarrow> TrimSpace s = s"
  by (simp add: trimmed_def TrimSpace_def strip_all_done)

lemma TrimSpace_idem [simp]: "TrimSpace (TrimSpace s) = TrimSpace s"
  by (rule TrimSpace_trimmed) (rule trimmed_TrimSpace)

lemma TrimSpace_length: "length (TrimSpace s) \<le> length s"
proof -
  obtain u where u: "s = u @ strip_all white_runes s"
    using strip_all_suffix [OF white_runes_nonempty(1)] by blast
  obtain v where v: "rev (strip_all white_runes s)
      = v @ strip_all (map rev white_runes) (rev (strip_all white_runes s))"
    using strip_all_suffix [OF white_runes_nonempty(2)] by blast
  have "length (TrimSpace s) \<le> length (strip_all white_runes s)"
    using arg_cong [OF v, of length] by (simp add: TrimSpace_def)
  also have "\<dots> \<le> length s"
    using arg_cong [OF u, of length] by simp
  finally show ?thesis .
qed

lemma TrimSpace_Nil [simp]: "TrimSpace [] = []"
  using TrimSpace_length [of "[]"] by simp

text \<open>
  No encoding of a white rune begins another one, read from either end, and none starts with a byte
  that continues one; so exactly the runes around a trimmed text are removed.
\<close>

definition prefix_free :: "string list \<Rightarrow> bool" where
  "prefix_free es \<longleftrightarrow> list_all (\<lambda>e. list_all (\<lambda>e'. e = e' \<or> drop_prefix e e' = None) es) es"

lemma prefix_freeD:
  assumes "prefix_free es" and "e \<in> set es" "e' \<in> set es" and "e @ x = e' @ y"
  shows "e = e' \<and> x = y"
proof -
  obtain us where "e' = e @ us \<or> e = e' @ us" using assms(4) by (auto simp: append_eq_append_conv2)
  then have "drop_prefix e e' = Some us \<or> drop_prefix e' e = Some us" by (auto simp: drop_prefix_Some)
  moreover have all: "\<forall>e\<in>set es. \<forall>e'\<in>set es. e = e' \<or> drop_prefix e e' = None"
    using assms(1) by (simp add: prefix_free_def list_all_iff)
  note all [THEN bspec, THEN bspec, OF assms(2,3)] all [THEN bspec, THEN bspec, OF assms(3,2)]
  ultimately have "e = e'" by (metis option.distinct(1))
  with assms(4) show ?thesis by simp
qed

lemma white_runes_prefix_free: "prefix_free white_runes" "prefix_free (map rev white_runes)"
  by code_simp+

lemma strip_all_rune:
  assumes "prefix_free es" and "[] \<notin> set es" and "e \<in> set es"
  shows "strip_all es (e @ r) = strip_all es r"
proof -
  obtain r' where r': "strip_one es (e @ r) = Some r'"
    using assms(3) strip_one_None [of es "e @ r"] by (cases "strip_one es (e @ r)") auto
  then obtain e' where "e' \<in> set es" "e @ r = e' @ r'" using strip_one_Some by blast
  with assms(1,3) have "r' = r" by (metis prefix_freeD)
  with r' strip_one_shorter [OF r' assms(2)] show ?thesis by (simp add: strip_all_step)
qed

lemma strip_all_runes:
  "prefix_free es \<Longrightarrow> [] \<notin> set es \<Longrightarrow> set ws \<subseteq> set es \<Longrightarrow> strip_all es (concat ws @ r) = strip_all es r"
  by (induction ws) (simp_all add: strip_all_rune)

definition continuation :: "char \<Rightarrow> bool" where
  "continuation c \<longleftrightarrow> 128 \<le> (of_char c :: nat) \<and> (of_char c :: nat) < 192"

lemma white_rune_bytes:
  assumes "e \<in> set white_runes"
  shows "\<not> continuation (hd e)" and "\<forall>c\<in>set (tl e). continuation c"
proof -
  have "list_all (\<lambda>e. \<not> continuation (hd e) \<and> list_all continuation (tl e)) white_runes" by code_simp
  with assms show "\<not> continuation (hd e)" "\<forall>c\<in>set (tl e). continuation c"
    by (simp_all add: list_all_iff)
qed

lemma strip_one_before_runes:
  assumes s: "s \<noteq> []" "strip_one white_runes s = None" and ws: "set ws \<subseteq> set white_runes"
  shows "strip_one white_runes (s @ concat ws) = None"
  unfolding strip_one_None
proof (intro ballI allI notI)
  fix e r assume e: "e \<in> set white_runes" and eq: "s @ concat ws = e @ r"
  from eq obtain us where "s = e @ us \<or> (e = s @ us \<and> concat ws = us @ r)"
    by (auto simp: append_eq_append_conv2)
  with s(2) e have us: "e = s @ us" "concat ws = us @ r" by (auto simp: strip_one_None)
  have "us \<noteq> []" using s(2) e us(1) by (auto simp: strip_one_None)
  then have "hd us \<in> set (tl e)" using us(1) s(1) by (cases s) auto
  with white_rune_bytes(2) [OF e] have "continuation (hd us)" by blast
  moreover obtain w ws' where w: "ws = w # ws'" using us(2) \<open>us \<noteq> []\<close> by (cases ws) auto
  moreover have "w \<in> set white_runes" "w \<noteq> []" using w ws white_runes_nonempty(1) by auto
  moreover from this have "hd us = hd w" using us(2) w \<open>us \<noteq> []\<close> by (metis concat.simps(2) hd_append2)
  ultimately show False using white_rune_bytes(1) by auto
qed

lemma TrimSpace_padded:
  assumes s: "trimmed s" and vs: "set vs \<subseteq> set white_runes" and ws: "set ws \<subseteq> set white_runes"
  shows "TrimSpace (concat vs @ s @ concat ws) = s"
proof -
  have left: "strip_all white_runes (concat vs @ s @ concat ws) = strip_all white_runes (s @ concat ws)"
    by (rule strip_all_runes [OF white_runes_prefix_free(1) white_runes_nonempty(1) vs])
  have rev_ws: "rev (concat ws) = concat (rev (map rev ws))" by (simp add: rev_concat rev_map)
  have right: "strip_all (map rev white_runes) (rev (concat ws) @ t) = strip_all (map rev white_runes) t" for t
    unfolding rev_ws using ws
    by (intro strip_all_runes [OF white_runes_prefix_free(2) white_runes_nonempty(2)]) auto
  show ?thesis
  proof (cases "s = []")
    case True
    have "strip_all white_runes (concat ws @ []) = strip_all white_runes []"
      by (rule strip_all_runes [OF white_runes_prefix_free(1) white_runes_nonempty(1) ws])
    with left True show ?thesis using TrimSpace_Nil by (simp add: TrimSpace_def)
  next
    case False
    with s ws have "strip_all white_runes (s @ concat ws) = s @ concat ws"
      by (intro strip_all_done strip_one_before_runes) (simp_all add: trimmed_def)
    then show ?thesis
      using s right [of "rev s"] by (simp add: TrimSpace_def left trimmed_def strip_all_done)
  qed
qed

text \<open>Text that starts and ends with a printable ASCII character is trimmed.\<close>

definition printable :: "char \<Rightarrow> bool" where
  "printable c \<longleftrightarrow> 33 \<le> (of_char c :: nat) \<and> (of_char c :: nat) \<le> 126"

lemma strip_one_hd:
  assumes "s \<noteq> []" and "\<forall>e\<in>set es. e \<noteq> [] \<and> hd e \<noteq> hd s"
  shows "strip_one es s = None"
  using assms by (auto simp: strip_one_None)

lemma white_runes_ends:
  "e \<in> set white_runes \<Longrightarrow> \<not> printable (hd e)" "e \<in> set (map rev white_runes) \<Longrightarrow> \<not> printable (hd e)"
  by (auto simp: white_runes_def printable_def)

lemma trimmed_printable:
  assumes "s \<noteq> []" and "printable (hd s)" and "printable (last s)"
  shows "trimmed s"
  unfolding trimmed_def
proof
  show "strip_one white_runes s = None"
    using assms white_runes_ends(1) white_runes_nonempty(1) by (intro strip_one_hd) metis+
  have "hd (rev s) = last s" by (simp add: hd_rev)
  then show "strip_one (map rev white_runes) (rev s) = None"
    using assms white_runes_ends(2) white_runes_nonempty(2) by (intro strip_one_hd) (metis Nil_is_rev_conv)+
qed

subsection \<open>\<open>strings.ToLower\<close> and \<open>strings.ToUpper\<close>\<close>

text \<open>
  On ASCII text the mapping is bytewise. On other text Go maps every rune by the Unicode tables;
  that mapping is the parameter \<open>u\<close>.
\<close>

definition ascii_text :: "string \<Rightarrow> bool" where
  "ascii_text s \<longleftrightarrow> (\<forall>c\<in>set s. (of_char c :: nat) < 128)"

definition ascii_lower :: "char \<Rightarrow> char" where
  "ascii_lower c =
     (if 65 \<le> (of_char c :: nat) \<and> (of_char c :: nat) \<le> 90 then char_of ((of_char c :: nat) + 32) else c)"

definition ascii_upper :: "char \<Rightarrow> char" where
  "ascii_upper c =
     (if 97 \<le> (of_char c :: nat) \<and> (of_char c :: nat) \<le> 122 then char_of ((of_char c :: nat) - 32) else c)"

definition ToLower :: "(string \<Rightarrow> string) \<Rightarrow> string \<Rightarrow> string" where
  "ToLower u s = (if ascii_text s then map ascii_lower s else u s)"

definition ToUpper :: "(string \<Rightarrow> string) \<Rightarrow> string \<Rightarrow> string" where
  "ToUpper u s = (if ascii_text s then map ascii_upper s else u s)"

subsection \<open>\<open>%d\<close> and \<open>%06d\<close>\<close>

definition digit :: "nat \<Rightarrow> char" where
  "digit d = ''0123456789'' ! d"

fun show_nat :: "nat \<Rightarrow> string" where
  "show_nat n = (if n < 10 then [digit n] else show_nat (n div 10) @ [digit (n mod 10)])"

declare show_nat.simps [simp del]

definition show_int :: "int \<Rightarrow> string" where
  "show_int i = (if i < 0 then CHR ''-'' # show_nat (nat (- i)) else show_nat (nat i))"

text \<open>\<open>%06d\<close>: at least six characters, padded with zeros after the sign.\<close>

definition show_int06 :: "int \<Rightarrow> string" where
  "show_int06 i =
     (if i < 0
      then let ds = show_nat (nat (- i)) in CHR ''-'' # replicate (5 - length ds) (CHR ''0'') @ ds
      else let ds = show_nat (nat i) in replicate (6 - length ds) (CHR ''0'') @ ds)"

text \<open>Reading digits back shows that the decimal text determines the number.\<close>

definition digit_val :: "char \<Rightarrow> nat" where
  "digit_val c = of_char c - 48"

definition read_nat :: "string \<Rightarrow> nat" where
  "read_nat s = foldl (\<lambda>n c. 10 * n + digit_val c) 0 s"

lemma digit_val_digit: "d < 10 \<Longrightarrow> digit_val (digit d) = d"
  by (auto simp: digit_val_def digit_def less_Suc_eq numeral_eq_Suc)

lemma read_nat_append1: "read_nat (s @ [c]) = 10 * read_nat s + digit_val c"
  by (simp add: read_nat_def)

lemma read_show_nat [simp]: "read_nat (show_nat n) = n"
proof (induction n rule: show_nat.induct)
  case (1 n)
  show ?case
  proof (cases "n < 10")
    case True
    then show ?thesis
      by (simp add: show_nat.simps [of n] read_nat_def digit_val_digit)
  next
    case False
    with 1 show ?thesis
      by (simp add: show_nat.simps [of n] read_nat_append1 digit_val_digit)
  qed
qed

lemma read_nat_zeros [simp]: "read_nat (replicate k (CHR ''0'') @ s) = read_nat s"
  by (induction k) (simp_all add: read_nat_def digit_val_def)

lemma show_nat_digits: "c \<in> set (show_nat n) \<Longrightarrow> c \<in> set ''0123456789''"
proof (induction n rule: show_nat.induct)
  case (1 n)
  have d: "digit d \<in> set ''0123456789''" if "d < 10" for d
    unfolding digit_def using that by (intro nth_mem) simp
  show ?case
  proof (cases "n < 10")
    case True
    with 1 d show ?thesis by (simp add: show_nat.simps [of n])
  next
    case False
    with "1.prems" have "c \<in> set (show_nat (n div 10)) \<or> c = digit (n mod 10)"
      by (subst (asm) show_nat.simps) auto
    with "1.IH" [OF False] d [of "n mod 10"] show ?thesis by auto
  qed
qed

lemma printable_digits: "c \<in> set ''0123456789'' \<Longrightarrow> printable c"
  by (auto simp: printable_def)

lemma show_int_last: "printable (last (show_int i))" "show_int i \<noteq> []"
proof -
  have ne: "show_nat n \<noteq> []" for n by (simp add: show_nat.simps)
  then have "printable (last (show_nat n))" for n
    using show_nat_digits [of "last (show_nat n)" n] by (intro printable_digits) simp
  with ne show "printable (last (show_int i))" "show_int i \<noteq> []" by (simp_all add: show_int_def)
qed

lemma show_nat_no_minus: "CHR ''-'' \<notin> set (show_nat n)"
  using show_nat_digits [of "CHR ''-''" n] by auto

lemma show_nat_nonempty [simp]: "show_nat n \<noteq> []"
  by (simp add: show_nat.simps)

lemma show_int_inj: "show_int i = show_int j \<longleftrightarrow> i = j"
proof
  assume eq: "show_int i = show_int j"
  have neq: "CHR ''-'' # s \<noteq> show_nat n" for s n
    using show_nat_no_minus [of n] by (metis list.set_intros(1))
  show "i = j"
  proof (cases "i < 0"; cases "j < 0")
    assume "i < 0" "j < 0"
    with eq have "show_nat (nat (- i)) = show_nat (nat (- j))" by (simp add: show_int_def)
    then have "nat (- i) = nat (- j)" by (metis read_show_nat)
    with \<open>i < 0\<close> \<open>j < 0\<close> show ?thesis by simp
  next
    assume "\<not> i < 0" "\<not> j < 0"
    with eq have "show_nat (nat i) = show_nat (nat j)" by (simp add: show_int_def)
    then have "nat i = nat j" by (metis read_show_nat)
    with \<open>\<not> i < 0\<close> \<open>\<not> j < 0\<close> show ?thesis by simp
  qed (use eq neq in \<open>auto simp: show_int_def dest: sym\<close>)
qed simp

lemma read_show_int06: "0 \<le> i \<Longrightarrow> read_nat (show_int06 i) = nat i"
  by (simp add: show_int06_def Let_def)

subsection \<open>\<open>hex.EncodeToString\<close>\<close>

definition hex_digit :: "nat \<Rightarrow> char" where
  "hex_digit d = ''0123456789abcdef'' ! d"

definition hex_encode :: "string \<Rightarrow> string" where
  "hex_encode s =
     concat (map (\<lambda>c. [hex_digit (of_char c div 16), hex_digit (of_char c mod 16)]) s)"

definition hex_val :: "char \<Rightarrow> nat" where
  "hex_val c = (if (of_char c :: nat) < 58 then of_char c - 48 else of_char c - 87)"

fun hex_decode :: "string \<Rightarrow> string" where
  "hex_decode (a # b # s) = char_of (16 * hex_val a + hex_val b) # hex_decode s"
| "hex_decode s = []"

lemma hex_val_digit: "d < 16 \<Longrightarrow> hex_val (hex_digit d) = d"
proof -
  have "list_all (\<lambda>d. hex_val (hex_digit d) = d) [0..<16]" by code_simp
  then show "d < 16 \<Longrightarrow> hex_val (hex_digit d) = d" by (simp add: list_all_iff)
qed

lemma hex_encode_Cons:
  "hex_encode (c # s) = hex_digit (of_char c div 16) # hex_digit (of_char c mod 16) # hex_encode s"
  by (simp add: hex_encode_def)

lemma hex_encode_last:
  assumes "s \<noteq> []"
  shows "printable (last (hex_encode s))" and "hex_encode s \<noteq> []"
proof -
  have "list_all (\<lambda>d. printable (hex_digit d)) [0..<16]" by code_simp
  then have digits: "d < 16 \<Longrightarrow> printable (hex_digit d)" for d by (simp add: list_all_iff)
  obtain t c where "s = t @ [c]" using assms by (metis rev_exhaust)
  then have "hex_encode s = (hex_encode t @ [hex_digit (of_char c div 16)]) @ [hex_digit (of_char c mod 16)]"
    by (simp add: hex_encode_def)
  then show "printable (last (hex_encode s))" and "hex_encode s \<noteq> []" by (simp_all add: digits)
qed

lemma hex_decode_encode [simp]: "hex_decode (hex_encode s) = s"
proof (induction s)
  case Nil
  show ?case by (simp add: hex_encode_def)
next
  case (Cons c s)
  have "(of_char c :: nat) div 16 < 16"
    using nat_of_char_less_256 [of c] by (simp add: less_mult_imp_div_less)
  with Cons show ?case
    by (simp add: hex_encode_Cons hex_val_digit)
qed

lemma hex_encode_inj: "hex_encode s = hex_encode t \<longleftrightarrow> s = t"
  by (metis hex_decode_encode)

lemma length_hex_encode [simp]: "length (hex_encode s) = 2 * length s"
  by (induction s) (simp_all add: hex_encode_def)

end
