(* ===== verification/Domain.thy ===== *)
theory Domain
  imports Go_Text
begin

section \<open>The domain model and the store interface\<close>

text \<open>
  \<open>internal/domain/model.go\<close> (payments, events, callbacks, accounts, ledger entries) and
  \<open>internal/store/store.go\<close> (the store's errors and the interface \<open>Store\<close>). A Go interface is a
  record of its methods, so a client that holds a \<open>Store\<close> takes such a record, and every store
  is one value of it.
\<close>

subsection \<open>\<open>internal/domain/model.go\<close>\<close>

text \<open>A time is the count of nanoseconds since the Unix epoch; \<open>zero_time\<close> is Go's zero Time.\<close>

type_synonym time = int

definition zero_time :: time where
  "zero_time = -62135596800000000000"

text \<open>\<open>PaymentStatus\<close> is a string type with five constants; \<open>StatusNone\<close> is its zero value, the
  empty string, which an event carries where no status changed.\<close>

datatype payment_status =
  StatusNone | StatusInit | StatusProcessing | StatusSuccess | StatusFailed | StatusClosed

fun status_text :: "payment_status \<Rightarrow> string" where
  "status_text StatusNone = ''''"
| "status_text StatusInit = ''INIT''"
| "status_text StatusProcessing = ''PROCESSING''"
| "status_text StatusSuccess = ''SUCCESS''"
| "status_text StatusFailed = ''FAILED''"
| "status_text StatusClosed = ''CLOSED''"

definition Terminal :: "payment_status \<Rightarrow> bool" where
  "Terminal s \<longleftrightarrow> s = StatusSuccess \<or> s = StatusFailed \<or> s = StatusClosed"

lemma Terminal_simps [simp]:
  "\<not> Terminal StatusNone" "\<not> Terminal StatusInit" "\<not> Terminal StatusProcessing"
  "Terminal StatusSuccess" "Terminal StatusFailed" "Terminal StatusClosed"
  by (simp_all add: Terminal_def)

record payment =
  pay_id :: string
  pay_gid :: string
  pay_mode :: string
  pay_order :: string
  pay_account :: string
  pay_amount :: int64
  pay_currency :: string
  pay_status :: payment_status
  pay_failure :: string
  pay_callback_seq :: int64
  pay_created :: time
  pay_updated :: time

definition zero_payment :: payment where
  "zero_payment =
     \<lparr>pay_id = '''', pay_gid = '''', pay_mode = '''', pay_order = '''', pay_account = '''',
      pay_amount = 0, pay_currency = '''', pay_status = StatusNone, pay_failure = '''',
      pay_callback_seq = 0, pay_created = zero_time, pay_updated = zero_time\<rparr>"

type_synonym metadata = "(string \<rightharpoonup> string) option"

record payment_event =
  ev_seq :: int64
  ev_type :: string
  ev_from :: payment_status
  ev_to :: payment_status
  ev_message :: string
  ev_metadata :: metadata
  ev_at :: time

record callback =
  cb_event_id :: string
  cb_sequence :: int64
  cb_outcome :: string
  cb_reason :: string

datatype disposition =
  CallbackApplied | CallbackDuplicate | CallbackOutOfOrder | CallbackTerminalIgnored

record callback_result =
  cr_payment :: payment
  cr_disposition :: disposition

record account =
  acc_id :: string
  acc_available :: int64
  acc_frozen :: int64
  acc_currency :: string
  acc_updated :: time

definition zero_account :: account where
  "zero_account =
     \<lparr>acc_id = '''', acc_available = 0, acc_frozen = 0, acc_currency = '''', acc_updated = zero_time\<rparr>"

record ledger_entry =
  le_id :: string
  le_gid :: string
  le_payment :: string
  le_account :: string
  le_amount :: int64
  le_direction :: string
  le_status :: string
  le_created :: time

record store_snapshot =
  snap_payments :: nat
  snap_status_counts :: "payment_status \<rightharpoonup> nat"
  snap_accounts :: nat
  snap_ledger :: nat

subsection \<open>Errors\<close>

text \<open>
  The sentinel errors of \<open>store.go\<close>, the two errors of \<open>service/payment.go\<close> (\<open>InjectedFault\<close> wraps
  \<open>ErrInjectedFault\<close> with the fault point), and \<open>OtherError\<close> for an error built by \<open>fmt.Errorf\<close>
  or handed up from a driver, which no caller tells apart.
\<close>

datatype go_error =
  ErrNotFound
| ErrIdempotencyConflict
| ErrInvalidTransition
| ErrInsufficientFunds
| InjectedFault string
| ValidationError string
| OtherError string

text \<open>\<open>err.Error()\<close>\<close>

fun error_text :: "go_error \<Rightarrow> string" where
  "error_text ErrNotFound = ''not found''"
| "error_text ErrIdempotencyConflict = ''idempotency key was already used with a different request''"
| "error_text ErrInvalidTransition = ''invalid payment state transition''"
| "error_text ErrInsufficientFunds = ''insufficient funds''"
| "error_text (InjectedFault p) = ''injected fault: '' @ p"
| "error_text (ValidationError m) = m"
| "error_text (OtherError m) = m"

subsection \<open>\<open>internal/store/store.go\<close>: the interface \<open>Store\<close>\<close>

text \<open>
  A method that reads the clock takes its readings as an argument: \<open>c k\<close> is what the k-th call of
  \<open>time.Now\<close> in the method's text returns. \<open>ListPayments\<close> and \<open>Snapshot\<close> range over Go maps; the
  order of a range is arbitrary, so it is an argument too: the list of the map's keys.
\<close>

type_synonym clock = "nat \<Rightarrow> time"
type_synonym ('s, 'a) store_method = "('s, go_error, 'a) op"

record 's store_ops =
  op_CreatePayment :: "clock \<Rightarrow> payment \<Rightarrow> string \<Rightarrow> string \<Rightarrow> ('s, payment \<times> bool) store_method"
  op_StartPayment :: "clock \<Rightarrow> string \<Rightarrow> ('s, payment) store_method"
  op_Freeze :: "clock \<Rightarrow> string \<Rightarrow> ('s, payment) store_method"
  op_FailAndRelease :: "clock \<Rightarrow> string \<Rightarrow> string \<Rightarrow> ('s, payment) store_method"
  op_ProcessCallback :: "clock \<Rightarrow> string \<Rightarrow> callback \<Rightarrow> ('s, callback_result) store_method"
  op_ClosePayment :: "clock \<Rightarrow> string \<Rightarrow> string \<Rightarrow> ('s, payment) store_method"
  op_RecordEvent :: "clock \<Rightarrow> string \<Rightarrow> string \<Rightarrow> string \<Rightarrow> metadata \<Rightarrow> ('s, unit) store_method"
  op_GetPayment :: "string \<Rightarrow> ('s, payment) store_method"
  op_ListPayments :: "string list \<Rightarrow> ('s, payment list) store_method"
  op_Events :: "string \<Rightarrow> ('s, payment_event list) store_method"
  op_Account :: "string \<Rightarrow> ('s, account) store_method"
  op_Ledger :: "('s, ledger_entry list) store_method"
  op_Snapshot :: "string list \<Rightarrow> ('s, store_snapshot) store_method"
  op_Reset :: "clock \<Rightarrow> ('s, unit) store_method"

end
