(* ===== verification/Memory_Store.thy ===== *)
theory Memory_Store
  imports Domain
begin

section \<open>The in-memory store\<close>

text \<open>
  \<open>internal/store/memory.go\<close>: the state \<open>MemoryStore\<close> and each of its methods. Every method runs
  under the store's one mutex from its first line to its return, so it is one function from the
  state to the state and the result. A map entry is a value (Go copies structs in and out of
  maps), so the value model has no aliasing to track; the event metadata, a Go map, is copied by
  \<open>cloneMetadata\<close> on the way in and out, and its model is the copy.
\<close>

subsection \<open>State\<close>

definition demoBalanceCents :: int64 where
  "demoBalanceCents = 1000000"

record idempotencyRecord =
  idem_payment :: string
  idem_fingerprint :: string

datatype reservation_state = FROZEN | CONFIRMED | CANCELLED

record reservation =
  res_payment :: string
  res_account :: string
  res_amount :: int64
  res_state :: reservation_state

record mem_store =
  payments :: "string \<rightharpoonup> payment"
  events :: "string \<rightharpoonup> payment_event list"
  eventSequences :: "string \<rightharpoonup> int64"
  idempotency :: "string \<rightharpoonup> idempotencyRecord"
  callbacksSeen :: "string \<rightharpoonup> string set"
  accounts :: "string \<rightharpoonup> account"
  reservations :: "string \<rightharpoonup> reservation"
  ledger :: "ledger_entry list"
  ledgerSequence :: int64

abbreviation events_of :: "mem_store \<Rightarrow> string \<Rightarrow> payment_event list" where
  "events_of s pid \<equiv> map_get (events s) pid []"

abbreviation event_seq_of :: "mem_store \<Rightarrow> string \<Rightarrow> int64" where
  "event_seq_of s pid \<equiv> map_get (eventSequences s) pid 0"

abbreviation seen_of :: "mem_store \<Rightarrow> string \<Rightarrow> string set" where
  "seen_of s pid \<equiv> map_get (callbacksSeen s) pid {}"

subsection \<open>Helpers that run with the lock held\<close>

definition cloneMetadata :: "metadata \<Rightarrow> metadata" where
  "cloneMetadata m = (case m of None \<Rightarrow> None | Some f \<Rightarrow> Some (\<lambda>key. f key))"

definition cloneEvent :: "payment_event \<Rightarrow> payment_event" where
  "cloneEvent e = e\<lparr>ev_metadata := cloneMetadata (ev_metadata e)\<rparr>"

definition callbackMetadata :: "callback \<Rightarrow> metadata" where
  "callbackMetadata cb =
     Some [''event_id'' \<mapsto> cb_event_id cb,
           ''callback_sequence'' \<mapsto> show_int (sint (cb_sequence cb)),
           ''outcome'' \<mapsto> cb_outcome cb]"

text \<open>\<open>new_event\<close> is the struct literal a caller passes: \<open>Sequence\<close> and \<open>At\<close> are still zero.\<close>

definition new_event ::
  "string \<Rightarrow> payment_status \<Rightarrow> payment_status \<Rightarrow> string \<Rightarrow> metadata \<Rightarrow> payment_event" where
  "new_event ty from to msg md =
     \<lparr>ev_seq = 0, ev_type = ty, ev_from = from, ev_to = to, ev_message = msg,
      ev_metadata = md, ev_at = zero_time\<rparr>"

definition appendEventLocked ::
  "time \<Rightarrow> string \<Rightarrow> payment_event \<Rightarrow> mem_store \<Rightarrow> mem_store" where
  "appendEventLocked now pid event s =
     (let n = event_seq_of s pid + 1;
          e = event\<lparr>ev_seq := n, ev_at := now, ev_metadata := cloneMetadata (ev_metadata event)\<rparr>
      in s\<lparr>eventSequences := (eventSequences s)(pid \<mapsto> n),
           events := (events s)(pid \<mapsto> events_of s pid @ [e])\<rparr>)"

definition appendIgnoredCallbackLocked ::
  "time \<Rightarrow> string \<Rightarrow> string \<Rightarrow> callback \<Rightarrow> string \<Rightarrow> mem_store \<Rightarrow> mem_store" where
  "appendIgnoredCallbackLocked now pid ty cb msg s =
     appendEventLocked now pid (new_event ty StatusNone StatusNone msg (callbackMetadata cb)) s"

definition releaseLocked ::
  "time \<Rightarrow> time \<Rightarrow> string \<Rightarrow> reservation_state \<Rightarrow> mem_store \<Rightarrow> mem_store" where
  "releaseLocked t0 t1 pid state s =
     (case reservations s pid of
        None \<Rightarrow> s
      | Some r \<Rightarrow>
          if res_state r \<noteq> FROZEN then s
          else
            let a0 = map_get (accounts s) (res_account r) zero_account;
                a = a0\<lparr>acc_available := acc_available a0 + res_amount r,
                       acc_frozen := acc_frozen a0 - res_amount r,
                       acc_updated := t0\<rparr>
            in appendEventLocked t1 pid
                 (new_event ''FUNDS_RELEASED'' StatusNone StatusNone
                   ''frozen funds returned in local TCC Cancel'' None)
                 (s\<lparr>accounts := (accounts s)(acc_id a \<mapsto> a),
                    reservations := (reservations s)(pid \<mapsto> r\<lparr>res_state := state\<rparr>)\<rparr>))"

definition resetLocked :: "time \<Rightarrow> mem_store" where
  "resetLocked now =
     \<lparr>payments = Map.empty, events = Map.empty, eventSequences = Map.empty,
      idempotency = Map.empty, callbacksSeen = Map.empty,
      accounts = [''demo-user'' \<mapsto>
        \<lparr>acc_id = ''demo-user'', acc_available = demoBalanceCents, acc_frozen = 0,
         acc_currency = ''CNY'', acc_updated = now\<rparr>],
      reservations = Map.empty, ledger = [], ledgerSequence = 0\<rparr>"

definition NewMemoryStore :: "time \<Rightarrow> mem_store" where
  "NewMemoryStore now = resetLocked now"

subsection \<open>Methods that write\<close>

definition mem_CreatePayment ::
  "clock \<Rightarrow> payment \<Rightarrow> string \<Rightarrow> string \<Rightarrow> (mem_store, payment \<times> bool) store_method" where
  "mem_CreatePayment c payment key fingerprint s =
     (case idempotency s key of
        Some record \<Rightarrow>
          if idem_fingerprint record \<noteq> fingerprint then (s, Inl ErrIdempotencyConflict)
          else (s, Inr (map_get (payments s) (idem_payment record) zero_payment, False))
      | None \<Rightarrow>
          if payments s (pay_id payment) \<noteq> None
          then (s, Inl (OtherError (''payment id collision: '' @ pay_id payment)))
          else
            (appendEventLocked (c 0) (pay_id payment)
               (new_event ''PAYMENT_CREATED'' StatusNone StatusInit
                 ''payment accepted with an idempotency key'' None)
               (s\<lparr>payments := (payments s)(pay_id payment \<mapsto> payment),
                  idempotency := (idempotency s)(key \<mapsto>
                    \<lparr>idem_payment = pay_id payment, idem_fingerprint = fingerprint\<rparr>)\<rparr>),
             Inr (payment, True)))"

definition mem_StartPayment :: "clock \<Rightarrow> string \<Rightarrow> (mem_store, payment) store_method" where
  "mem_StartPayment c pid s =
     (case payments s pid of
        None \<Rightarrow> (s, Inl ErrNotFound)
      | Some p0 \<Rightarrow>
          if pay_status p0 \<noteq> StatusInit then (s, Inl ErrInvalidTransition)
          else
            let p = p0\<lparr>pay_status := StatusProcessing, pay_updated := c 0\<rparr>
            in (appendEventLocked (c 1) pid
                  (new_event ''STATUS_CHANGED'' (pay_status p0) (pay_status p)
                    ''payment entered processing'' None)
                  (s\<lparr>payments := (payments s)(pid \<mapsto> p)\<rparr>),
                Inr p))"

definition mem_Freeze :: "clock \<Rightarrow> string \<Rightarrow> (mem_store, payment) store_method" where
  "mem_Freeze c pid s =
     (case payments s pid of
        None \<Rightarrow> (s, Inl ErrNotFound)
      | Some p \<Rightarrow>
          if pay_status p \<noteq> StatusProcessing then (s, Inl ErrInvalidTransition)
          else
            (case reservations s pid of
               Some existing \<Rightarrow>
                 if res_state existing = FROZEN \<or> res_state existing = CONFIRMED then (s, Inr p)
                 else (s, Inl ErrInvalidTransition)
             | None \<Rightarrow>
                 (case accounts s (pay_account p) of
                    None \<Rightarrow> (s, Inl ErrNotFound)
                  | Some a0 \<Rightarrow>
                      if acc_available a0 <s pay_amount p then (s, Inl ErrInsufficientFunds)
                      else
                        let a = a0\<lparr>acc_available := acc_available a0 - pay_amount p,
                                   acc_frozen := acc_frozen a0 + pay_amount p,
                                   acc_updated := c 0\<rparr>
                        in (appendEventLocked (c 1) pid
                              (new_event ''FUNDS_FROZEN'' StatusNone StatusNone
                                ''account funds reserved in local TCC Try''
                                (Some [''amount_cents'' \<mapsto> show_int (sint (pay_amount p)),
                                       ''account_id'' \<mapsto> acc_id a]))
                              (s\<lparr>accounts := (accounts s)(acc_id a \<mapsto> a),
                                 reservations := (reservations s)(pid \<mapsto>
                                   \<lparr>res_payment = pid, res_account = acc_id a,
                                    res_amount = pay_amount p, res_state = FROZEN\<rparr>)\<rparr>),
                            Inr p))))"

definition mem_FailAndRelease ::
  "clock \<Rightarrow> string \<Rightarrow> string \<Rightarrow> (mem_store, payment) store_method" where
  "mem_FailAndRelease c pid reason s =
     (case payments s pid of
        None \<Rightarrow> (s, Inl ErrNotFound)
      | Some p0 \<Rightarrow>
          if Terminal (pay_status p0) then (s, Inl ErrInvalidTransition)
          else
            let s1 = releaseLocked (c 0) (c 1) pid CANCELLED s;
                p = p0\<lparr>pay_status := StatusFailed, pay_failure := reason, pay_updated := c 2\<rparr>
            in (appendEventLocked (c 3) pid
                  (new_event ''STATUS_CHANGED'' (pay_status p0) (pay_status p) reason None)
                  (s1\<lparr>payments := (payments s1)(pid \<mapsto> p)\<rparr>),
                Inr p))"

text \<open>
  The tail of \<open>ProcessCallback\<close>, from the \<open>switch\<close> on: the payment has been found to be
  PROCESSING, \<open>p\<close> is the local copy with the new callback sequence and time, and the store
  already holds the seen event id and the CALLBACK_ACCEPTED event, also when this part fails.
\<close>

definition applyCallback ::
  "clock \<Rightarrow> string \<Rightarrow> callback \<Rightarrow> payment_status \<Rightarrow> payment \<Rightarrow> (mem_store, callback_result) store_method" where
  "applyCallback c pid cb from p s =
     (if cb_outcome cb = ''success'' then
        (case reservations s pid of
           None \<Rightarrow> (s, Inl ErrInvalidTransition)
         | Some r \<Rightarrow>
             if res_state r \<noteq> FROZEN then (s, Inl ErrInvalidTransition)
             else
               let a0 = map_get (accounts s) (res_account r) zero_account;
                   a = a0\<lparr>acc_frozen := acc_frozen a0 - res_amount r, acc_updated := pay_updated p\<rparr>;
                   n = ledgerSequence s + 1;
                   entry = \<lparr>le_id = ''ledger_'' @ show_int06 (sint n), le_gid = '''',
                            le_payment = pid, le_account = pay_account p,
                            le_amount = pay_amount p, le_direction = ''DEBIT'', le_status = '''',
                            le_created = pay_updated p\<rparr>;
                   s1 = appendEventLocked (c 5) pid
                          (new_event ''FUNDS_CONFIRMED'' StatusNone StatusNone
                            ''frozen funds committed and one ledger entry created'' None)
                          (s\<lparr>accounts := (accounts s)(acc_id a \<mapsto> a),
                             reservations := (reservations s)(pid \<mapsto> r\<lparr>res_state := CONFIRMED\<rparr>),
                             ledgerSequence := n,
                             ledger := ledger s @ [entry]\<rparr>);
                   q = p\<lparr>pay_status := StatusSuccess\<rparr>
               in (appendEventLocked (c 8) pid
                     (new_event ''STATUS_CHANGED'' from (pay_status q) ''callback applied'' None)
                     (s1\<lparr>payments := (payments s1)(pid \<mapsto> q)\<rparr>),
                   Inr \<lparr>cr_payment = q, cr_disposition = CallbackApplied\<rparr>))
      else
        let s1 = (if cb_outcome cb = ''failed'' then releaseLocked (c 6) (c 7) pid CANCELLED s else s);
            q = (if cb_outcome cb = ''failed''
                 then p\<lparr>pay_status := StatusFailed,
                        pay_failure := (if cb_reason cb = '''' then ''channel reported failure''
                                        else cb_reason cb)\<rparr>
                 else p)
        in (appendEventLocked (c 8) pid
              (new_event ''STATUS_CHANGED'' from (pay_status q) ''callback applied'' None)
              (s1\<lparr>payments := (payments s1)(pid \<mapsto> q)\<rparr>),
            Inr \<lparr>cr_payment = q, cr_disposition = CallbackApplied\<rparr>))"

definition mem_ProcessCallback ::
  "clock \<Rightarrow> string \<Rightarrow> callback \<Rightarrow> (mem_store, callback_result) store_method" where
  "mem_ProcessCallback c pid cb s =
     (if cb_outcome cb \<noteq> ''success'' \<and> cb_outcome cb \<noteq> ''failed''
      then (s, Inl (OtherError (''unsupported callback outcome: '' @ cb_outcome cb)))
      else
        (case payments s pid of
           None \<Rightarrow> (s, Inl ErrNotFound)
         | Some p0 \<Rightarrow>
             if cb_event_id cb \<in> seen_of s pid then
               (appendIgnoredCallbackLocked (c 0) pid ''CALLBACK_DUPLICATE'' cb
                  ''event id was already processed'' s,
                Inr \<lparr>cr_payment = p0, cr_disposition = CallbackDuplicate\<rparr>)
             else
               let s1 = s\<lparr>callbacksSeen := (callbacksSeen s)(pid \<mapsto>
                            insert (cb_event_id cb) (seen_of s pid))\<rparr>
               in
               if cb_sequence cb <=s pay_callback_seq p0 then
                 (appendIgnoredCallbackLocked (c 1) pid ''CALLBACK_OUT_OF_ORDER'' cb
                    ''callback sequence did not advance'' s1,
                  Inr \<lparr>cr_payment = p0, cr_disposition = CallbackOutOfOrder\<rparr>)
               else if Terminal (pay_status p0) then
                 (appendIgnoredCallbackLocked (c 2) pid ''CALLBACK_TERMINAL_IGNORED'' cb
                    ''terminal payment state is immutable'' s1,
                  Inr \<lparr>cr_payment = p0, cr_disposition = CallbackTerminalIgnored\<rparr>)
               else if pay_status p0 \<noteq> StatusProcessing then (s1, Inl ErrInvalidTransition)
               else
                 applyCallback c pid cb (pay_status p0)
                   (p0\<lparr>pay_callback_seq := cb_sequence cb, pay_updated := c 3\<rparr>)
                   (appendEventLocked (c 4) pid
                      (new_event ''CALLBACK_ACCEPTED'' StatusNone StatusNone
                        ''channel callback passed duplicate and ordering checks''
                        (callbackMetadata cb)) s1)))"

definition mem_ClosePayment :: "clock \<Rightarrow> string \<Rightarrow> string \<Rightarrow> (mem_store, payment) store_method" where
  "mem_ClosePayment c pid reason s =
     (case payments s pid of
        None \<Rightarrow> (s, Inl ErrNotFound)
      | Some p0 \<Rightarrow>
          if pay_status p0 \<noteq> StatusProcessing then (s, Inl ErrInvalidTransition)
          else
            let s1 = releaseLocked (c 0) (c 1) pid CANCELLED s;
                p = p0\<lparr>pay_status := StatusClosed, pay_failure := '''', pay_updated := c 2\<rparr>;
                message = (if reason = '''' then ''payment closed by operator'' else reason)
            in (appendEventLocked (c 3) pid
                  (new_event ''STATUS_CHANGED'' (pay_status p0) (pay_status p) message None)
                  (s1\<lparr>payments := (payments s1)(pid \<mapsto> p)\<rparr>),
                Inr p))"

definition mem_RecordEvent ::
  "clock \<Rightarrow> string \<Rightarrow> string \<Rightarrow> string \<Rightarrow> metadata \<Rightarrow> (mem_store, unit) store_method" where
  "mem_RecordEvent c pid ty msg md s =
     (if payments s pid = None then (s, Inl ErrNotFound)
      else (appendEventLocked (c 0) pid (new_event ty StatusNone StatusNone msg md) s, Inr ()))"

definition mem_Reset :: "clock \<Rightarrow> (mem_store, unit) store_method" where
  "mem_Reset c s = (resetLocked (c 0), Inr ())"

subsection \<open>Methods that read\<close>

definition mem_GetPayment :: "string \<Rightarrow> (mem_store, payment) store_method" where
  "mem_GetPayment pid s =
     (case payments s pid of None \<Rightarrow> (s, Inl ErrNotFound) | Some p \<Rightarrow> (s, Inr p))"

text \<open>
  \<open>ks\<close> is the order in which the range over the map meets its keys. \<open>sort.Slice\<close> is not stable,
  but the order before it is arbitrary, so a stable sort gives every outcome it can give.
\<close>

definition map_order :: "('k \<rightharpoonup> 'v) \<Rightarrow> 'k list \<Rightarrow> bool" where
  "map_order m ks \<longleftrightarrow> distinct ks \<and> set ks = dom m"

definition mem_ListPayments :: "string list \<Rightarrow> (mem_store, payment list) store_method" where
  "mem_ListPayments ks s =
     (s, Inr (sort_key (\<lambda>p. - pay_created p) (List.map_filter (payments s) ks)))"

definition mem_Events :: "string \<Rightarrow> (mem_store, payment_event list) store_method" where
  "mem_Events pid s =
     (if payments s pid = None then (s, Inl ErrNotFound)
      else (s, Inr (map cloneEvent (events_of s pid))))"

definition mem_Account :: "string \<Rightarrow> (mem_store, account) store_method" where
  "mem_Account aid s =
     (case accounts s aid of None \<Rightarrow> (s, Inl ErrNotFound) | Some a \<Rightarrow> (s, Inr a))"

definition mem_Ledger :: "(mem_store, ledger_entry list) store_method" where
  "mem_Ledger s = (s, Inr (ledger s))"

definition count_status ::
  "payment \<Rightarrow> (payment_status \<rightharpoonup> nat) \<Rightarrow> (payment_status \<rightharpoonup> nat)" where
  "count_status p counts = counts(pay_status p \<mapsto> map_get counts (pay_status p) 0 + 1)"

definition mem_Snapshot :: "string list \<Rightarrow> (mem_store, store_snapshot) store_method" where
  "mem_Snapshot ks s =
     (s, Inr \<lparr>snap_payments = card (dom (payments s)),
              snap_status_counts = fold count_status (List.map_filter (payments s) ks) Map.empty,
              snap_accounts = card (dom (accounts s)),
              snap_ledger = length (ledger s)\<rparr>)"

subsection \<open>The store as a value of the interface\<close>

definition memory_ops :: "mem_store store_ops" where
  "memory_ops =
     \<lparr>op_CreatePayment = mem_CreatePayment, op_StartPayment = mem_StartPayment,
      op_Freeze = mem_Freeze, op_FailAndRelease = mem_FailAndRelease,
      op_ProcessCallback = mem_ProcessCallback, op_ClosePayment = mem_ClosePayment,
      op_RecordEvent = mem_RecordEvent, op_GetPayment = mem_GetPayment,
      op_ListPayments = mem_ListPayments, op_Events = mem_Events, op_Account = mem_Account,
      op_Ledger = mem_Ledger, op_Snapshot = mem_Snapshot, op_Reset = mem_Reset\<rparr>"

lemmas mem_write_defs [op_defs] =
  mem_CreatePayment_def mem_StartPayment_def mem_Freeze_def mem_FailAndRelease_def
  mem_ProcessCallback_def applyCallback_def mem_ClosePayment_def mem_RecordEvent_def
  appendIgnoredCallbackLocked_def

lemmas mem_read_defs =
  mem_GetPayment_def mem_ListPayments_def mem_Events_def mem_Account_def mem_Ledger_def
  mem_Snapshot_def

lemma memory_ops_simps [simp]:
  "op_CreatePayment memory_ops = mem_CreatePayment"
  "op_StartPayment memory_ops = mem_StartPayment"
  "op_Freeze memory_ops = mem_Freeze"
  "op_FailAndRelease memory_ops = mem_FailAndRelease"
  "op_ProcessCallback memory_ops = mem_ProcessCallback"
  "op_ClosePayment memory_ops = mem_ClosePayment"
  "op_RecordEvent memory_ops = mem_RecordEvent"
  "op_GetPayment memory_ops = mem_GetPayment"
  "op_ListPayments memory_ops = mem_ListPayments"
  "op_Events memory_ops = mem_Events"
  "op_Account memory_ops = mem_Account"
  "op_Ledger memory_ops = mem_Ledger"
  "op_Snapshot memory_ops = mem_Snapshot"
  "op_Reset memory_ops = mem_Reset"
  by (simp_all add: memory_ops_def)

subsection \<open>What the helpers leave alone\<close>

lemma appendEventLocked_frame [simp]:
  "payments (appendEventLocked t pid e s) = payments s"
  "idempotency (appendEventLocked t pid e s) = idempotency s"
  "callbacksSeen (appendEventLocked t pid e s) = callbacksSeen s"
  "accounts (appendEventLocked t pid e s) = accounts s"
  "reservations (appendEventLocked t pid e s) = reservations s"
  "ledger (appendEventLocked t pid e s) = ledger s"
  "ledgerSequence (appendEventLocked t pid e s) = ledgerSequence s"
  by (simp_all add: appendEventLocked_def Let_def)

lemma appendIgnored_frame [simp]:
  "payments (appendIgnoredCallbackLocked t pid ty cb m s) = payments s"
  "idempotency (appendIgnoredCallbackLocked t pid ty cb m s) = idempotency s"
  "callbacksSeen (appendIgnoredCallbackLocked t pid ty cb m s) = callbacksSeen s"
  "accounts (appendIgnoredCallbackLocked t pid ty cb m s) = accounts s"
  "reservations (appendIgnoredCallbackLocked t pid ty cb m s) = reservations s"
  "ledger (appendIgnoredCallbackLocked t pid ty cb m s) = ledger s"
  "ledgerSequence (appendIgnoredCallbackLocked t pid ty cb m s) = ledgerSequence s"
  by (simp_all add: appendIgnoredCallbackLocked_def)

lemma releaseLocked_frame [simp]:
  "payments (releaseLocked t u pid st s) = payments s"
  "idempotency (releaseLocked t u pid st s) = idempotency s"
  "callbacksSeen (releaseLocked t u pid st s) = callbacksSeen s"
  "ledger (releaseLocked t u pid st s) = ledger s"
  "ledgerSequence (releaseLocked t u pid st s) = ledgerSequence s"
  by (simp_all add: releaseLocked_def Let_def split: option.split)

end
