(* ===== verification/Store_Money.thy ===== *)
theory Store_Money
  imports Memory_Store
begin

section \<open>Money in the in-memory store\<close>

text \<open>
  The accounting invariant of \<open>MemoryStore\<close>: on every account the frozen balance is the sum of
  its FROZEN reservations, and available plus frozen plus the amounts of its CONFIRMED
  reservations is the balance the account started with. Every balance therefore stays between 0
  and that balance, and no update of a balance wraps around at 64 bits.
\<close>

subsection \<open>The invariant\<close>

definition held :: "string \<Rightarrow> reservation \<Rightarrow> int" where
  "held k r = (if res_account r = k \<and> res_state r = FROZEN then sint (res_amount r) else 0)"

definition spent :: "string \<Rightarrow> reservation \<Rightarrow> int" where
  "spent k r = (if res_account r = k \<and> res_state r = CONFIRMED then sint (res_amount r) else 0)"

definition account_ok :: "(string \<rightharpoonup> reservation) \<Rightarrow> string \<Rightarrow> account \<Rightarrow> bool" where
  "account_ok rs k a \<longleftrightarrow>
     acc_id a = k \<and> 0 \<le> sint (acc_available a) \<and> 0 \<le> sint (acc_frozen a) \<and>
     sint (acc_frozen a) = map_sum (held k) rs \<and>
     sint (acc_available a) + sint (acc_frozen a) + map_sum (spent k) rs = sint demoBalanceCents"

definition money_inv :: "mem_store \<Rightarrow> bool" where
  "money_inv s \<longleftrightarrow>
     finite (dom (reservations s)) \<and>
     (\<forall>k a. accounts s k = Some a \<longrightarrow> account_ok (reservations s) k a) \<and>
     (\<forall>k r. reservations s k = Some r \<longrightarrow>
        0 < sint (res_amount r) \<and> accounts s (res_account r) \<noteq> None)"

lemma sint_demoBalance [simp]: "sint demoBalanceCents = 1000000"
  by (simp add: demoBalanceCents_def)

lemma money_invI:
  "finite (dom (reservations s)) \<Longrightarrow>
   (\<And>k a. accounts s k = Some a \<Longrightarrow> account_ok (reservations s) k a) \<Longrightarrow>
   (\<And>k r. reservations s k = Some r \<Longrightarrow> 0 < sint (res_amount r)) \<Longrightarrow>
   (\<And>k r. reservations s k = Some r \<Longrightarrow> accounts s (res_account r) \<noteq> None) \<Longrightarrow>
   money_inv s"
  by (auto simp: money_inv_def)

lemma money_invD:
  assumes "money_inv s"
  shows money_finite: "finite (dom (reservations s))"
    and money_account: "accounts s k = Some a \<Longrightarrow> account_ok (reservations s) k a"
    and money_amount: "reservations s j = Some r \<Longrightarrow> 0 < sint (res_amount r)"
    and money_owner: "reservations s j = Some r \<Longrightarrow> \<exists>a. accounts s (res_account r) = Some a"
  using assms by (auto simp: money_inv_def)

lemma held_nonneg: "money_inv s \<Longrightarrow> reservations s j = Some r \<Longrightarrow> 0 \<le> held k r"
  by (auto simp: held_def dest: money_amount)

lemma spent_nonneg: "money_inv s \<Longrightarrow> reservations s j = Some r \<Longrightarrow> 0 \<le> spent k r"
  by (auto simp: spent_def dest: money_amount)

lemma money_inv_reset: "money_inv (resetLocked t)"
  by (rule money_invI) (auto simp: resetLocked_def account_ok_def split: if_splits)

text \<open>The invariant reads only the accounts and the reservations.\<close>

lemma money_inv_cong:
  "accounts s = accounts t \<Longrightarrow> reservations s = reservations t \<Longrightarrow> money_inv s \<longleftrightarrow> money_inv t"
  by (simp add: money_inv_def)

lemma money_inv_event [simp]: "money_inv (appendEventLocked t pid e s) \<longleftrightarrow> money_inv s"
  by (rule money_inv_cong) simp_all

lemma money_inv_ignored [simp]:
  "money_inv (appendIgnoredCallbackLocked t pid ty cb m s) \<longleftrightarrow> money_inv s"
  by (rule money_inv_cong) simp_all

lemma money_inv_fields [simp]:
  "money_inv (s\<lparr>payments := ps\<rparr>) \<longleftrightarrow> money_inv s"
  "money_inv (s\<lparr>idempotency := im\<rparr>) \<longleftrightarrow> money_inv s"
  "money_inv (s\<lparr>payments := ps, idempotency := im\<rparr>) \<longleftrightarrow> money_inv s"
  "money_inv (s\<lparr>callbacksSeen := cs\<rparr>) \<longleftrightarrow> money_inv s"
  by (simp_all add: money_inv_def)

subsection \<open>One balanced booking\<close>

text \<open>
  Every write to a balance has this shape: one account and one of its reservations change
  together. \<open>da\<close> and \<open>df\<close> are what the account's available and frozen balances gain.
\<close>

lemma money_inv_booking:
  assumes inv: "money_inv s"
    and acct: "accounts s k = Some a"
    and a': "acc_id a' = k" "sint (acc_available a') = sint (acc_available a) + da"
      "sint (acc_frozen a') = sint (acc_frozen a) + df"
      "0 \<le> sint (acc_available a) + da" "0 \<le> sint (acc_frozen a) + df"
    and r: "res_account r = k" "0 < sint (res_amount r)"
    and old: "\<And>r0. reservations s pid = Some r0 \<Longrightarrow> res_account r0 = k"
    and held: "held k r = (case reservations s pid of None \<Rightarrow> 0 | Some r0 \<Rightarrow> held k r0) + df"
    and spent: "spent k r = (case reservations s pid of None \<Rightarrow> 0 | Some r0 \<Rightarrow> spent k r0) - da - df"
    and s': "accounts s' = (accounts s)(k \<mapsto> a')" "reservations s' = (reservations s)(pid \<mapsto> r)"
  shows "money_inv s'"
proof (rule money_invI)
  note fin = money_finite [OF inv]
  show "finite (dom (reservations s'))" using fin s' by simp
  fix j b
  assume b: "accounts s' j = Some b"
  show "account_ok (reservations s') j b"
  proof (cases "j = k")
    case True
    with b s' have "b = a'" by simp
    with True show ?thesis
      using money_account [OF inv acct] a' held spent s' fin
      by (simp add: account_ok_def map_sum_upd)
  next
    case False
    with b s' have "accounts s j = Some b" by simp
    moreover have "held j r = 0" "spent j r = 0"
      using r False by (simp_all add: held_def spent_def)
    moreover have "(case reservations s pid of None \<Rightarrow> 0 | Some r0 \<Rightarrow> held j r0) = 0"
      "(case reservations s pid of None \<Rightarrow> 0 | Some r0 \<Rightarrow> spent j r0) = 0"
      using old False by (auto simp: held_def spent_def split: option.split)
    ultimately show ?thesis
      using money_account [OF inv, of j b] s' fin by (simp add: account_ok_def map_sum_upd)
  qed
next
  fix j r1
  assume r1: "reservations s' j = Some r1"
  show "0 < sint (res_amount r1)"
    using r1 s' r money_amount [OF inv] by (auto split: if_splits)
  show "accounts s' (res_account r1) \<noteq> None"
    using r1 s' r money_owner [OF inv] by (auto split: if_splits)
qed

text \<open>A frozen reservation is covered by its account's frozen balance.\<close>

lemma frozen_covered:
  assumes inv: "money_inv s" and r: "reservations s pid = Some r" "res_state r = FROZEN"
    and a: "accounts s (res_account r) = Some a"
  shows "sint (res_amount r) \<le> sint (acc_frozen a)"
proof -
  have "held (res_account r) r \<le> map_sum (held (res_account r)) (reservations s)"
    using money_finite [OF inv] r(1) held_nonneg [OF inv] by (rule map_sum_member_le)
  with money_account [OF inv a] r show ?thesis
    by (simp add: account_ok_def held_def)
qed

lemma account_bounds:
  assumes inv: "money_inv s" and a: "accounts s k = Some a"
  shows "0 \<le> sint (acc_available a)" and "0 \<le> sint (acc_frozen a)"
    and "sint (acc_available a) + sint (acc_frozen a) \<le> 1000000"
proof -
  have "0 \<le> map_sum (spent k) (reservations s)"
    using spent_nonneg [OF inv] by (rule map_sum_nonneg)
  with money_account [OF inv a]
  show "0 \<le> sint (acc_available a)" and "0 \<le> sint (acc_frozen a)"
    and "sint (acc_available a) + sint (acc_frozen a) \<le> 1000000"
    by (simp_all add: account_ok_def)
qed

subsection \<open>The three bookings of the code\<close>

lemma money_inv_freeze:
  assumes inv: "money_inv s" and a: "accounts s k = Some a" and free: "reservations s pid = None"
    and amt: "0 < sint amount" "sint amount \<le> sint (acc_available a)"
    and s': "accounts s' = (accounts s)(k \<mapsto> a\<lparr>acc_available := acc_available a - amount,
               acc_frozen := acc_frozen a + amount, acc_updated := t\<rparr>)"
      "reservations s' = (reservations s)(pid \<mapsto>
        \<lparr>res_payment = pid, res_account = k, res_amount = amount, res_state = FROZEN\<rparr>)"
  shows "money_inv s'"
proof -
  note b = account_bounds [OF inv a]
  have sub: "sint (acc_available a - amount) = sint (acc_available a) - sint amount"
    using b amt by (intro sint64_sub) simp_all
  have add: "sint (acc_frozen a + amount) = sint (acc_frozen a) + sint amount"
    using b amt by (intro sint64_add) simp_all
  show ?thesis
    using money_account [OF inv a] b amt sub add free s'
    by (intro money_inv_booking [OF inv a, where da = "- sint amount" and df = "sint amount" and pid = pid])
      (simp_all add: account_ok_def held_def spent_def)
qed

lemma money_inv_release:
  assumes inv: "money_inv s" and r: "reservations s pid = Some r" "res_state r = FROZEN"
    and a: "accounts s (res_account r) = Some a"
    and s': "accounts s' = (accounts s)(res_account r \<mapsto> a\<lparr>acc_available := acc_available a + res_amount r,
               acc_frozen := acc_frozen a - res_amount r, acc_updated := t\<rparr>)"
      "reservations s' = (reservations s)(pid \<mapsto> r\<lparr>res_state := CANCELLED\<rparr>)"
  shows "money_inv s'"
proof -
  note b = account_bounds [OF inv a] and cov = frozen_covered [OF inv r a]
    and amt = money_amount [OF inv r(1)]
  have add: "sint (acc_available a + res_amount r) = sint (acc_available a) + sint (res_amount r)"
    using b amt cov by (intro sint64_add) simp_all
  have sub: "sint (acc_frozen a - res_amount r) = sint (acc_frozen a) - sint (res_amount r)"
    using b amt cov by (intro sint64_sub) simp_all
  show ?thesis
    using money_account [OF inv a] b amt cov sub add r s'
    by (intro money_inv_booking [OF inv a, where da = "sint (res_amount r)"
          and df = "- sint (res_amount r)" and pid = pid])
      (simp_all add: account_ok_def held_def spent_def)
qed

lemma money_inv_confirm:
  assumes inv: "money_inv s" and r: "reservations s pid = Some r" "res_state r = FROZEN"
    and a: "accounts s (res_account r) = Some a"
    and s': "accounts s' = (accounts s)(res_account r \<mapsto>
               a\<lparr>acc_frozen := acc_frozen a - res_amount r, acc_updated := t\<rparr>)"
      "reservations s' = (reservations s)(pid \<mapsto> r\<lparr>res_state := CONFIRMED\<rparr>)"
  shows "money_inv s'"
proof -
  note b = account_bounds [OF inv a] and cov = frozen_covered [OF inv r a]
    and amt = money_amount [OF inv r(1)]
  have sub: "sint (acc_frozen a - res_amount r) = sint (acc_frozen a) - sint (res_amount r)"
    using b amt cov by (intro sint64_sub) simp_all
  show ?thesis
    using money_account [OF inv a] b amt cov sub r s'
    by (intro money_inv_booking [OF inv a, where da = 0
          and df = "- sint (res_amount r)" and pid = pid])
      (simp_all add: account_ok_def held_def spent_def)
qed

lemma money_owner_id:
  "money_inv s \<Longrightarrow> accounts s k = Some a \<Longrightarrow> acc_id a = k"
  by (drule (1) money_account) (simp add: account_ok_def)

lemma money_inv_releaseLocked:
  assumes inv: "money_inv s"
  shows "money_inv (releaseLocked t u pid CANCELLED s)"
proof (cases "\<exists>r. reservations s pid = Some r \<and> res_state r = FROZEN")
  case True
  then obtain r where r: "reservations s pid = Some r" "res_state r = FROZEN" by blast
  obtain a where a: "accounts s (res_account r) = Some a"
    using money_owner [OF inv r(1)] by blast
  show ?thesis
    using r a money_owner_id [OF inv a]
    by (intro money_inv_release [OF inv r a, where t = t]) (simp_all add: releaseLocked_def Let_def)
next
  case False
  with inv show ?thesis by (auto simp: releaseLocked_def split: option.split)
qed

end
