(* ===== verification/Store_Invariant.thy ===== *)
theory Store_Invariant
  imports Store_Money "HOL-Library.Sublist"
begin

section \<open>The invariant of the in-memory store\<close>

text \<open>
  Beside the money: a payment's status agrees with its reservation, the ledger holds exactly one
  entry per successful payment, the event log of a payment is numbered from 1 and replays to its
  status, and idempotency keys and payments are in one-to-one correspondence. \<open>store_inv\<close> is the
  conjunction; every method keeps it.
\<close>

subsection \<open>Status and reservation agree\<close>

fun agree :: "payment_status \<Rightarrow> reservation_state option \<Rightarrow> bool" where
  "agree StatusNone r = False"
| "agree StatusInit r = (r = None)"
| "agree StatusProcessing r = (r = None \<or> r = Some FROZEN)"
| "agree StatusSuccess r = (r = Some CONFIRMED)"
| "agree StatusFailed r = (r = None \<or> r = Some CANCELLED)"
| "agree StatusClosed r = (r = None \<or> r = Some CANCELLED)"

abbreviation res_state_of :: "mem_store \<Rightarrow> string \<Rightarrow> reservation_state option" where
  "res_state_of s pid \<equiv> map_option res_state (reservations s pid)"

definition payment_ok :: "string \<Rightarrow> payment \<Rightarrow> bool" where
  "payment_ok k p \<longleftrightarrow> pay_id p = k \<and> 0 < sint (pay_amount p) \<and> 0 \<le> sint (pay_callback_seq p)"

definition reservation_for :: "payment \<Rightarrow> reservation \<Rightarrow> bool" where
  "reservation_for p r \<longleftrightarrow>
     res_payment r = pay_id p \<and> res_amount r = pay_amount p \<and> res_account r = pay_account p"

definition state_inv :: "mem_store \<Rightarrow> bool" where
  "state_inv s \<longleftrightarrow>
     (\<forall>k p. payments s k = Some p \<longrightarrow> payment_ok k p \<and> agree (pay_status p) (res_state_of s k)) \<and>
     (\<forall>k r. reservations s k = Some r \<longrightarrow> (\<exists>p. payments s k = Some p \<and> reservation_for p r))"

lemma state_invD:
  assumes "state_inv s"
  shows state_payment: "payments s k = Some p \<Longrightarrow> payment_ok k p"
    and state_agree: "payments s k = Some p \<Longrightarrow> agree (pay_status p) (res_state_of s k)"
    and state_reservation: "reservations s k = Some r \<Longrightarrow> \<exists>p. payments s k = Some p \<and> reservation_for p r"
  using assms unfolding state_inv_def by blast+

lemma state_inv_cong:
  "payments s = payments t \<Longrightarrow> reservations s = reservations t \<Longrightarrow> state_inv s \<longleftrightarrow> state_inv t"
  by (simp add: state_inv_def)

lemma state_inv_event [simp]: "state_inv (appendEventLocked t pid e s) \<longleftrightarrow> state_inv s"
  by (rule state_inv_cong) simp_all

lemma state_inv_ignored [simp]:
  "state_inv (appendIgnoredCallbackLocked t pid ty cb m s) \<longleftrightarrow> state_inv s"
  by (rule state_inv_cong) simp_all

lemma state_inv_seen [simp]: "state_inv (s\<lparr>callbacksSeen := cs\<rparr>) \<longleftrightarrow> state_inv s"
  by (rule state_inv_cong) simp_all

text \<open>A write to one payment and its reservation.\<close>

lemma state_inv_update:
  assumes inv: "state_inv s" and p: "payment_ok pid p"
    and ag: "agree (pay_status p) (map_option res_state ro)"
    and ro: "\<And>r. ro = Some r \<Longrightarrow> reservation_for p r"
    and s': "payments s' = (payments s)(pid \<mapsto> p)" "reservations s' = (reservations s)(pid := ro)"
  shows "state_inv s'"
  unfolding state_inv_def using p ag ro s' state_invD [OF inv] by auto

lemma state_reservation_for:
  "state_inv s \<Longrightarrow> payments s k = Some p \<Longrightarrow> reservations s k = Some r \<Longrightarrow> reservation_for p r"
  by (drule (1) state_reservation) auto

subsection \<open>The ledger\<close>

definition ledger_id :: "nat \<Rightarrow> string" where
  "ledger_id n = ''ledger_'' @ show_int06 (sint (of_nat n :: int64))"

definition entry_for :: "payment \<Rightarrow> ledger_entry \<Rightarrow> bool" where
  "entry_for p e \<longleftrightarrow>
     le_payment e = pay_id p \<and> le_account e = pay_account p \<and> le_amount e = pay_amount p \<and>
     le_direction e = ''DEBIT'' \<and> pay_status p = StatusSuccess"

definition ledger_inv :: "mem_store \<Rightarrow> bool" where
  "ledger_inv s \<longleftrightarrow>
     ledgerSequence s = of_nat (length (ledger s)) \<and>
     (\<forall>i<length (ledger s). le_id (ledger s ! i) = ledger_id (Suc i)) \<and>
     distinct (map le_payment (ledger s)) \<and>
     (\<forall>e\<in>set (ledger s). \<exists>p. payments s (le_payment e) = Some p \<and> entry_for p e) \<and>
     (\<forall>k p. payments s k = Some p \<longrightarrow> pay_status p = StatusSuccess \<longrightarrow>
        k \<in> le_payment ` set (ledger s))"

lemma ledger_inv_cong:
  "payments s = payments t \<Longrightarrow> ledger s = ledger t \<Longrightarrow> ledgerSequence s = ledgerSequence t \<Longrightarrow>
   ledger_inv s \<longleftrightarrow> ledger_inv t"
  by (simp add: ledger_inv_def)

lemma ledger_inv_event [simp]: "ledger_inv (appendEventLocked t pid e s) \<longleftrightarrow> ledger_inv s"
  by (rule ledger_inv_cong) simp_all

lemma ledger_inv_ignored [simp]:
  "ledger_inv (appendIgnoredCallbackLocked t pid ty cb m s) \<longleftrightarrow> ledger_inv s"
  by (rule ledger_inv_cong) simp_all

lemma ledger_inv_seen [simp]: "ledger_inv (s\<lparr>callbacksSeen := cs\<rparr>) \<longleftrightarrow> ledger_inv s"
  by (rule ledger_inv_cong) simp_all

lemma ledger_inv_release [simp]: "ledger_inv (releaseLocked t u pid st s) \<longleftrightarrow> ledger_inv s"
  by (rule ledger_inv_cong) simp_all

text \<open>A payment that was not successful gets a status other than SUCCESS.\<close>

lemma ledger_inv_update:
  assumes inv: "ledger_inv s" and old: "\<And>p. payments s pid = Some p \<Longrightarrow> pay_status p \<noteq> StatusSuccess"
    and new: "pay_status p' \<noteq> StatusSuccess"
    and s': "payments s' = (payments s)(pid \<mapsto> p')" "ledger s' = ledger s"
      "ledgerSequence s' = ledgerSequence s"
  shows "ledger_inv s'"
proof -
  have "le_payment e \<noteq> pid" if "e \<in> set (ledger s)" for e
    using inv old that unfolding ledger_inv_def entry_for_def by blast
  with inv new s' show ?thesis unfolding ledger_inv_def by auto
qed

lemma ledger_inv_post:
  assumes inv: "ledger_inv s" and p: "payments s pid = Some p" "pay_status p \<noteq> StatusSuccess"
    and p': "entry_for p' e" "pay_id p' = pid"
    and id: "le_id e = ''ledger_'' @ show_int06 (sint (ledgerSequence s + 1))"
    and s': "payments s' = (payments s)(pid \<mapsto> p')" "ledger s' = ledger s @ [e]"
      "ledgerSequence s' = ledgerSequence s + 1"
  shows "ledger_inv s'"
proof -
  have fresh: "le_payment x \<noteq> pid" if "x \<in> set (ledger s)" for x
    using inv p that unfolding ledger_inv_def entry_for_def by auto
  have seq: "ledgerSequence s + 1 = of_nat (Suc (length (ledger s)))"
    using inv by (simp add: ledger_inv_def)
  then have "le_id e = ledger_id (Suc (length (ledger s)))"
    unfolding id ledger_id_def by (simp only:)
  with inv have "\<forall>i<length (ledger s'). le_id (ledger s' ! i) = ledger_id (Suc i)"
    unfolding s' ledger_inv_def by (auto simp: nth_append less_Suc_eq)
  moreover have "ledgerSequence s' = of_nat (length (ledger s'))"
    using seq s' by simp
  moreover have "distinct (map le_payment (ledger s'))"
    using inv fresh p' s' unfolding ledger_inv_def entry_for_def by auto
  moreover have "\<exists>q. payments s' (le_payment x) = Some q \<and> entry_for q x" if "x \<in> set (ledger s')" for x
    using inv fresh p' s' that unfolding ledger_inv_def entry_for_def by auto
  moreover have "k \<in> le_payment ` set (ledger s')"
    if "payments s' k = Some q" "pay_status q = StatusSuccess" for k q
    using inv p' s' that unfolding ledger_inv_def entry_for_def by (auto split: if_splits)
  ultimately show ?thesis unfolding ledger_inv_def by blast
qed

subsection \<open>The event log\<close>

text \<open>Replaying the status changes of a log from a status; \<open>None\<close> when they do not connect.\<close>

fun trail :: "payment_status \<Rightarrow> payment_event list \<Rightarrow> payment_status option" where
  "trail st [] = Some st"
| "trail st (e # es) =
     (if ev_to e = StatusNone then trail st es
      else if ev_from e = st then trail (ev_to e) es else None)"

lemma trail_append: "trail st (xs @ ys) = Option.bind (trail st xs) (\<lambda>st'. trail st' ys)"
  by (induction st xs rule: trail.induct) auto

definition log_ok :: "payment_status option \<Rightarrow> int64 \<Rightarrow> payment_event list \<Rightarrow> bool" where
  "log_ok st n es \<longleftrightarrow>
     n = of_nat (length es) \<and> (\<forall>i<length es. ev_seq (es ! i) = of_nat (Suc i)) \<and>
     trail StatusNone es = Some (case st of None \<Rightarrow> StatusNone | Some x \<Rightarrow> x) \<and>
     (st = None \<longleftrightarrow> es = [])"

abbreviation status_of :: "mem_store \<Rightarrow> string \<Rightarrow> payment_status option" where
  "status_of s pid \<equiv> map_option pay_status (payments s pid)"

definition event_inv :: "mem_store \<Rightarrow> bool" where
  "event_inv s \<longleftrightarrow> (\<forall>k. log_ok (status_of s k) (event_seq_of s k) (events_of s k))"

text \<open>How one event moves the status that the log replays to.\<close>

definition event_step :: "payment_status option \<Rightarrow> payment_event \<Rightarrow> payment_status option \<Rightarrow> bool" where
  "event_step st e st' \<longleftrightarrow>
     (if ev_to e = StatusNone then st' = st \<and> st \<noteq> None
      else ev_from e = (case st of None \<Rightarrow> StatusNone | Some x \<Rightarrow> x) \<and> st' = Some (ev_to e))"

lemma log_ok_snoc:
  assumes "log_ok st n es" and "event_step st e st'"
    and "ev_seq e' = n + 1" "ev_to e' = ev_to e" "ev_from e' = ev_from e"
  shows "log_ok st' (n + 1) (es @ [e'])"
  using assms
  by (auto simp: log_ok_def event_step_def nth_append less_Suc_eq trail_append split: if_splits)

lemma event_inv_append:
  assumes inv: "event_inv s0"
    and same: "events s = events s0" "eventSequences s = eventSequences s0"
    and other: "\<And>k. k \<noteq> pid \<Longrightarrow> status_of s k = status_of s0 k"
    and step: "event_step (status_of s0 pid) e (status_of s pid)"
  shows "event_inv (appendEventLocked t pid e s)"
  unfolding event_inv_def
proof
  fix k
  have log: "log_ok (status_of s0 k) (event_seq_of s0 k) (events_of s0 k)"
    using inv by (simp add: event_inv_def)
  show "log_ok (status_of (appendEventLocked t pid e s) k)
      (event_seq_of (appendEventLocked t pid e s) k) (events_of (appendEventLocked t pid e s) k)"
  proof (cases "k = pid")
    case True
    with log have "log_ok (status_of s0 pid) (event_seq_of s0 pid) (events_of s0 pid)" by simp
    from log_ok_snoc [OF this step] True same show ?thesis
      by (simp add: appendEventLocked_def Let_def)
  next
    case False
    with log same other show ?thesis
      by (simp add: appendEventLocked_def Let_def)
  qed
qed

lemma event_inv_cong:
  "payments s = payments t \<Longrightarrow> events s = events t \<Longrightarrow> eventSequences s = eventSequences t \<Longrightarrow>
   event_inv s \<longleftrightarrow> event_inv t"
  by (simp add: event_inv_def)

lemma event_inv_seen [simp]: "event_inv (s\<lparr>callbacksSeen := cs\<rparr>) \<longleftrightarrow> event_inv s"
  by (rule event_inv_cong) simp_all

text \<open>An event without a status change, on a payment that exists.\<close>

lemma event_inv_note:
  "event_inv s0 \<Longrightarrow> events s = events s0 \<Longrightarrow> eventSequences s = eventSequences s0 \<Longrightarrow>
   payments s = payments s0 \<Longrightarrow> payments s pid \<noteq> None \<Longrightarrow>
   event_inv (appendEventLocked t pid (new_event ty StatusNone StatusNone m md) s)"
  by (rule event_inv_append) (auto simp: event_step_def new_event_def)

lemma event_inv_ignored:
  "event_inv s \<Longrightarrow> payments s pid \<noteq> None \<Longrightarrow>
   event_inv (appendIgnoredCallbackLocked t pid ty cb m s)"
  unfolding appendIgnoredCallbackLocked_def by (rule event_inv_note) auto

lemma event_inv_release:
  "event_inv s \<Longrightarrow> payments s pid \<noteq> None \<Longrightarrow> event_inv (releaseLocked t u pid st s)"
  by (auto simp: releaseLocked_def Let_def intro: event_inv_note split: option.split)

text \<open>A status change together with the event that records it.\<close>

lemma event_inv_change:
  assumes "event_inv s" and "payments s pid = Some p" and "pay_status p' \<noteq> StatusNone"
  shows "event_inv (appendEventLocked t pid
           (new_event ty (pay_status p) (pay_status p') m md) (s\<lparr>payments := (payments s)(pid \<mapsto> p')\<rparr>))"
  using assms by (intro event_inv_append [of s]) (auto simp: event_step_def new_event_def)

subsection \<open>Idempotency keys\<close>

definition idem_inv :: "mem_store \<Rightarrow> bool" where
  "idem_inv s \<longleftrightarrow>
     (\<forall>key r. idempotency s key = Some r \<longrightarrow> payments s (idem_payment r) \<noteq> None) \<and>
     (\<forall>k1 k2 r1 r2. idempotency s k1 = Some r1 \<longrightarrow> idempotency s k2 = Some r2 \<longrightarrow>
        idem_payment r1 = idem_payment r2 \<longrightarrow> k1 = k2) \<and>
     (\<forall>pid. payments s pid \<noteq> None \<longrightarrow>
        (\<exists>key r. idempotency s key = Some r \<and> idem_payment r = pid)) \<and>
     finite (dom (payments s))"

lemma idem_inv_cong:
  assumes "idempotency s = idempotency t" and "dom (payments s) = dom (payments t)"
  shows "idem_inv s \<longleftrightarrow> idem_inv t"
proof -
  have "payments s k = None \<longleftrightarrow> payments t k = None" for k
    using assms(2) by blast
  with assms show ?thesis by (simp add: idem_inv_def)
qed

lemma idem_inv_event [simp]: "idem_inv (appendEventLocked t pid e s) \<longleftrightarrow> idem_inv s"
  by (rule idem_inv_cong) simp_all

lemma idem_inv_ignored [simp]:
  "idem_inv (appendIgnoredCallbackLocked t pid ty cb m s) \<longleftrightarrow> idem_inv s"
  by (rule idem_inv_cong) simp_all

lemma idem_inv_seen [simp]: "idem_inv (s\<lparr>callbacksSeen := cs\<rparr>) \<longleftrightarrow> idem_inv s"
  by (rule idem_inv_cong) simp_all

lemma idem_inv_release [simp]: "idem_inv (releaseLocked t u pid st s) \<longleftrightarrow> idem_inv s"
  by (rule idem_inv_cong) simp_all

lemma idem_inv_update:
  "idem_inv s \<Longrightarrow> payments s pid \<noteq> None \<Longrightarrow> idempotency s' = idempotency s \<Longrightarrow>
   payments s' = (payments s)(pid \<mapsto> p') \<Longrightarrow> idem_inv s'"
  by (subst idem_inv_cong [of s' s]) auto

lemma idem_inv_insert:
  assumes inv: "idem_inv s" and fresh: "payments s pid = None" and key: "idempotency s key = None"
    and r: "idem_payment r = pid"
    and s': "payments s' = (payments s)(pid \<mapsto> p)" "idempotency s' = (idempotency s)(key \<mapsto> r)"
  shows "idem_inv s'"
proof -
  have old: "idem_payment r1 \<noteq> pid" "payments s (idem_payment r1) \<noteq> None"
    if "idempotency s k = Some r1" for k r1
    using inv fresh that unfolding idem_inv_def by metis+
  have "payments s' (idem_payment r1) \<noteq> None" if "idempotency s' k = Some r1" for k r1
    using old that r s' by (auto split: if_splits)
  moreover have "k1 = k2" if "idempotency s' k1 = Some r1" "idempotency s' k2 = Some r2"
    "idem_payment r1 = idem_payment r2" for k1 k2 r1 r2
  proof (cases "k1 = key"; cases "k2 = key")
    assume "k1 \<noteq> key" "k2 \<noteq> key"
    with that s' inv show ?thesis unfolding idem_inv_def by (metis fun_upd_other)
  qed (use that s' r old in \<open>auto split: if_splits\<close>)
  moreover have "\<exists>k r1. idempotency s' k = Some r1 \<and> idem_payment r1 = j"
    if "payments s' j \<noteq> None" for j
  proof (cases "j = pid")
    case True
    with r s' show ?thesis by auto
  next
    case False
    with that s' have "payments s j \<noteq> None" by simp
    with inv obtain k r1 where "idempotency s k = Some r1" "idem_payment r1 = j"
      unfolding idem_inv_def by blast
    with key s' show ?thesis by (intro exI [of _ k] exI [of _ r1]) auto
  qed
  moreover have "finite (dom (payments s'))"
    using inv s' by (simp add: idem_inv_def)
  ultimately show ?thesis unfolding idem_inv_def by blast
qed

subsection \<open>The whole invariant\<close>

definition store_inv :: "mem_store \<Rightarrow> bool" where
  "store_inv s \<longleftrightarrow> money_inv s \<and> state_inv s \<and> ledger_inv s \<and> event_inv s \<and> idem_inv s"

lemma store_invI:
  "money_inv s \<Longrightarrow> state_inv s \<Longrightarrow> ledger_inv s \<Longrightarrow> event_inv s \<Longrightarrow> idem_inv s \<Longrightarrow> store_inv s"
  by (simp add: store_inv_def)

lemma store_invD:
  assumes "store_inv s"
  shows store_money: "money_inv s" and store_state: "state_inv s" and store_ledger: "ledger_inv s"
    and store_event: "event_inv s" and store_idem: "idem_inv s"
  using assms by (simp_all add: store_inv_def)

lemma store_inv_reset: "store_inv (resetLocked t)"
  by (rule store_invI [OF money_inv_reset])
    (simp_all add: resetLocked_def state_inv_def ledger_inv_def event_inv_def idem_inv_def log_ok_def)

end
