(* ===== verification/Store_Preserve.thy ===== *)
theory Store_Preserve
  imports Store_Invariant
begin

section \<open>Every method keeps the invariant\<close>

text \<open>
  One lemma per method of \<open>MemoryStore\<close>. The writes to a payment have three shapes: a status
  change with its event, a release of the reservation together with the change to FAILED or
  CLOSED, and the confirmation together with the ledger entry and the change to SUCCESS.
\<close>

definition same_request :: "payment \<Rightarrow> payment \<Rightarrow> bool" where
  "same_request p q \<longleftrightarrow>
     pay_id q = pay_id p \<and> pay_gid q = pay_gid p \<and> pay_mode q = pay_mode p \<and>
     pay_order q = pay_order p \<and> pay_account q = pay_account p \<and> pay_amount q = pay_amount p \<and>
     pay_currency q = pay_currency p \<and> pay_created q = pay_created p"

lemma same_request_refl [simp]: "same_request p p"
  by (simp add: same_request_def)

lemma same_request_trans: "same_request p q \<Longrightarrow> same_request q r \<Longrightarrow> same_request p r"
  by (simp add: same_request_def)

lemma payment_ok_same:
  "payment_ok k p \<Longrightarrow> same_request p q \<Longrightarrow> 0 \<le> sint (pay_callback_seq q) \<Longrightarrow> payment_ok k q"
  by (simp add: payment_ok_def same_request_def)

lemma reservation_for_same: "same_request p q \<Longrightarrow> reservation_for q r \<longleftrightarrow> reservation_for p r"
  by (simp add: reservation_for_def same_request_def)

subsection \<open>Notes in the event log\<close>

lemma store_inv_note:
  "store_inv s \<Longrightarrow> payments s pid \<noteq> None \<Longrightarrow>
   store_inv (appendEventLocked t pid (new_event ty StatusNone StatusNone m md) s)"
  by (auto simp: store_inv_def intro: event_inv_note)

lemma store_inv_seen [simp]: "store_inv (s\<lparr>callbacksSeen := cs\<rparr>) \<longleftrightarrow> store_inv s"
  by (simp add: store_inv_def)

lemma store_inv_ignored:
  "store_inv s \<Longrightarrow> payments s pid \<noteq> None \<Longrightarrow>
   store_inv (appendIgnoredCallbackLocked t pid ty cb m s)"
  unfolding appendIgnoredCallbackLocked_def by (rule store_inv_note)

subsection \<open>Creating and starting\<close>

definition new_payment :: "payment \<Rightarrow> bool" where
  "new_payment p \<longleftrightarrow>
     pay_status p = StatusInit \<and> 0 < sint (pay_amount p) \<and> pay_callback_seq p = 0"

lemma store_inv_create:
  assumes inv: "store_inv s" and new: "new_payment p" and fresh: "payments s (pay_id p) = None"
    and key: "idempotency s key = None"
  shows "store_inv (appendEventLocked t (pay_id p) (new_event ty StatusNone StatusInit m md)
           (s\<lparr>payments := (payments s)(pay_id p \<mapsto> p),
              idempotency := (idempotency s)(key \<mapsto>
                \<lparr>idem_payment = pay_id p, idem_fingerprint = fp\<rparr>)\<rparr>))"
    (is "store_inv (appendEventLocked t _ ?e ?s)")
proof (rule store_invI)
  have none: "reservations s (pay_id p) = None"
    using state_reservation [OF store_state [OF inv], of "pay_id p"] fresh
    by (cases "reservations s (pay_id p)") auto
  have same: "(reservations s)(pay_id p := None) = reservations s"
    using none by (rule fun_upd_idem)
  show "money_inv (appendEventLocked t (pay_id p) ?e ?s)"
    using store_money [OF inv] by simp
  have "state_inv ?s"
    using store_state [OF inv] new none
    by (intro state_inv_update [OF store_state [OF inv], of "pay_id p" p None]) (simp_all add: new_payment_def payment_ok_def same)
  then show "state_inv (appendEventLocked t (pay_id p) ?e ?s)" by simp
  have "ledger_inv ?s"
    using store_ledger [OF inv] new fresh
    by (intro ledger_inv_update [OF store_ledger [OF inv], of "pay_id p" p]) (simp_all add: new_payment_def)
  then show "ledger_inv (appendEventLocked t (pay_id p) ?e ?s)" by simp
  show "event_inv (appendEventLocked t (pay_id p) ?e ?s)"
    using store_event [OF inv] new fresh
    by (intro event_inv_append [of s]) (auto simp: event_step_def new_event_def new_payment_def)
  have "idem_inv ?s"
    using fresh key
    by (intro idem_inv_insert [OF store_idem [OF inv], of "pay_id p" key
          "\<lparr>idem_payment = pay_id p, idem_fingerprint = fp\<rparr>"]) simp_all
  then show "idem_inv (appendEventLocked t (pay_id p) ?e ?s)" by simp
qed

lemma store_inv_change:
  assumes inv: "store_inv s" and p: "payments s pid = Some p"
    and q: "same_request p q" "0 \<le> sint (pay_callback_seq q)"
    and st: "pay_status p \<noteq> StatusSuccess" "pay_status q \<noteq> StatusSuccess"
      "pay_status q \<noteq> StatusNone" "agree (pay_status q) (res_state_of s pid)"
  shows "store_inv (appendEventLocked t pid (new_event ty (pay_status p) (pay_status q) m md)
           (s\<lparr>payments := (payments s)(pid \<mapsto> q)\<rparr>))"
    (is "store_inv (appendEventLocked t pid ?e ?s)")
proof (rule store_invI)
  show "money_inv (appendEventLocked t pid ?e ?s)"
    using store_money [OF inv] by simp
  have "state_inv ?s"
    using store_state [OF inv] p q st
    by (intro state_inv_update [OF store_state [OF inv], of pid q "reservations s pid"])
      (auto dest: state_payment state_reservation_for simp: payment_ok_same reservation_for_same)
  then show "state_inv (appendEventLocked t pid ?e ?s)" by simp
  have "ledger_inv ?s"
    using store_ledger [OF inv] p st by (intro ledger_inv_update [OF store_ledger [OF inv], of pid q]) auto
  then show "ledger_inv (appendEventLocked t pid ?e ?s)" by simp
  show "event_inv (appendEventLocked t pid ?e ?s)"
    using store_event [OF inv] p st by (intro event_inv_change)
  have "idem_inv ?s"
    using store_idem [OF inv] p by (intro idem_inv_update [OF store_idem [OF inv], of pid]) auto
  then show "idem_inv (appendEventLocked t pid ?e ?s)" by simp
qed

subsection \<open>Freezing\<close>

lemma store_inv_freeze:
  assumes inv: "store_inv s" and p: "payments s pid = Some p" "pay_status p = StatusProcessing"
    and free: "reservations s pid = None" and a: "accounts s (pay_account p) = Some a"
    and enough: "\<not> acc_available a <s pay_amount p"
  shows "store_inv (appendEventLocked u pid (new_event ty StatusNone StatusNone m md)
           (s\<lparr>accounts := (accounts s)(pay_account p \<mapsto>
                a\<lparr>acc_available := acc_available a - pay_amount p,
                  acc_frozen := acc_frozen a + pay_amount p, acc_updated := t\<rparr>),
              reservations := (reservations s)(pid \<mapsto>
                \<lparr>res_payment = pid, res_account = pay_account p, res_amount = pay_amount p,
                 res_state = FROZEN\<rparr>)\<rparr>))"
    (is "store_inv (appendEventLocked u pid ?e ?s)")
proof (rule store_invI)
  have ok: "payment_ok pid p" using store_state [OF inv] p(1) by (rule state_payment)
  have "sint (pay_amount p) \<le> sint (acc_available a)"
    using enough by (simp add: word_sless_alt not_less)
  then have "money_inv ?s"
    using ok by (intro money_inv_freeze [OF store_money [OF inv] a free, of "pay_amount p"])
      (simp_all add: payment_ok_def)
  then show "money_inv (appendEventLocked u pid ?e ?s)" by simp
  have "state_inv ?s"
    using store_state [OF inv] p ok
    by (intro state_inv_update [OF store_state [OF inv], of pid p "Some \<lparr>res_payment = pid, res_account = pay_account p,
          res_amount = pay_amount p, res_state = FROZEN\<rparr>"])
      (auto simp: reservation_for_def payment_ok_def)
  then show "state_inv (appendEventLocked u pid ?e ?s)" by simp
  have "ledger_inv ?s"
    using store_ledger [OF inv] by (simp add: ledger_inv_def)
  then show "ledger_inv (appendEventLocked u pid ?e ?s)" by simp
  show "event_inv (appendEventLocked u pid ?e ?s)"
    using store_event [OF inv] p by (intro event_inv_note [of s]) auto
  have "idem_inv ?s"
    using store_idem [OF inv] by (simp add: idem_inv_def)
  then show "idem_inv (appendEventLocked u pid ?e ?s)" by simp
qed

subsection \<open>Releasing and failing or closing\<close>

lemma releaseLocked_reservations:
  "reservations (releaseLocked t u pid CANCELLED s) =
     (case reservations s pid of
        Some r \<Rightarrow> if res_state r = FROZEN then (reservations s)(pid \<mapsto> r\<lparr>res_state := CANCELLED\<rparr>)
                  else reservations s
      | None \<Rightarrow> reservations s)"
  by (simp add: releaseLocked_def Let_def split: option.split)

lemma store_inv_abort:
  assumes inv: "store_inv s" and p: "payments s pid = Some p" "\<not> Terminal (pay_status p)"
    and q: "same_request p q" "0 \<le> sint (pay_callback_seq q)"
      "pay_status q = StatusFailed \<or> pay_status q = StatusClosed"
    and s1: "s1 = releaseLocked t u pid CANCELLED s"
  shows "store_inv (appendEventLocked v pid (new_event ty (pay_status p) (pay_status q) m md)
           (s1\<lparr>payments := (payments s1)(pid \<mapsto> q)\<rparr>))"
    (is "store_inv (appendEventLocked v pid ?e ?s)")
proof (rule store_invI)
  have ag: "agree (pay_status p) (res_state_of s pid)"
    using store_state [OF inv] p(1) by (rule state_agree)
  have ok: "payment_ok pid q"
    using state_payment [OF store_state [OF inv] p(1)] q(1,2) by (rule payment_ok_same)
  have st: "pay_status p = StatusInit \<or> pay_status p = StatusProcessing"
    using p(2) ag by (cases "pay_status p") auto
  define ro where "ro = map_option (\<lambda>r. r\<lparr>res_state := CANCELLED\<rparr>) (reservations s pid)"
  have res: "reservations s1 = (reservations s)(pid := ro)"
    using ag st unfolding s1 ro_def releaseLocked_reservations
    by (auto split: option.split)
  show "money_inv (appendEventLocked v pid ?e ?s)"
    using money_inv_releaseLocked [OF store_money [OF inv]] s1 by simp
  have "state_inv ?s"
  proof (rule state_inv_update [OF store_state [OF inv] ok])
    show "agree (pay_status q) (map_option res_state ro)"
      using q(3) ag st by (auto simp: ro_def)
    show "reservation_for q r" if "ro = Some r" for r
      using that state_reservation_for [OF store_state [OF inv] p(1)] q(1)
      by (auto simp: ro_def reservation_for_def same_request_def)
  qed (use res s1 in simp_all)
  then show "state_inv (appendEventLocked v pid ?e ?s)" by simp
  have "ledger_inv ?s"
    using store_ledger [OF inv] p st q(3) s1 by (intro ledger_inv_update [OF store_ledger [OF inv], of pid q]) auto
  then show "ledger_inv (appendEventLocked v pid ?e ?s)" by simp
  have "event_inv s1"
    using store_event [OF inv] p(1) s1 by (auto intro: event_inv_release)
  then show "event_inv (appendEventLocked v pid ?e ?s)"
    using p q(3) s1 by (intro event_inv_change) auto
  have "idem_inv ?s"
    using store_idem [OF inv] p s1 by (intro idem_inv_update [OF store_idem [OF inv], of pid]) auto
  then show "idem_inv (appendEventLocked v pid ?e ?s)" by simp
qed

subsection \<open>Confirming\<close>

lemma store_inv_confirm:
  assumes inv: "store_inv s" and p: "payments s pid = Some p" "pay_status p = StatusProcessing"
    and r: "reservations s pid = Some r" "res_state r = FROZEN"
    and q: "same_request p q" "0 \<le> sint (pay_callback_seq q)" "pay_status q = StatusSuccess"
    and a0: "a0 = map_get (accounts s) (res_account r) zero_account"
    and a: "a = a0\<lparr>acc_frozen := acc_frozen a0 - res_amount r, acc_updated := t\<rparr>"
    and e: "entry_for q e" "le_id e = ''ledger_'' @ show_int06 (sint (ledgerSequence s + 1))"
    and s1: "s1 = appendEventLocked u pid (new_event ty StatusNone StatusNone m md)
               (s\<lparr>accounts := (accounts s)(acc_id a \<mapsto> a),
                  reservations := (reservations s)(pid \<mapsto> r\<lparr>res_state := CONFIRMED\<rparr>),
                  ledgerSequence := ledgerSequence s + 1, ledger := ledger s @ [e]\<rparr>)"
  shows "store_inv (appendEventLocked v pid (new_event ty' StatusProcessing (pay_status q) m' md')
           (s1\<lparr>payments := (payments s1)(pid \<mapsto> q)\<rparr>))"
    (is "store_inv (appendEventLocked v pid ?e ?s)")
proof (rule store_invI)
  have ok: "payment_ok pid q"
    using state_payment [OF store_state [OF inv] p(1)] q(1,2) by (rule payment_ok_same)
  obtain b where b: "accounts s (res_account r) = Some b"
    using money_owner [OF store_money [OF inv] r(1)] by blast
  have a0b: "a0 = b" using a0 b by simp
  have id: "acc_id a = res_account r"
    using money_owner_id [OF store_money [OF inv] b] a a0b by simp
  have "money_inv ?s"
    using id a a0b s1
    by (intro money_inv_confirm [OF store_money [OF inv] r b, where t = t]) simp_all
  then show "money_inv (appendEventLocked v pid ?e ?s)" by simp
  have "state_inv ?s"
  proof (rule state_inv_update [OF store_state [OF inv] ok])
    show "reservation_for q x" if "Some (r\<lparr>res_state := CONFIRMED\<rparr>) = Some x" for x
      using that state_reservation_for [OF store_state [OF inv] p(1) r(1)] q(1)
      by (auto simp: reservation_for_def same_request_def)
  qed (use q s1 in simp_all)
  then show "state_inv (appendEventLocked v pid ?e ?s)" by simp
  have "ledger_inv ?s"
    using ok p(2) e s1 by (intro ledger_inv_post [OF store_ledger [OF inv] p(1)])
      (simp_all add: payment_ok_def)
  then show "ledger_inv (appendEventLocked v pid ?e ?s)" by simp
  have "event_inv s1"
    unfolding s1 using p(1) by (intro event_inv_note [OF store_event [OF inv]]) auto
  then show "event_inv (appendEventLocked v pid ?e ?s)"
    using p q(3) s1 by (subst p(2) [symmetric], intro event_inv_change) auto
  have "idem_inv ?s"
    using store_idem [OF inv] p s1 by (intro idem_inv_update [OF store_idem [OF inv], of pid]) auto
  then show "idem_inv (appendEventLocked v pid ?e ?s)" by simp
qed

end
