(* ===== verification/Store_Growth.thy ===== *)
theory Store_Growth
  imports Store_Preserve
begin

section \<open>How a store may change\<close>

text \<open>
  \<open>store_grows s t\<close>: what every method but \<open>Reset\<close> guarantees about its effect. Payments stay,
  with the data of their request; their status only advances, and a payment in a terminal status
  does not change at all; event logs and the ledger only grow at the end; idempotency records and
  seen callback ids stay; accounts are neither added nor removed.
\<close>

definition status_le :: "payment_status \<Rightarrow> payment_status \<Rightarrow> bool" where
  "status_le a b \<longleftrightarrow>
     a = b \<or> (a = StatusInit \<and> b \<noteq> StatusNone) \<or> (a = StatusProcessing \<and> Terminal b)"

lemma status_le_refl [simp]: "status_le a a"
  by (simp add: status_le_def)

lemma status_le_trans: "status_le a b \<Longrightarrow> status_le b c \<Longrightarrow> status_le a c"
  by (cases a; cases b; cases c) (simp_all add: status_le_def)

definition payment_grows :: "payment \<Rightarrow> payment \<Rightarrow> bool" where
  "payment_grows p q \<longleftrightarrow>
     same_request p q \<and> pay_callback_seq p <=s pay_callback_seq q \<and>
     status_le (pay_status p) (pay_status q) \<and> (Terminal (pay_status p) \<longrightarrow> q = p)"

lemma payment_grows_refl [simp]: "payment_grows p p"
  by (simp add: payment_grows_def word_sle_eq)

lemma payment_grows_trans: "payment_grows p q \<Longrightarrow> payment_grows q r \<Longrightarrow> payment_grows p r"
  unfolding payment_grows_def
  by (auto intro: same_request_trans status_le_trans simp: word_sle_eq)

definition store_grows :: "mem_store \<Rightarrow> mem_store \<Rightarrow> bool" where
  "store_grows s t \<longleftrightarrow>
     (\<forall>k p. payments s k = Some p \<longrightarrow> (\<exists>q. payments t k = Some q \<and> payment_grows p q)) \<and>
     (\<forall>k. prefix (events_of s k) (events_of t k)) \<and>
     prefix (ledger s) (ledger t) \<and>
     idempotency s \<subseteq>\<^sub>m idempotency t \<and>
     (\<forall>k. seen_of s k \<subseteq> seen_of t k) \<and>
     dom (accounts s) = dom (accounts t)"

lemma store_growsI:
  "(\<And>k p. payments s k = Some p \<Longrightarrow> \<exists>q. payments t k = Some q \<and> payment_grows p q) \<Longrightarrow>
   (\<And>k. prefix (events_of s k) (events_of t k)) \<Longrightarrow> prefix (ledger s) (ledger t) \<Longrightarrow>
   idempotency s \<subseteq>\<^sub>m idempotency t \<Longrightarrow> (\<And>k. seen_of s k \<subseteq> seen_of t k) \<Longrightarrow>
   dom (accounts s) = dom (accounts t) \<Longrightarrow> store_grows s t"
  by (simp add: store_grows_def)

lemma store_growsD:
  assumes "store_grows s t"
  shows grows_payment: "payments s k = Some p \<Longrightarrow> \<exists>q. payments t k = Some q \<and> payment_grows p q"
    and grows_events: "prefix (events_of s k) (events_of t k)"
    and grows_ledger: "prefix (ledger s) (ledger t)"
    and grows_idem: "idempotency s \<subseteq>\<^sub>m idempotency t"
    and grows_seen: "seen_of s k \<subseteq> seen_of t k"
    and grows_accounts: "dom (accounts s) = dom (accounts t)"
  using assms by (simp_all add: store_grows_def)

lemma store_grows_refl [simp]: "store_grows s s"
  by (rule store_growsI) auto

lemma store_grows_trans:
  assumes "store_grows s t" and "store_grows t u"
  shows "store_grows s u"
proof (rule store_growsI)
  fix k p
  assume "payments s k = Some p"
  then obtain q where q: "payments t k = Some q" "payment_grows p q"
    using grows_payment [OF assms(1)] by blast
  then obtain r where "payments u k = Some r" "payment_grows q r"
    using grows_payment [OF assms(2)] by blast
  with q show "\<exists>r. payments u k = Some r \<and> payment_grows p r"
    by (blast intro: payment_grows_trans)
next
  show "seen_of s k \<subseteq> seen_of u k" for k
    using grows_seen [OF assms(1)] grows_seen [OF assms(2)] by blast
  show "dom (accounts s) = dom (accounts u)"
    using grows_accounts [OF assms(1)] grows_accounts [OF assms(2)] by simp
qed (use assms in \<open>auto dest: store_growsD intro: prefix_order.trans map_le_trans\<close>)

subsection \<open>The elementary writes grow the store\<close>

lemma grows_append: "store_grows s (appendEventLocked t pid e s)"
  by (rule store_growsI) (auto simp: appendEventLocked_def Let_def map_get_def)

lemma grows_append_after: "store_grows s s1 \<Longrightarrow> store_grows s (appendEventLocked t pid e s1)"
  by (blast intro: store_grows_trans grows_append)

lemma grows_ignored_after:
  "store_grows s s1 \<Longrightarrow> store_grows s (appendIgnoredCallbackLocked t pid ty cb m s1)"
  unfolding appendIgnoredCallbackLocked_def by (rule grows_append_after)

lemma grows_pay_update:
  assumes "payments s pid = Some p" and "payment_grows p q" and "store_grows r s"
    and "ps = (payments s)(pid \<mapsto> q)"
  shows "store_grows r (s\<lparr>payments := ps\<rparr>)"
proof -
  have "store_grows s (s\<lparr>payments := ps\<rparr>)"
    using assms(1,2,4) by (intro store_growsI) auto
  with assms(3) show ?thesis by (rule store_grows_trans)
qed

lemma grows_insert:
  assumes "payments s pid = None" and "idempotency s key = None"
  shows "store_grows s (s\<lparr>payments := (payments s)(pid \<mapsto> p), idempotency := (idempotency s)(key \<mapsto> r)\<rparr>)"
  using assms by (intro store_growsI) (auto simp: map_le_def)

lemma grows_seen_insert:
  "store_grows s (s\<lparr>callbacksSeen := (callbacksSeen s)(pid \<mapsto> insert x (seen_of s pid))\<rparr>)"
  by (rule store_growsI) (auto simp: map_get_def)

lemma grows_booking:
  assumes "accounts s k = Some a"
  shows "store_grows s (s\<lparr>accounts := (accounts s)(k \<mapsto> b), reservations := rs\<rparr>)"
  using assms by (intro store_growsI) auto

lemma grows_posting:
  assumes "accounts s k = Some a"
  shows "store_grows s (s\<lparr>accounts := (accounts s)(k \<mapsto> b), reservations := rs,
           ledgerSequence := n, ledger := ledger s @ es\<rparr>)"
  using assms by (intro store_growsI) auto

lemma grows_release:
  assumes inv: "money_inv s"
  shows "store_grows s (releaseLocked t u pid st s)"
proof (cases "\<exists>r. reservations s pid = Some r \<and> res_state r = FROZEN")
  case True
  then obtain r where r: "reservations s pid = Some r" "res_state r = FROZEN" by blast
  obtain a where a: "accounts s (res_account r) = Some a"
    using money_owner [OF inv r(1)] by blast
  then have "acc_id a = res_account r" by (rule money_owner_id [OF inv])
  with r a show ?thesis
    by (auto simp: releaseLocked_def Let_def intro!: grows_append_after grows_booking)
next
  case False
  then show ?thesis by (auto simp: releaseLocked_def split: option.split)
qed

subsection \<open>Each method keeps the invariant and grows the store\<close>

definition sound_step :: "mem_store \<Rightarrow> mem_store \<Rightarrow> bool" where
  "sound_step s t \<longleftrightarrow> store_inv t \<and> store_grows s t"

lemma sound_step_refl: "store_inv s \<Longrightarrow> sound_step s s"
  by (simp add: sound_step_def)

lemma sound_create:
  assumes "store_inv s" and "new_payment p"
  shows "sound_step s (fst (mem_CreatePayment c p key fp s))"
  using assms
  by (auto simp: mem_CreatePayment_def sound_step_def split: option.split
      intro!: store_inv_create grows_append_after grows_insert)

lemma sound_start:
  assumes inv: "store_inv s"
  shows "sound_step s (fst (mem_StartPayment c pid s))"
proof (cases "payments s pid")
  case None
  with inv show ?thesis by (simp add: mem_StartPayment_def sound_step_refl)
next
  case (Some p)
  show ?thesis
  proof (cases "pay_status p = StatusInit")
    case True
    define q where "q = p\<lparr>pay_status := StatusProcessing, pay_updated := c 0\<rparr>"
    have free: "res_state_of s pid = None"
      using state_agree [OF store_state [OF inv] Some] True by simp
    have ok: "payment_ok pid p" using store_state [OF inv] Some by (rule state_payment)
    have q: "same_request p q" "0 \<le> sint (pay_callback_seq q)" "pay_status q = StatusProcessing"
      "payment_grows p q"
      using ok True by (simp_all add: q_def same_request_def payment_ok_def payment_grows_def
          status_le_def word_sle_eq)
    have "store_inv (appendEventLocked (c 1) pid
        (new_event ''STATUS_CHANGED'' (pay_status p) (pay_status q) ''payment entered processing'' None)
        (s\<lparr>payments := (payments s)(pid \<mapsto> q)\<rparr>))"
      using inv Some q True free by (intro store_inv_change) simp_all
    moreover have "store_grows s (appendEventLocked (c 1) pid
        (new_event ''STATUS_CHANGED'' (pay_status p) (pay_status q) ''payment entered processing'' None)
        (s\<lparr>payments := (payments s)(pid \<mapsto> q)\<rparr>))"
      using Some q by (intro grows_append_after grows_pay_update) auto
    ultimately show ?thesis
      using Some True by (simp add: mem_StartPayment_def sound_step_def Let_def flip: q_def)
  next
    case False
    with inv Some show ?thesis by (simp add: mem_StartPayment_def sound_step_refl)
  qed
qed

lemma sound_freeze:
  assumes inv: "store_inv s"
  shows "sound_step s (fst (mem_Freeze c pid s))"
proof -
  have id: "accounts s k = Some a \<Longrightarrow> acc_id a = k" for k a
    using money_owner_id [OF store_money [OF inv]] .
  show ?thesis
    using inv
    by (auto simp: mem_Freeze_def sound_step_def Let_def id split: option.split
        intro!: store_inv_freeze grows_append_after grows_booking)
qed

lemma sound_trans:
  "sound_step s t \<Longrightarrow> sound_step t u \<Longrightarrow> sound_step s u"
  by (auto simp: sound_step_def intro: store_grows_trans)

text \<open>The abort shape: release, set FAILED or CLOSED, record the change.\<close>

lemma sound_abort:
  assumes inv: "store_inv s" and p: "payments s pid = Some p" "\<not> Terminal (pay_status p)"
    and q: "same_request p q" "pay_callback_seq p <=s pay_callback_seq q"
      "pay_status q = StatusFailed \<or> pay_status q = StatusClosed"
    and st: "st = pay_status p" "st' = pay_status q"
  shows "sound_step s (appendEventLocked v pid (new_event ty st st' m md)
           (releaseLocked t u pid CANCELLED s \<lparr>payments := (payments s)(pid \<mapsto> q)\<rparr>))"
proof -
  have ok: "payment_ok pid p" using store_state [OF inv] p(1) by (rule state_payment)
  have seq: "0 \<le> sint (pay_callback_seq q)"
    using ok q(2) by (simp add: payment_ok_def word_sle_eq)
  have "pay_status p = StatusInit \<or> pay_status p = StatusProcessing"
    using p(2) state_agree [OF store_state [OF inv] p(1)] by (cases "pay_status p") auto
  then have grows: "payment_grows p q"
    using q by (auto simp: payment_grows_def status_le_def)
  show ?thesis
    unfolding sound_step_def st
    using store_inv_abort [OF inv p q(1) seq q(3) refl, where t = t and u = u]
      grows_release [OF store_money [OF inv]] p(1) grows
    by (auto intro!: grows_append_after grows_pay_update)
qed

lemma sound_fail:
  assumes "store_inv s"
  shows "sound_step s (fst (mem_FailAndRelease c pid reason s))"
  using assms
  by (auto simp: mem_FailAndRelease_def Let_def sound_step_refl same_request_def word_sle_eq
      split: option.split intro!: sound_abort)

lemma sound_close:
  assumes "store_inv s"
  shows "sound_step s (fst (mem_ClosePayment c pid reason s))"
  using assms
  by (auto simp: mem_ClosePayment_def Let_def sound_step_refl same_request_def word_sle_eq
      split: option.split intro!: sound_abort)

lemma sound_record:
  assumes "store_inv s"
  shows "sound_step s (fst (mem_RecordEvent c pid ty m md s))"
  using assms
  by (auto simp: mem_RecordEvent_def sound_step_def intro: store_inv_note grows_append)

lemma sound_ignored:
  assumes "store_inv s" and "payments s pid \<noteq> None"
  shows "sound_step s (appendIgnoredCallbackLocked t pid ty cb m s)"
  using assms by (auto simp: sound_step_def intro: store_inv_ignored grows_ignored_after)

lemma sound_seen:
  "store_inv s \<Longrightarrow>
   sound_step s (s\<lparr>callbacksSeen := (callbacksSeen s)(pid \<mapsto> insert x (seen_of s pid))\<rparr>)"
  by (simp add: sound_step_def grows_seen_insert)

lemma sound_apply:
  assumes inv: "store_inv s" and p0: "payments s pid = Some p0" "pay_status p0 = StatusProcessing"
    and p: "same_request p0 p" "pay_callback_seq p0 <=s pay_callback_seq p"
      "pay_status p = StatusProcessing"
    and out: "cb_outcome cb = ''success'' \<or> cb_outcome cb = ''failed''"
  shows "sound_step s (fst (applyCallback c pid cb StatusProcessing p s))"
proof (cases "cb_outcome cb = ''success''")
  case False
  define q where "q = p\<lparr>pay_status := StatusFailed,
    pay_failure := (if cb_reason cb = '''' then ''channel reported failure'' else cb_reason cb)\<rparr>"
  have "sound_step s (appendEventLocked (c 8) pid
      (new_event ''STATUS_CHANGED'' (pay_status p0) (pay_status q) ''callback applied'' None)
      (releaseLocked (c 6) (c 7) pid CANCELLED s \<lparr>payments := (payments s)(pid \<mapsto> q)\<rparr>))"
    using p0 p by (intro sound_abort [OF inv]) (auto simp: q_def same_request_def)
  with False out p0 show ?thesis
    by (simp add: applyCallback_def Let_def flip: q_def)
next
  case True
  show ?thesis
  proof (cases "\<exists>r. reservations s pid = Some r \<and> res_state r = FROZEN")
    case False
    with True inv show ?thesis
      by (auto simp: applyCallback_def sound_step_refl split: option.split)
  next
    case frozen: True
    then obtain r where r: "reservations s pid = Some r" "res_state r = FROZEN" by blast
    define q where "q = p\<lparr>pay_status := StatusSuccess\<rparr>"
    have ok: "payment_ok pid p0" using store_state [OF inv] p0(1) by (rule state_payment)
    have q: "same_request p0 q" "0 \<le> sint (pay_callback_seq q)" "pay_status q = StatusSuccess"
      "payment_grows p0 q" "pay_id q = pid"
      using ok p p0 by (auto simp: q_def same_request_def payment_ok_def payment_grows_def
          status_le_def word_sle_eq)
    obtain a where a: "accounts s (res_account r) = Some a"
      using money_owner [OF store_money [OF inv] r(1)] by blast
    have id: "acc_id a = res_account r"
      using a by (rule money_owner_id [OF store_money [OF inv]])
    have e: "entry_for q \<lparr>le_id = ''ledger_'' @ show_int06 (sint (ledgerSequence s + 1)), le_gid = '''',
        le_payment = pid, le_account = pay_account p, le_amount = pay_amount p,
        le_direction = ''DEBIT'', le_status = '''', le_created = pay_updated p\<rparr>"
      using q by (simp add: entry_for_def q_def)
    note conf = store_inv_confirm [OF inv p0 r q(1,2,3) refl refl e _ refl, simplified]
    show ?thesis
      unfolding sound_step_def
      using True r a id p0 q(4) conf
      by (auto simp: applyCallback_def Let_def q_def [symmetric] q(3)
          intro!: grows_append_after grows_pay_update grows_posting)
  qed
qed

lemma sound_callback:
  assumes inv: "store_inv s"
  shows "sound_step s (fst (mem_ProcessCallback c pid cb s))"
proof (cases "payments s pid")
  case None
  with inv show ?thesis by (simp add: mem_ProcessCallback_def sound_step_refl)
next
  case (Some p0)
  let ?s1 = "s\<lparr>callbacksSeen := (callbacksSeen s)(pid \<mapsto> insert (cb_event_id cb) (seen_of s pid))\<rparr>"
  let ?s2 = "appendEventLocked (c 4) pid (new_event ''CALLBACK_ACCEPTED'' StatusNone StatusNone
    ''channel callback passed duplicate and ordering checks'' (callbackMetadata cb)) ?s1"
  let ?p = "p0\<lparr>pay_callback_seq := cb_sequence cb, pay_updated := c 3\<rparr>"
  have s1: "sound_step s ?s1" "store_inv ?s1"
    using sound_seen [OF inv] inv by simp_all
  have s2: "sound_step ?s1 ?s2" "store_inv ?s2"
    using s1(2) Some by (auto simp: sound_step_def intro!: store_inv_note grows_append)
  have apply_ok: "sound_step ?s2 (fst (applyCallback c pid cb StatusProcessing ?p ?s2))"
    if "pay_status p0 = StatusProcessing" "\<not> cb_sequence cb <=s pay_callback_seq p0"
      "cb_outcome cb = ''success'' \<or> cb_outcome cb = ''failed''"
    using s2(2) Some that
    by (intro sound_apply) (auto simp: same_request_def word_sle_eq)
  have ign: "sound_step s (appendIgnoredCallbackLocked t pid ty cb m ?s1)" for t ty m
    using s1(1) sound_ignored [OF s1(2)] Some by (auto intro: sound_trans)
  show ?thesis
    using inv Some s1(1) ign sound_trans [OF s1(1) sound_trans [OF s2(1) apply_ok]]
    by (auto simp: mem_ProcessCallback_def Let_def sound_step_refl sound_ignored)
qed

lemmas sound_methods =
  sound_create sound_start sound_freeze sound_fail sound_callback sound_close sound_record

lemma read_only_methods:
  "read_only (mem_GetPayment pid)" "read_only (mem_ListPayments ks)" "read_only (mem_Events pid)"
  "read_only (mem_Account aid)" "read_only mem_Ledger" "read_only (mem_Snapshot ks)"
  by (simp_all add: read_only_def mem_read_defs split: option.split)

end
