(* ===== verification/Store_Books.thy ===== *)
theory Store_Books
  imports Store_Growth
begin

section \<open>The books of the in-memory store\<close>

text \<open>
  What follows from the invariant about a whole store: each account's balances and the ledger add
  up to the balance it started with, the ledger is short enough that its numbers never wrap
  around, its identifiers differ, and an event log is determined by the status it leads to.
\<close>

subsection \<open>The ledger total is what was confirmed\<close>

definition posted :: "string \<Rightarrow> ledger_entry \<Rightarrow> int" where
  "posted k e = (if le_account e = k then sint (le_amount e) else 0)"

definition ledger_total :: "mem_store \<Rightarrow> string \<Rightarrow> int" where
  "ledger_total s k = (\<Sum>e\<leftarrow>ledger s. posted k e)"

lemma ledger_invD:
  assumes "ledger_inv s"
  shows ledger_seq: "ledgerSequence s = of_nat (length (ledger s))"
    and ledger_ids: "i < length (ledger s) \<Longrightarrow> le_id (ledger s ! i) = ledger_id (Suc i)"
    and ledger_distinct: "distinct (map le_payment (ledger s))"
    and ledger_entry: "e \<in> set (ledger s) \<Longrightarrow> \<exists>p. payments s (le_payment e) = Some p \<and> entry_for p e"
    and ledger_success: "payments s k = Some p \<Longrightarrow> pay_status p = StatusSuccess \<Longrightarrow>
      \<exists>e\<in>set (ledger s). le_payment e = k"
  using assms unfolding ledger_inv_def by blast+

text \<open>The reservation behind a ledger entry, and the ledger entry behind a reservation.\<close>

lemma entry_reservation:
  assumes inv: "store_inv s" and e: "e \<in> set (ledger s)"
  shows "\<exists>r. reservations s (le_payment e) = Some r \<and> spent k r = posted k e"
proof -
  obtain p where p: "payments s (le_payment e) = Some p" "entry_for p e"
    using ledger_entry [OF store_ledger [OF inv] e] by blast
  then have "agree StatusSuccess (res_state_of s (le_payment e))"
    using state_agree [OF store_state [OF inv] p(1)] by (simp add: entry_for_def)
  then obtain r where r: "reservations s (le_payment e) = Some r" "res_state r = CONFIRMED" by auto
  with p state_reservation_for [OF store_state [OF inv] p(1) r(1)] show ?thesis
    by (auto simp: spent_def posted_def reservation_for_def entry_for_def)
qed

lemma unposted_reservation:
  assumes inv: "store_inv s" and r: "reservations s k = Some r"
    and no: "k \<notin> le_payment ` set (ledger s)"
  shows "spent j r = 0"
proof -
  obtain p where p: "payments s k = Some p"
    using state_reservation [OF store_state [OF inv] r] by blast
  with no have "pay_status p \<noteq> StatusSuccess"
    using ledger_success [OF store_ledger [OF inv] p] by auto
  with state_agree [OF store_state [OF inv] p] r have "res_state r \<noteq> CONFIRMED"
    by (cases "pay_status p") auto
  then show ?thesis by (simp add: spent_def)
qed

lemma spent_total:
  assumes inv: "store_inv s"
  shows "map_sum (spent k) (reservations s) = ledger_total s k"
proof -
  let ?R = "reservations s" and ?S = "le_payment ` set (ledger s)"
  have dist: "distinct (ledger s)" and inj: "inj_on le_payment (set (ledger s))"
    using ledger_distinct [OF store_ledger [OF inv]] by (simp_all add: distinct_map)
  have sub: "?S \<subseteq> dom ?R" using entry_reservation [OF inv] by blast
  have "map_sum (spent k) ?R = (\<Sum>j\<in>?S. spent k (the (?R j)))"
    unfolding map_sum_def
    using unposted_reservation [OF inv] sub money_finite [OF store_money [OF inv]]
    by (intro sum.mono_neutral_right) auto
  also have "\<dots> = (\<Sum>e\<in>set (ledger s). spent k (the (?R (le_payment e))))"
    using inj by (simp add: sum.reindex)
  also have "\<dots> = (\<Sum>e\<in>set (ledger s). posted k e)"
    by (rule sum.cong) (use entry_reservation [OF inv, of _ k] in force)+
  also have "\<dots> = ledger_total s k"
    using dist by (simp add: ledger_total_def sum_list_distinct_conv_sum_set)
  finally show ?thesis .
qed

lemma books:
  assumes inv: "store_inv s" and a: "accounts s k = Some a"
  shows "sint (acc_available a) + sint (acc_frozen a) + ledger_total s k = 1000000"
  using money_account [OF store_money [OF inv] a] spent_total [OF inv, of k]
  by (simp add: account_ok_def)

subsection \<open>The store of the demo\<close>

text \<open>
  \<open>NewMemoryStore\<close> and \<open>Reset\<close> set up one account, and no method adds another. Every amount is at
  least one cent, so the ledger has at most a million entries.
\<close>

definition seen_inv :: "mem_store \<Rightarrow> bool" where
  "seen_inv s \<longleftrightarrow> (\<forall>k. payments s k = None \<longrightarrow> seen_of s k = {})"

definition demo_inv :: "mem_store \<Rightarrow> bool" where
  "demo_inv s \<longleftrightarrow> store_inv s \<and> dom (accounts s) = {''demo-user''} \<and> seen_inv s"

lemma demo_store: "demo_inv s \<Longrightarrow> store_inv s"
  by (simp add: demo_inv_def)

lemma demo_seen: "demo_inv s \<Longrightarrow> payments s k = None \<Longrightarrow> seen_of s k = {}"
  by (simp add: demo_inv_def seen_inv_def)

lemma demo_inv_reset: "demo_inv (resetLocked t)"
  by (simp add: demo_inv_def store_inv_reset) (simp add: resetLocked_def seen_inv_def)

text \<open>Only a callback for a payment that exists is remembered.\<close>

definition seen_step :: "mem_store \<Rightarrow> mem_store \<Rightarrow> bool" where
  "seen_step s t \<longleftrightarrow> (\<forall>k. payments s k = None \<longrightarrow> callbacksSeen t k = callbacksSeen s k)"

lemma seen_step_frame: "callbacksSeen t = callbacksSeen s \<Longrightarrow> seen_step s t"
  by (simp add: seen_step_def)

lemma seen_step_methods:
  "seen_step s (fst (mem_CreatePayment c p key fp s))" "seen_step s (fst (mem_StartPayment c pid s))"
  "seen_step s (fst (mem_Freeze c pid s))" "seen_step s (fst (mem_FailAndRelease c pid reason s))"
  "seen_step s (fst (mem_ClosePayment c pid reason s))" "seen_step s (fst (mem_RecordEvent c pid ty m md s))"
  by (auto intro!: seen_step_frame simp: mem_CreatePayment_def mem_StartPayment_def mem_Freeze_def
      mem_FailAndRelease_def mem_ClosePayment_def mem_RecordEvent_def Let_def split: option.split)

lemma applyCallback_seen: "callbacksSeen (fst (applyCallback c pid cb st p s)) = callbacksSeen s"
  by (simp add: applyCallback_def Let_def split: option.split)

lemma seen_step_callback: "seen_step s (fst (mem_ProcessCallback c pid cb s))"
  by (auto simp: seen_step_def mem_ProcessCallback_def Let_def applyCallback_seen split: option.split)

lemma demo_inv_step:
  assumes "demo_inv s" and "sound_step s t" and "seen_step s t"
  shows "demo_inv t"
proof -
  have grows: "store_grows s t" using assms(2) by (simp add: sound_step_def)
  have "seen_of t k = {}" if "payments t k = None" for k
  proof -
    have "payments s k = None" using that grows_payment [OF grows, of k] by (cases "payments s k") auto
    with assms(1,3) show ?thesis by (simp add: demo_inv_def seen_inv_def seen_step_def map_get_def)
  qed
  with assms grows_accounts [OF grows] show ?thesis
    by (simp add: demo_inv_def sound_step_def seen_inv_def)
qed

lemma demo_account:
  assumes "demo_inv s"
  obtains a where "accounts s ''demo-user'' = Some a"
proof -
  have "''demo-user'' \<in> dom (accounts s)" using assms by (simp add: demo_inv_def)
  with that show ?thesis by blast
qed

lemma demo_accounts_only: "demo_inv s \<Longrightarrow> accounts s k = Some a \<Longrightarrow> k = ''demo-user''"
  unfolding demo_inv_def by (metis domI singletonD)

lemma demo_entry:
  assumes inv: "demo_inv s" and e: "e \<in> set (ledger s)"
  shows "le_account e = ''demo-user''" and "0 < sint (le_amount e)"
proof -
  note st = store_state [OF demo_store [OF inv]]
  obtain p where p: "payments s (le_payment e) = Some p" "entry_for p e"
    using ledger_entry [OF store_ledger [OF demo_store [OF inv]] e] by blast
  obtain r where r: "reservations s (le_payment e) = Some r"
    using entry_reservation [OF demo_store [OF inv] e] by blast
  then obtain a where "accounts s (res_account r) = Some a"
    using money_owner [OF store_money [OF demo_store [OF inv]]] by blast
  then have "res_account r = ''demo-user''" by (rule demo_accounts_only [OF inv])
  moreover have "le_account e = res_account r"
    using p(2) state_reservation_for [OF st p(1) r] by (simp add: reservation_for_def entry_for_def)
  ultimately show "le_account e = ''demo-user''" by simp
  have "0 < sint (pay_amount p)" using state_payment [OF st p(1)] by (simp add: payment_ok_def)
  then show "0 < sint (le_amount e)" using p(2) by (simp add: entry_for_def)
qed

lemma demo_ledger_length:
  assumes inv: "demo_inv s"
  shows "length (ledger s) \<le> 1000000"
proof -
  obtain a where a: "accounts s ''demo-user'' = Some a" using inv by (rule demo_account)
  have "int (length xs) \<le> (\<Sum>e\<leftarrow>xs. posted ''demo-user'' e)" if "set xs \<subseteq> set (ledger s)" for xs
    using that demo_entry [OF inv] by (induction xs) (force simp: posted_def)+
  then have "int (length (ledger s)) \<le> ledger_total s ''demo-user''"
    by (simp add: ledger_total_def)
  with books [OF demo_store [OF inv] a] account_bounds [OF store_money [OF demo_store [OF inv]] a]
  show ?thesis by linarith
qed

lemma ledger_id_inj:
  assumes "m < 2 ^ 63" and "n < 2 ^ 63" and "ledger_id m = ledger_id n"
  shows "m = n"
proof -
  have "show_int06 (int m) = show_int06 (int n)"
    using assms by (simp add: ledger_id_def sint64_of_nat)
  then have "nat (int m) = nat (int n)" by (metis of_nat_0_le_iff read_show_int06)
  then show ?thesis by simp
qed

lemma demo_ledger_ids:
  assumes inv: "demo_inv s"
  shows "distinct (map le_id (ledger s))"
proof -
  note ids = ledger_ids [OF store_ledger [OF demo_store [OF inv]]]
  have "i = j" if "i < length (ledger s)" "j < length (ledger s)"
    "le_id (ledger s ! i) = le_id (ledger s ! j)" for i j
  proof -
    have "Suc i < 2 ^ 63" "Suc j < 2 ^ 63"
      using that demo_ledger_length [OF inv] by simp_all
    with ledger_id_inj [of "Suc i" "Suc j"] ids that show ?thesis by simp
  qed
  then show ?thesis by (auto simp: distinct_conv_nth)
qed

end
