(* ===== verification/Store_Contract.thy ===== *)
theory Store_Contract
  imports Store_Books
begin

section \<open>What a client may rely on in a \<open>Store\<close>\<close>

text \<open>
  The contract behind the interface \<open>Store\<close> of \<open>internal/store/store.go\<close>, as the application
  layer uses it. \<open>store_contract\<close>: every method keeps an invariant, every method but \<open>Reset\<close>
  only lets the store grow, the reading methods write nothing. \<open>keyed_store\<close> adds what
  idempotency promises: what was created under a key is found again under it, by the same request
  only, however the store has grown since. The in-memory store provides both.
\<close>

subsection \<open>Invariant and growth\<close>

locale store_contract =
  fixes st :: "'s store_ops" and inv :: "'s \<Rightarrow> bool" and grows :: "'s \<Rightarrow> 's \<Rightarrow> bool"
  assumes grows_refl: "grows s s"
    and grows_trans: "grows s t \<Longrightarrow> grows t u \<Longrightarrow> grows s u"
    and create_law: "inv s \<Longrightarrow> new_payment p \<Longrightarrow>
      inv (fst (op_CreatePayment st c p key fp s)) \<and> grows s (fst (op_CreatePayment st c p key fp s))"
    and start_law: "inv s \<Longrightarrow>
      inv (fst (op_StartPayment st c pid s)) \<and> grows s (fst (op_StartPayment st c pid s))"
    and freeze_law: "inv s \<Longrightarrow>
      inv (fst (op_Freeze st c pid s)) \<and> grows s (fst (op_Freeze st c pid s))"
    and fail_law: "inv s \<Longrightarrow>
      inv (fst (op_FailAndRelease st c pid reason s)) \<and> grows s (fst (op_FailAndRelease st c pid reason s))"
    and callback_law: "inv s \<Longrightarrow>
      inv (fst (op_ProcessCallback st c pid cb s)) \<and> grows s (fst (op_ProcessCallback st c pid cb s))"
    and close_law: "inv s \<Longrightarrow>
      inv (fst (op_ClosePayment st c pid reason s)) \<and> grows s (fst (op_ClosePayment st c pid reason s))"
    and record_law: "inv s \<Longrightarrow>
      inv (fst (op_RecordEvent st c pid ty m md s)) \<and> grows s (fst (op_RecordEvent st c pid ty m md s))"
    and get_law: "read_only (op_GetPayment st pid)"
    and list_law: "read_only (op_ListPayments st ks)"
    and events_law: "read_only (op_Events st pid)"
    and account_law: "read_only (op_Account st aid)"
    and ledger_law: "read_only (op_Ledger st)"
    and snapshot_law: "read_only (op_Snapshot st ks)"
    and reset_law: "inv (fst (op_Reset st c s))"
begin

lemma grows_reflp: "reflp grows"
  by (rule reflpI) (rule grows_refl)

lemma grows_transp: "transp grows"
  by (rule transpI) (rule grows_trans)

lemmas write_laws = create_law start_law freeze_law fail_law callback_law close_law record_law

lemmas read_laws = get_law list_law events_law account_law ledger_law snapshot_law

end

subsection \<open>Keys\<close>

text \<open>\<open>found st pid s\<close> is the payment that \<open>GetPayment\<close> returns, if it returns one.\<close>

definition found :: "'s store_ops \<Rightarrow> string \<Rightarrow> 's \<Rightarrow> payment option" where
  "found st pid s = (case snd (op_GetPayment st pid s) of Inl e \<Rightarrow> None | Inr p \<Rightarrow> Some p)"

text \<open>\<open>key_of s key\<close> is the payment id and the fingerprint under an idempotency key.\<close>

locale keyed_store = store_contract st inv grows
  for st :: "'s store_ops" and inv :: "'s \<Rightarrow> bool" and grows :: "'s \<Rightarrow> 's \<Rightarrow> bool" +
  fixes key_of :: "'s \<Rightarrow> string \<Rightarrow> (string \<times> string) option"
  assumes found_grows: "grows s t \<Longrightarrow> found st pid s = Some p \<Longrightarrow>
      \<exists>q. found st pid t = Some q \<and> payment_grows p q"
    and key_grows: "grows s t \<Longrightarrow> key_of s key = Some v \<Longrightarrow> key_of t key = Some v"
    and key_found: "inv s \<Longrightarrow> key_of s key = Some (pid, fp) \<Longrightarrow> \<exists>q. found st pid s = Some q"
    and create_key: "inv s \<Longrightarrow> op_CreatePayment st c p key fp s = (t, Inr (q, b)) \<Longrightarrow>
      key_of t key = Some (pay_id q, fp) \<and> found st (pay_id q) t = Some q"
    and create_new_key: "op_CreatePayment st c p key fp s = (t, Inr (q, b)) \<Longrightarrow>
      (b \<longleftrightarrow> key_of s key = None) \<and> (b \<longrightarrow> q = p)"
    and create_replay: "inv s \<Longrightarrow> key_of s key = Some (pid, fp) \<Longrightarrow> found st pid s = Some q \<Longrightarrow>
      op_CreatePayment st c p key fp s = (s, Inr (q, False))"
    and create_conflict: "inv s \<Longrightarrow> key_of s key = Some (pid, fp) \<Longrightarrow> fp' \<noteq> fp \<Longrightarrow>
      op_CreatePayment st c p key fp' s = (s, Inl ErrIdempotencyConflict)"
begin

text \<open>A payment in a terminal status is found unchanged for ever after.\<close>

lemma terminal_found:
  assumes "grows s t" and "found st pid s = Some p" and "Terminal (pay_status p)"
  shows "found st pid t = Some p"
  using found_grows [OF assms(1,2)] assms(3) by (auto simp: payment_grows_def)

text \<open>The same request under the same key gets the payment it got before, advanced at most.\<close>

lemma replay_same_payment:
  assumes "inv s" and "op_CreatePayment st c p key fp s = (t, Inr (q, b))"
    and "inv u" and "grows t u"
  shows "\<exists>r. op_CreatePayment st c' p' key fp u = (u, Inr (r, False)) \<and> payment_grows q r"
proof -
  have key: "key_of u key = Some (pay_id q, fp)"
    using create_key [OF assms(1,2)] key_grows [OF assms(4)] by blast
  obtain r where "found st (pay_id q) u = Some r" "payment_grows q r"
    using found_grows [OF assms(4)] create_key [OF assms(1,2)] by blast
  with create_replay [OF assms(3) key] show ?thesis by blast
qed

end

subsection \<open>Read after write\<close>

text \<open>
  \<open>payment_store\<close>: a method that returns a payment returns the one it left in the store, in the
  status the method is for.
\<close>

locale payment_store = keyed_store st inv grows key_of
  for st :: "'s store_ops" and inv :: "'s \<Rightarrow> bool" and grows :: "'s \<Rightarrow> 's \<Rightarrow> bool"
    and key_of :: "'s \<Rightarrow> string \<Rightarrow> (string \<times> string) option" +
  assumes found_id: "inv s \<Longrightarrow> found st pid s = Some p \<Longrightarrow> pay_id p = pid"
    and start_found: "inv s \<Longrightarrow> op_StartPayment st c pid s = (t, Inr p) \<Longrightarrow>
      found st pid t = Some p \<and> pay_status p = StatusProcessing"
    and freeze_found: "inv s \<Longrightarrow> op_Freeze st c pid s = (t, Inr p) \<Longrightarrow>
      found st pid t = Some p \<and> pay_status p = StatusProcessing"
    and fail_found: "inv s \<Longrightarrow> op_FailAndRelease st c pid reason s = (t, Inr p) \<Longrightarrow>
      found st pid t = Some p \<and> pay_status p = StatusFailed"
    and close_found: "inv s \<Longrightarrow> op_ClosePayment st c pid reason s = (t, Inr p) \<Longrightarrow>
      found st pid t = Some p \<and> pay_status p = StatusClosed"
    and callback_found: "inv s \<Longrightarrow> op_ProcessCallback st c pid cb s = (t, Inr res) \<Longrightarrow>
      found st pid t = Some (cr_payment res) \<and>
      (cr_disposition res = CallbackApplied \<longrightarrow>
         pay_status (cr_payment res) = (if cb_outcome cb = ''success'' then StatusSuccess else StatusFailed)) \<and>
      (cr_disposition res \<noteq> CallbackApplied \<longrightarrow> found st pid s = Some (cr_payment res))"

subsection \<open>The in-memory store keeps the contract\<close>

definition memory_key :: "mem_store \<Rightarrow> string \<Rightarrow> (string \<times> string) option" where
  "memory_key s key = map_option (\<lambda>r. (idem_payment r, idem_fingerprint r)) (idempotency s key)"

lemma found_memory: "found memory_ops pid s = payments s pid"
  by (simp add: found_def mem_GetPayment_def split: option.split)

lemma memory_found_id: "demo_inv s \<Longrightarrow> payments s pid = Some p \<Longrightarrow> pay_id p = pid"
  by (drule state_payment [OF store_state [OF demo_store]]) (auto simp: payment_ok_def)

lemma memory_key_found:
  "demo_inv s \<Longrightarrow> memory_key s key = Some (pid, fp) \<Longrightarrow> \<exists>q. payments s pid = Some q"
  by (drule store_idem [OF demo_store]) (auto simp: memory_key_def idem_inv_def)

lemma memory_create_key:
  assumes "demo_inv s" and "mem_CreatePayment c p key fp s = (t, Inr (q, b))"
  shows "memory_key t key = Some (pay_id q, fp) \<and> payments t (pay_id q) = Some q"
proof (cases "idempotency s key")
  case None
  with assms(2) show ?thesis
    by (auto simp: mem_CreatePayment_def memory_key_def split: if_splits)
next
  case (Some r)
  with assms(1) obtain q0 where q0: "payments s (idem_payment r) = Some q0"
    using store_idem [OF demo_store [OF assms(1)]] unfolding idem_inv_def by blast
  then have "pay_id q0 = idem_payment r" by (rule memory_found_id [OF assms(1)])
  with assms(2) Some q0 show ?thesis
    by (auto simp: mem_CreatePayment_def memory_key_def split: if_splits)
qed

lemma memory_create_new_key:
  "mem_CreatePayment c p key fp s = (t, Inr (q, b)) \<Longrightarrow>
   (b \<longleftrightarrow> memory_key s key = None) \<and> (b \<longrightarrow> q = p)"
  by (auto simp: mem_CreatePayment_def memory_key_def split: option.splits if_splits)

lemma memory_create_replay:
  "memory_key s key = Some (pid, fp) \<Longrightarrow> payments s pid = Some q \<Longrightarrow>
   mem_CreatePayment c p key fp s = (s, Inr (q, False))"
  by (auto simp: mem_CreatePayment_def memory_key_def)

lemma memory_create_conflict:
  "memory_key s key = Some (pid, fp) \<Longrightarrow> fp' \<noteq> fp \<Longrightarrow>
   mem_CreatePayment c p key fp' s = (s, Inl ErrIdempotencyConflict)"
  by (auto simp: mem_CreatePayment_def memory_key_def)

lemma memory_key_grows:
  "store_grows s t \<Longrightarrow> memory_key s key = Some b \<Longrightarrow> memory_key t key = Some b"
  by (drule grows_idem) (force simp: memory_key_def map_le_def dom_def)

lemma memory_start_found:
  "mem_StartPayment c pid s = (t, Inr p) \<Longrightarrow> payments t pid = Some p \<and> pay_status p = StatusProcessing"
  by (auto simp: mem_StartPayment_def Let_def split: option.splits if_splits)

lemma memory_freeze_found:
  "mem_Freeze c pid s = (t, Inr p) \<Longrightarrow> payments t pid = Some p \<and> pay_status p = StatusProcessing"
  by (auto simp: mem_Freeze_def Let_def split: option.splits if_splits)

lemma memory_fail_found:
  "mem_FailAndRelease c pid reason s = (t, Inr p) \<Longrightarrow> payments t pid = Some p \<and> pay_status p = StatusFailed"
  by (auto simp: mem_FailAndRelease_def Let_def split: option.splits if_splits)

lemma memory_close_found:
  "mem_ClosePayment c pid reason s = (t, Inr p) \<Longrightarrow> payments t pid = Some p \<and> pay_status p = StatusClosed"
  by (auto simp: mem_ClosePayment_def Let_def split: option.splits if_splits)

lemma applyCallback_found:
  assumes "applyCallback c pid cb from p s = (t, Inr res)"
    and "cb_outcome cb = ''success'' \<or> cb_outcome cb = ''failed''"
  shows "payments t pid = Some (cr_payment res) \<and> cr_disposition res = CallbackApplied \<and>
    pay_status (cr_payment res) = (if cb_outcome cb = ''success'' then StatusSuccess else StatusFailed)"
  using assms by (auto simp: applyCallback_def Let_def split: option.splits if_splits)

lemma memory_callback_found:
  "mem_ProcessCallback c pid cb s = (t, Inr res) \<Longrightarrow>
   payments t pid = Some (cr_payment res) \<and>
   (cr_disposition res = CallbackApplied \<longrightarrow>
      pay_status (cr_payment res) = (if cb_outcome cb = ''success'' then StatusSuccess else StatusFailed)) \<and>
   (cr_disposition res \<noteq> CallbackApplied \<longrightarrow> payments s pid = Some (cr_payment res))"
  by (auto simp: mem_ProcessCallback_def Let_def dest!: applyCallback_found split: option.splits if_splits)

lemma memory_reset: "demo_inv (fst (mem_Reset c s))"
  by (simp add: mem_Reset_def demo_inv_reset)

lemma demo_sound:
  "seen_step s t \<Longrightarrow> demo_inv s \<Longrightarrow> (store_inv s \<Longrightarrow> sound_step s t) \<Longrightarrow> demo_inv t \<and> store_grows s t"
  using demo_inv_step [of s t] by (simp add: sound_step_def demo_inv_def)

lemmas memory_sound =
  demo_sound [OF seen_step_methods(1) _ sound_create] demo_sound [OF seen_step_methods(2) _ sound_start]
  demo_sound [OF seen_step_methods(3) _ sound_freeze] demo_sound [OF seen_step_methods(4) _ sound_fail]
  demo_sound [OF seen_step_callback _ sound_callback] demo_sound [OF seen_step_methods(5) _ sound_close]
  demo_sound [OF seen_step_methods(6) _ sound_record]

lemmas memory_laws =
  store_grows_refl store_grows_trans grows_payment memory_reset read_only_methods
  memory_found_id memory_start_found memory_freeze_found memory_fail_found memory_close_found
  memory_key_found memory_create_key memory_create_new_key memory_create_replay
  memory_create_conflict memory_key_grows

interpretation memory: payment_store memory_ops demo_inv store_grows memory_key
proof unfold_locales
  fix s t :: mem_store and c pid cb res
  assume "op_ProcessCallback memory_ops c pid cb s = (t, Inr res)"
  then show "found memory_ops pid t = Some (cr_payment res) \<and>
      (cr_disposition res = CallbackApplied \<longrightarrow>
         pay_status (cr_payment res) = (if cb_outcome cb = ''success'' then StatusSuccess else StatusFailed)) \<and>
      (cr_disposition res \<noteq> CallbackApplied \<longrightarrow> found memory_ops pid s = Some (cr_payment res))"
    unfolding memory_ops_simps found_memory by (rule memory_callback_found)
qed (unfold memory_ops_simps found_memory, (rule memory_sound memory_laws; assumption)+)

end
