(* ===== verification/Store_Machine.thy ===== *)
theory Store_Machine
  imports Store_Contract
begin

section \<open>The payment state machine\<close>

text \<open>
  The abstract view of one payment: its status with the state of its reservation, or nothing when
  the payment does not exist. \<open>pay_step\<close> is the machine that the README draws. Every writing
  method moves at most the payment it names, by one step of the machine.
\<close>

type_synonym pay_state = "(payment_status \<times> reservation_state option) option"

inductive pay_step :: "pay_state \<Rightarrow> pay_state \<Rightarrow> bool" where
  pay_create: "pay_step None (Some (StatusInit, None))"
| pay_start: "pay_step (Some (StatusInit, None)) (Some (StatusProcessing, None))"
| pay_freeze: "pay_step (Some (StatusProcessing, None)) (Some (StatusProcessing, Some FROZEN))"
| pay_confirm: "pay_step (Some (StatusProcessing, Some FROZEN)) (Some (StatusSuccess, Some CONFIRMED))"
| pay_fail_init: "pay_step (Some (StatusInit, None)) (Some (StatusFailed, None))"
| pay_fail: "pay_step (Some (StatusProcessing, None)) (Some (StatusFailed, None))"
| pay_cancel: "pay_step (Some (StatusProcessing, Some FROZEN)) (Some (StatusFailed, Some CANCELLED))"
| pay_close: "pay_step (Some (StatusProcessing, None)) (Some (StatusClosed, None))"
| pay_close_cancel: "pay_step (Some (StatusProcessing, Some FROZEN)) (Some (StatusClosed, Some CANCELLED))"

declare pay_step.intros [simp]

inductive_cases pay_terminalE: "pay_step (Some (st, r)) b"

text \<open>No step leaves a terminal status.\<close>

lemma pay_step_terminal: "pay_step (Some (st, r)) b \<Longrightarrow> \<not> Terminal st"
  by (erule pay_terminalE) simp_all

definition view :: "mem_store \<Rightarrow> string \<Rightarrow> pay_state" where
  "view s k = map_option (\<lambda>p. (pay_status p, res_state_of s k)) (payments s k)"

lemma view_same:
  "payments t k = payments s k \<Longrightarrow> reservations t k = reservations s k \<Longrightarrow> view t k = view s k"
  by (simp add: view_def)

lemma view_event [simp]: "view (appendEventLocked t pid e s) k = view s k"
  by (rule view_same) simp_all

lemma view_ignored [simp]: "view (appendIgnoredCallbackLocked t pid ty cb m s) k = view s k"
  by (rule view_same) simp_all

lemma view_fields [simp]:
  "view (s\<lparr>callbacksSeen := cs\<rparr>) k = view s k"
  "view (s\<lparr>accounts := am, ledgerSequence := n, ledger := l\<rparr>) k = view s k"
  "view (s\<lparr>payments := ps, idempotency := im\<rparr>) k = view (s\<lparr>payments := ps\<rparr>) k"
  by (simp_all add: view_def)

subsection \<open>One method call\<close>

datatype mem_call =
  MCreate clock payment string string
| MStart clock string
| MFreeze clock string
| MFail clock string string
| MCallback clock string callback
| MClose clock string string
| MRecord clock string string string metadata

fun mem_run :: "mem_call \<Rightarrow> mem_store \<Rightarrow> mem_store" where
  "mem_run (MCreate c p key fp) s = fst (mem_CreatePayment c p key fp s)"
| "mem_run (MStart c pid) s = fst (mem_StartPayment c pid s)"
| "mem_run (MFreeze c pid) s = fst (mem_Freeze c pid s)"
| "mem_run (MFail c pid reason) s = fst (mem_FailAndRelease c pid reason s)"
| "mem_run (MCallback c pid cb) s = fst (mem_ProcessCallback c pid cb s)"
| "mem_run (MClose c pid reason) s = fst (mem_ClosePayment c pid reason s)"
| "mem_run (MRecord c pid ty m md) s = fst (mem_RecordEvent c pid ty m md s)"

fun call_target :: "mem_call \<Rightarrow> string" where
  "call_target (MCreate c p key fp) = pay_id p"
| "call_target (MStart c pid) = pid"
| "call_target (MFreeze c pid) = pid"
| "call_target (MFail c pid reason) = pid"
| "call_target (MCallback c pid cb) = pid"
| "call_target (MClose c pid reason) = pid"
| "call_target (MRecord c pid ty m md) = pid"

fun call_ok :: "mem_call \<Rightarrow> bool" where
  "call_ok (MCreate c p key fp) = new_payment p"
| "call_ok _ = True"

lemma mem_run_sound: "demo_inv s \<Longrightarrow> call_ok m \<Longrightarrow> demo_inv (mem_run m s) \<and> store_grows s (mem_run m s)"
  by (cases m) (auto simp: memory_sound)

subsection \<open>Each method refines the machine\<close>

text \<open>The state after a release, as the machine sees it.\<close>

lemma view_of: "payments s k = Some p \<Longrightarrow> view s k = Some (pay_status p, res_state_of s k)"
  by (simp add: view_def)

lemma view_none: "payments s k = None \<Longrightarrow> view s k = None"
  by (simp add: view_def)

lemma release_state:
  "res_state_of (releaseLocked t u pid CANCELLED s) k =
     (if k = pid \<and> res_state_of s pid = Some FROZEN then Some CANCELLED else res_state_of s k)"
  by (auto simp: releaseLocked_reservations split: option.split)

lemma view_abort:
  "view (releaseLocked t u pid CANCELLED s\<lparr>payments := (payments s)(pid \<mapsto> q)\<rparr>) k =
     (if k = pid then Some (pay_status q, if res_state_of s pid = Some FROZEN then Some CANCELLED else res_state_of s pid)
      else view s k)"
  using release_state [of t u pid s k] by (auto simp: view_def release_state)

lemma agree_open:
  assumes "store_inv s" and "payments s pid = Some p" and "\<not> Terminal (pay_status p)"
  shows "(pay_status p = StatusInit \<and> res_state_of s pid = None) \<or>
    (pay_status p = StatusProcessing \<and> res_state_of s pid = None) \<or>
    (pay_status p = StatusProcessing \<and> res_state_of s pid = Some FROZEN)"
  using state_agree [OF store_state [OF assms(1)] assms(2)] assms(3) by (cases "pay_status p") auto

definition machine_step :: "mem_store \<Rightarrow> mem_store \<Rightarrow> string \<Rightarrow> bool" where
  "machine_step s t pid \<longleftrightarrow>
     (view t pid = view s pid \<or> pay_step (view s pid) (view t pid)) \<and>
     (\<forall>k. k \<noteq> pid \<longrightarrow> view t k = view s k)"

lemma machine_refl [simp]: "machine_step s s pid"
  by (simp add: machine_step_def)

lemma machine_create: "new_payment p \<Longrightarrow> store_inv s \<Longrightarrow> machine_step s (fst (mem_CreatePayment c p key fp s)) (pay_id p)"
proof (cases "idempotency s key = None \<and> payments s (pay_id p) = None")
  case True
  assume p: "new_payment p" and inv: "store_inv s"
  have "reservations s (pay_id p) = None"
    using state_reservation [OF store_state [OF inv], of "pay_id p"] True
    by (cases "reservations s (pay_id p)") auto
  with True p show ?thesis
    by (auto simp: machine_step_def mem_CreatePayment_def view_def new_payment_def)
next
  case False
  then show ?thesis
    by (auto simp: mem_CreatePayment_def split: option.split)
qed

lemma machine_start: "store_inv s \<Longrightarrow> machine_step s (fst (mem_StartPayment c pid s)) pid"
  using agree_open [of s pid]
  by (auto simp: machine_step_def mem_StartPayment_def Let_def view_def
      split: option.split)

lemma machine_freeze: "store_inv s \<Longrightarrow> machine_step s (fst (mem_Freeze c pid s)) pid"
  by (auto simp: machine_step_def mem_Freeze_def Let_def view_def
      split: option.split)

lemma machine_record: "machine_step s (fst (mem_RecordEvent c pid ty m md s)) pid"
  by (simp add: machine_step_def mem_RecordEvent_def)

lemma machine_fail: "store_inv s \<Longrightarrow> machine_step s (fst (mem_FailAndRelease c pid reason s)) pid"
  using agree_open [of s pid]
  by (auto simp: machine_step_def mem_FailAndRelease_def Let_def view_abort view_of
      split: option.split)

lemma machine_close: "store_inv s \<Longrightarrow> machine_step s (fst (mem_ClosePayment c pid reason s)) pid"
  using agree_open [of s pid]
  by (auto simp: machine_step_def mem_ClosePayment_def Let_def view_abort view_of
      split: option.split)

lemma machine_apply:
  assumes "pay_status p0 = StatusProcessing" and "payments s pid = Some p0" and "store_inv s"
    and "cb_outcome cb = ''success'' \<or> cb_outcome cb = ''failed''"
  shows "machine_step s (fst (applyCallback c pid cb st p s)) pid"
  using assms agree_open [of s pid p0]
  by (auto simp: machine_step_def applyCallback_def Let_def view_abort view_of
      split: option.split) (auto simp: view_def release_state)

lemma machine_step_frame:
  "machine_step s t pid \<Longrightarrow> (\<And>k. view s0 k = view s k) \<Longrightarrow> machine_step s0 t pid"
  by (simp add: machine_step_def)

lemma machine_callback:
  assumes inv: "store_inv s"
  shows "machine_step s (fst (mem_ProcessCallback c pid cb s)) pid"
proof (cases "payments s pid")
  case None
  then show ?thesis by (simp add: mem_ProcessCallback_def)
next
  case (Some p0)
  let ?s1 = "s\<lparr>callbacksSeen := (callbacksSeen s)(pid \<mapsto> insert (cb_event_id cb) (seen_of s pid))\<rparr>"
  let ?s2 = "appendEventLocked (c 4) pid (new_event ''CALLBACK_ACCEPTED'' StatusNone StatusNone
    ''channel callback passed duplicate and ordering checks'' (callbackMetadata cb)) ?s1"
  have inv2: "store_inv ?s2"
    using inv Some by (intro store_inv_note) simp_all
  have "machine_step s (fst (applyCallback c pid cb StatusProcessing p ?s2)) pid"
    if "pay_status p0 = StatusProcessing" "cb_outcome cb = ''success'' \<or> cb_outcome cb = ''failed''" for p
    using Some that by (intro machine_step_frame [OF machine_apply [OF _ _ inv2]]) auto
  with Some show ?thesis
    by (auto simp: mem_ProcessCallback_def Let_def machine_step_def)
qed

lemma machine_call:
  assumes "demo_inv s" and "call_ok m"
  shows "machine_step s (mem_run m s) (call_target m)"
  using demo_store [OF assms(1)] assms(2)
  by (cases m) (simp_all add: machine_create machine_start machine_freeze machine_fail
      machine_callback machine_close machine_record)

subsection \<open>Any sequence of calls\<close>

text \<open>\<open>Reset\<close> starts a new history; between two resets, these are the reachable stores.\<close>

inductive mem_reach :: "mem_store \<Rightarrow> bool" where
  reach_new: "mem_reach (NewMemoryStore t)"
| reach_call: "mem_reach s \<Longrightarrow> call_ok m \<Longrightarrow> mem_reach (mem_run m s)"

lemma mem_reach_inv: "mem_reach s \<Longrightarrow> demo_inv s"
  by (induction rule: mem_reach.induct) (auto simp: NewMemoryStore_def demo_inv_reset mem_run_sound)

end
