(* ===== verification/Store_Properties.thy ===== *)
theory Store_Properties
  imports Store_Machine
begin

section \<open>Properties of the in-memory store\<close>

text \<open>
  Functional behaviour of the methods of \<open>MemoryStore\<close> and invariants of the stores they reach,
  each with a witness on a concrete store.
\<close>

subsection \<open>Concrete stores\<close>

text \<open>One payment of 2500 cents on the demo account, created, started and frozen.\<close>

definition ex_payment :: payment where
  "ex_payment = zero_payment\<lparr>pay_id := ''p1'', pay_order := ''o1'', pay_account := ''demo-user'',
     pay_amount := 2500, pay_currency := ''CNY'', pay_status := StatusInit\<rparr>"

definition ex_clock :: clock where
  "ex_clock = (\<lambda>n. int n)"

definition ex_created :: mem_store where
  "ex_created = mem_run (MCreate ex_clock ex_payment ''k1'' ''f1'') (NewMemoryStore 0)"

definition ex_started :: mem_store where
  "ex_started = mem_run (MStart ex_clock ''p1'') ex_created"

definition ex_frozen :: mem_store where
  "ex_frozen = mem_run (MFreeze ex_clock ''p1'') ex_started"

definition ex_callback :: "string \<Rightarrow> callback" where
  "ex_callback out = \<lparr>cb_event_id = ''e1'', cb_sequence = 1, cb_outcome = out, cb_reason = ''''\<rparr>"

definition ex_paid :: mem_store where
  "ex_paid = mem_run (MCallback ex_clock ''p1'' (ex_callback ''success'')) ex_frozen"

lemma ex_new_payment: "new_payment ex_payment"
  by (simp add: new_payment_def ex_payment_def zero_payment_def)

lemma ex_reach: "mem_reach ex_created" "mem_reach ex_started" "mem_reach ex_frozen" "mem_reach ex_paid"
proof -
  show c: "mem_reach ex_created"
    unfolding ex_created_def by (intro reach_call reach_new) (simp add: ex_new_payment)
  show s: "mem_reach ex_started" unfolding ex_started_def by (intro reach_call c) simp
  show f: "mem_reach ex_frozen" unfolding ex_frozen_def by (intro reach_call s) simp
  show "mem_reach ex_paid" unfolding ex_paid_def by (intro reach_call f) simp
qed

lemmas ex_inv = ex_reach [THEN mem_reach_inv] ex_reach [THEN mem_reach_inv, THEN demo_store]

lemma ex_created_fields:
  "payments ex_created = [''p1'' \<mapsto> ex_payment]" "reservations ex_created = Map.empty"
  "accounts ex_created = [''demo-user'' \<mapsto> \<lparr>acc_id = ''demo-user'', acc_available = 1000000,
     acc_frozen = 0, acc_currency = ''CNY'', acc_updated = 0\<rparr>]"
  "callbacksSeen ex_created = Map.empty" "ledger ex_created = []" "ledgerSequence ex_created = 0"
  "idempotency ex_created = [''k1'' \<mapsto> \<lparr>idem_payment = ''p1'', idem_fingerprint = ''f1''\<rparr>]"
  by (simp_all add: ex_created_def mem_CreatePayment_def NewMemoryStore_def resetLocked_def
      ex_payment_def demoBalanceCents_def)

lemma ex_started_fields:
  "payments ex_started = [''p1'' \<mapsto> ex_payment\<lparr>pay_status := StatusProcessing, pay_updated := 0\<rparr>]"
  "reservations ex_started = Map.empty" "accounts ex_started = accounts ex_created"
  "callbacksSeen ex_started = Map.empty" "ledger ex_started = []" "ledgerSequence ex_started = 0"
  by (simp_all add: ex_started_def mem_StartPayment_def Let_def ex_created_fields ex_clock_def)
    (simp_all add: ex_payment_def zero_payment_def)

lemma ex_frozen_fields:
  "payments ex_frozen = payments ex_started"
  "reservations ex_frozen = [''p1'' \<mapsto> \<lparr>res_payment = ''p1'', res_account = ''demo-user'',
     res_amount = 2500, res_state = FROZEN\<rparr>]"
  "accounts ex_frozen = [''demo-user'' \<mapsto> \<lparr>acc_id = ''demo-user'', acc_available = 997500,
     acc_frozen = 2500, acc_currency = ''CNY'', acc_updated = 0\<rparr>]"
  "callbacksSeen ex_frozen = Map.empty" "ledger ex_frozen = []" "ledgerSequence ex_frozen = 0"
  by (simp_all add: ex_frozen_def mem_Freeze_def Let_def ex_started_fields ex_created_fields
      ex_clock_def ex_payment_def word_sless_alt)

lemma ex_paid_fields:
  "payments ex_paid ''p1'' = Some (ex_payment\<lparr>pay_status := StatusSuccess, pay_callback_seq := 1, pay_updated := 3\<rparr>)"
  "ledger ex_paid = [\<lparr>le_id = ''ledger_000001'', le_gid = '''', le_payment = ''p1'',
     le_account = ''demo-user'', le_amount = 2500, le_direction = ''DEBIT'', le_status = '''', le_created = 3\<rparr>]"
  "accounts ex_paid = [''demo-user'' \<mapsto> \<lparr>acc_id = ''demo-user'', acc_available = 997500,
     acc_frozen = 0, acc_currency = ''CNY'', acc_updated = 3\<rparr>]"
  "seen_of ex_paid ''p1'' = {''e1''}"
proof -
  have six: "show_int06 1 = ''000001''" by code_simp
  show "payments ex_paid ''p1'' = Some (ex_payment\<lparr>pay_status := StatusSuccess, pay_callback_seq := 1, pay_updated := 3\<rparr>)"
    "ledger ex_paid = [\<lparr>le_id = ''ledger_000001'', le_gid = '''', le_payment = ''p1'',
       le_account = ''demo-user'', le_amount = 2500, le_direction = ''DEBIT'', le_status = '''', le_created = 3\<rparr>]"
    "accounts ex_paid = [''demo-user'' \<mapsto> \<lparr>acc_id = ''demo-user'', acc_available = 997500,
       acc_frozen = 0, acc_currency = ''CNY'', acc_updated = 3\<rparr>]"
    "seen_of ex_paid ''p1'' = {''e1''}"
    by (simp_all add: ex_paid_def mem_ProcessCallback_def applyCallback_def Let_def ex_frozen_fields
        ex_started_fields ex_callback_def ex_clock_def ex_payment_def zero_payment_def word_sle_eq six)
qed

subsection \<open>Stores that the methods reach\<close>

text \<open>C1. The frozen balance of an account is the sum of its FROZEN reservations, the available
  balance is not negative, and available, frozen and the amounts booked in the ledger for the
  account add up to its initial balance: no cent is lost, created or counted twice, and no 64-bit
  balance wraps around.\<close>

theorem books_balance:
  assumes "mem_reach s" and "accounts s k = Some a"
  shows "sint (acc_frozen a) = map_sum (held k) (reservations s) \<and> 0 \<le> sint (acc_available a) \<and>
    0 \<le> sint (acc_frozen a) \<and>
    sint (acc_available a) + sint (acc_frozen a) + ledger_total s k = sint demoBalanceCents"
  using books [OF demo_store [OF mem_reach_inv [OF assms(1)]] assms(2)]
    account_bounds [OF store_money [OF demo_store [OF mem_reach_inv [OF assms(1)]]] assms(2)]
    money_account [OF store_money [OF demo_store [OF mem_reach_inv [OF assms(1)]]] assms(2)]
  by (simp add: account_ok_def)

theorem books_balance_witness:
  "997500 + 2500 + ledger_total ex_frozen ''demo-user'' = 1000000"
  using books_balance [OF ex_reach(3), of "''demo-user''"] by (simp add: ex_frozen_fields)

text \<open>C10. A payment is SUCCESS exactly when the ledger has an entry for it, there is one entry only,
  and it debits the payment's account by the payment's amount.\<close>

theorem ledger_exact:
  assumes "mem_reach s" and "payments s k = Some p"
  shows "(pay_status p = StatusSuccess \<longleftrightarrow> k \<in> le_payment ` set (ledger s)) \<and>
    (\<forall>e\<in>set (ledger s). le_payment e = k \<longrightarrow>
       le_account e = pay_account p \<and> le_amount e = pay_amount p \<and> le_direction e = ''DEBIT'') \<and>
    length (filter (\<lambda>e. le_payment e = k) (ledger s)) \<le> 1"
proof -
  note led = store_ledger [OF demo_store [OF mem_reach_inv [OF assms(1)]]]
  have entries: "entry_for p e" if "e \<in> set (ledger s)" "le_payment e = k" for e
    using ledger_entry [OF led that(1)] that(2) assms(2) by simp
  have "length (filter (\<lambda>e. le_payment e = k) xs) \<le> 1" if "distinct (map le_payment xs)" for xs
    using that by (induction xs) (auto simp: filter_empty_conv image_iff)
  with entries ledger_success [OF led assms(2)] ledger_distinct [OF led] show ?thesis
    by (auto simp: entry_for_def)
qed

theorem ledger_exact_witness:
  "pay_status ex_payment = StatusInit \<and> ''p1'' \<notin> le_payment ` set (ledger ex_created)"
  using ledger_exact [OF ex_reach(1), of "''p1''" ex_payment]
  by (simp add: ex_created_fields) (simp add: ex_payment_def)

text \<open>The ledger's identifiers count its entries, \<open>ledger_000001\<close>, \<open>ledger_000002\<close> and so on, and
  no two entries share one.\<close>

theorem ledger_numbered:
  assumes "mem_reach s"
  shows "distinct (map le_id (ledger s)) \<and>
    (\<forall>i<length (ledger s). le_id (ledger s ! i) = ''ledger_'' @ show_int06 (int i + 1))"
proof -
  note inv = mem_reach_inv [OF assms]
  have "ledger_id (Suc i) = ''ledger_'' @ show_int06 (int i + 1)" if "i < length (ledger s)" for i
    using that demo_ledger_length [OF inv] by (simp add: ledger_id_def sint64_of_nat add.commute del: of_nat_Suc) (simp add: add.commute)
  then show ?thesis
    using demo_ledger_ids [OF inv] ledger_ids [OF store_ledger [OF demo_store [OF inv]]] by simp
qed

theorem ledger_numbered_witness:
  "le_id (ledger ex_paid ! 0) = ''ledger_000001''"
proof -
  have "show_int06 1 = ''000001''" by code_simp
  with ledger_numbered [OF ex_reach(4)] show ?thesis by (simp add: ex_paid_fields)
qed

text \<open>C23. The event log of a payment replays to its status: the status changes in it connect, from
  nothing to the present status, and the events are numbered 1, 2, 3 and so on.\<close>

theorem log_replays:
  assumes "mem_reach s" and "payments s k = Some p"
  shows "trail StatusNone (events_of s k) = Some (pay_status p) \<and>
    (\<forall>i<length (events_of s k). ev_seq (events_of s k ! i) = of_nat (Suc i))"
proof -
  have "log_ok (status_of s k) (event_seq_of s k) (events_of s k)"
    using store_event [OF demo_store [OF mem_reach_inv [OF assms(1)]]] unfolding event_inv_def by blast
  with assms(2) show ?thesis by (simp add: log_ok_def)
qed

theorem log_replays_witness:
  "trail StatusNone (events_of ex_frozen ''p1'') = Some StatusProcessing"
  using log_replays [OF ex_reach(3), of "''p1''"] by (simp add: ex_frozen_fields ex_started_fields)

text \<open>C3. The methods implement the payment state machine: a call moves the payment it names by one
  step of the machine or not at all, and leaves every other payment and reservation alone.\<close>

theorem methods_refine_machine:
  assumes "mem_reach s" and "call_ok m"
  shows "(view (mem_run m s) (call_target m) = view s (call_target m) \<or>
      pay_step (view s (call_target m)) (view (mem_run m s) (call_target m))) \<and>
    (\<forall>k. k \<noteq> call_target m \<longrightarrow> view (mem_run m s) k = view s k)"
  using machine_call [OF mem_reach_inv [OF assms(1)] assms(2)] unfolding machine_step_def .

theorem methods_refine_machine_witness:
  "view ex_started ''p1'' = view ex_created ''p1'' \<or> pay_step (view ex_created ''p1'') (view ex_started ''p1'')"
  using methods_refine_machine [OF ex_reach(1), of "MStart ex_clock ''p1''"]
  by (simp add: ex_started_def)

text \<open>C17. History only grows: a call keeps every payment with the data of its request, moves its
  status forward only and leaves a payment in a terminal status exactly as it is; event logs and
  the ledger keep their entries and get new ones at the end; idempotency records stay.\<close>

theorem history_grows:
  assumes "mem_reach s" and "call_ok m" and "payments s k = Some p"
  shows "(\<exists>q. payments (mem_run m s) k = Some q \<and> same_request p q \<and>
      status_le (pay_status p) (pay_status q) \<and> (Terminal (pay_status p) \<longrightarrow> q = p)) \<and>
    prefix (events_of s k) (events_of (mem_run m s) k) \<and> prefix (ledger s) (ledger (mem_run m s)) \<and>
    idempotency s \<subseteq>\<^sub>m idempotency (mem_run m s)"
proof -
  have g: "store_grows s (mem_run m s)"
    using mem_run_sound [OF mem_reach_inv [OF assms(1)] assms(2)] by blast
  with grows_payment [OF g assms(3)] show ?thesis
    by (auto simp: payment_grows_def grows_events grows_ledger grows_idem)
qed

theorem history_grows_witness:
  "\<exists>q. payments ex_started ''p1'' = Some q \<and> same_request ex_payment q"
  using history_grows [OF ex_reach(1), of "MStart ex_clock ''p1''" "''p1''" ex_payment]
  by (auto simp: ex_created_fields(1) ex_started_def)

subsection \<open>Callbacks\<close>

text \<open>The account and the amounts behind a frozen reservation of a reachable store.\<close>

lemma frozen_account:
  assumes "mem_reach s" and "payments s pid = Some p" and "reservations s pid = Some r"
    and "res_state r = FROZEN"
  obtains a where "accounts s (pay_account p) = Some a" "acc_id a = pay_account p"
    "res_account r = pay_account p" "res_amount r = pay_amount p"
    "sint (acc_frozen a - pay_amount p) = sint (acc_frozen a) - sint (pay_amount p)"
    "sint (acc_available a + pay_amount p) = sint (acc_available a) + sint (pay_amount p)"
proof -
  note inv = demo_store [OF mem_reach_inv [OF assms(1)]]
  note money = store_money [OF inv]
  have r: "res_account r = pay_account p" "res_amount r = pay_amount p"
    using state_reservation_for [OF store_state [OF inv] assms(2,3)] by (simp_all add: reservation_for_def)
  obtain a where a: "accounts s (pay_account p) = Some a"
    using money_owner [OF money assms(3)] r by auto
  have cov: "sint (pay_amount p) \<le> sint (acc_frozen a)" "0 < sint (pay_amount p)"
    using frozen_covered [OF money assms(3,4), of a] a r money_amount [OF money assms(3)] by simp_all
  note b = account_bounds [OF money a]
  have "sint (acc_frozen a - pay_amount p) = sint (acc_frozen a) - sint (pay_amount p)"
    "sint (acc_available a + pay_amount p) = sint (acc_available a) + sint (pay_amount p)"
    using cov b by (intro int64_arith; simp)+
  with that a r money_owner_id [OF money a] show ?thesis by blast
qed

text \<open>C20. A new success callback on a PROCESSING payment with frozen funds settles it: the payment
  becomes SUCCESS, the reservation CONFIRMED, the frozen balance falls by the amount, the available
  balance stays, and one debit entry for the payment is appended to the ledger.\<close>

theorem callback_success_settles:
  assumes "mem_reach s" and "payments s pid = Some p" and "pay_status p = StatusProcessing"
    and "reservations s pid = Some r" and "res_state r = FROZEN" and "accounts s (pay_account p) = Some a"
    and "cb_outcome cb = ''success''" and "cb_event_id cb \<notin> seen_of s pid"
    and "sint (pay_callback_seq p) < sint (cb_sequence cb)"
  shows "\<exists>t q b e. mem_ProcessCallback c pid cb s =
      (t, Inr \<lparr>cr_payment = q, cr_disposition = CallbackApplied\<rparr>) \<and>
    payments t = (payments s)(pid \<mapsto> q) \<and> pay_status q = StatusSuccess \<and>
    pay_callback_seq q = cb_sequence cb \<and> res_state_of t pid = Some CONFIRMED \<and>
    accounts t (pay_account p) = Some b \<and> acc_available b = acc_available a \<and>
    sint (acc_frozen b) = sint (acc_frozen a) - sint (pay_amount p) \<and>
    ledger t = ledger s @ [e] \<and> le_payment e = pid \<and> le_amount e = pay_amount p \<and>
    le_account e = pay_account p \<and> le_direction e = ''DEBIT''"
proof -
  have a: "acc_id a = pay_account p" "res_account r = pay_account p" "res_amount r = pay_amount p"
    "sint (acc_frozen a - pay_amount p) = sint (acc_frozen a) - sint (pay_amount p)"
    using frozen_account [OF assms(1,2,4,5)] assms(6) by (metis option.inject)+
  show ?thesis
    using assms a
    by (simp add: mem_ProcessCallback_def applyCallback_def Let_def word_sle_eq not_le)
qed

theorem callback_success_settles_witness:
  "\<exists>t q e. mem_ProcessCallback ex_clock ''p1'' (ex_callback ''success'') ex_frozen =
      (t, Inr \<lparr>cr_payment = q, cr_disposition = CallbackApplied\<rparr>) \<and>
    pay_status q = StatusSuccess \<and> ledger t = [e]"
  using callback_success_settles [OF ex_reach(3), of "''p1''" _ _ _ "ex_callback ''success''" ex_clock]
  by (fastforce simp: ex_frozen_fields ex_started_fields ex_callback_def ex_payment_def zero_payment_def)

text \<open>C21. A new failure callback on a PROCESSING payment with frozen funds undoes the reservation: the
  payment becomes FAILED, the reservation CANCELLED, the amount moves back from the frozen to the
  available balance, and the ledger gets no entry.\<close>

theorem callback_failure_releases:
  assumes "mem_reach s" and "payments s pid = Some p" and "pay_status p = StatusProcessing"
    and "reservations s pid = Some r" and "res_state r = FROZEN" and "accounts s (pay_account p) = Some a"
    and "cb_outcome cb = ''failed''" and "cb_event_id cb \<notin> seen_of s pid"
    and "sint (pay_callback_seq p) < sint (cb_sequence cb)"
  shows "\<exists>t q b. mem_ProcessCallback c pid cb s =
      (t, Inr \<lparr>cr_payment = q, cr_disposition = CallbackApplied\<rparr>) \<and>
    payments t = (payments s)(pid \<mapsto> q) \<and> pay_status q = StatusFailed \<and>
    pay_failure q = (if cb_reason cb = '''' then ''channel reported failure'' else cb_reason cb) \<and>
    res_state_of t pid = Some CANCELLED \<and> accounts t (pay_account p) = Some b \<and>
    sint (acc_available b) = sint (acc_available a) + sint (pay_amount p) \<and>
    sint (acc_frozen b) = sint (acc_frozen a) - sint (pay_amount p) \<and> ledger t = ledger s"
proof -
  have a: "acc_id a = pay_account p" "res_account r = pay_account p" "res_amount r = pay_amount p"
    "sint (acc_frozen a - pay_amount p) = sint (acc_frozen a) - sint (pay_amount p)"
    "sint (acc_available a + pay_amount p) = sint (acc_available a) + sint (pay_amount p)"
    using frozen_account [OF assms(1,2,4,5)] assms(6) by (metis option.inject)+
  show ?thesis
    using assms a
    by (simp add: mem_ProcessCallback_def applyCallback_def Let_def word_sle_eq not_le releaseLocked_def)
qed

theorem callback_failure_releases_witness:
  "\<exists>t q. mem_ProcessCallback ex_clock ''p1'' (ex_callback ''failed'') ex_frozen =
      (t, Inr \<lparr>cr_payment = q, cr_disposition = CallbackApplied\<rparr>) \<and>
    pay_failure q = ''channel reported failure'' \<and> ledger t = []"
  using callback_failure_releases [OF ex_reach(3), of "''p1''" _ _ _ "ex_callback ''failed''" ex_clock]
  by (fastforce simp: ex_frozen_fields ex_started_fields ex_callback_def ex_payment_def zero_payment_def)

text \<open>The event id of a callback that got past the duplicate check is remembered.\<close>

lemma callback_seen:
  assumes "mem_ProcessCallback c pid cb s = (t, r)" and "(\<exists>res. r = Inr res) \<or> r = Inl ErrInvalidTransition"
  shows "payments s pid \<noteq> None" and "cb_event_id cb \<in> seen_of t pid"
proof -
  have out: "cb_outcome cb = ''success'' \<or> cb_outcome cb = ''failed''" and p: "payments s pid \<noteq> None"
    using assms by (auto simp: mem_ProcessCallback_def split: option.splits if_splits)
  show "payments s pid \<noteq> None" by (rule p)
  have "cb_event_id cb \<in> seen_of (fst (mem_ProcessCallback c pid cb s)) pid"
    using out p by (auto simp: mem_ProcessCallback_def Let_def applyCallback_seen)
  with assms(1) show "cb_event_id cb \<in> seen_of t pid" by simp
qed

lemma callback_duplicate:
  assumes "cb_event_id cb \<in> seen_of u pid" and "payments u pid = Some q"
    and "cb_outcome cb = ''success'' \<or> cb_outcome cb = ''failed''"
  shows "mem_ProcessCallback c pid cb u =
      (appendIgnoredCallbackLocked (c 0) pid ''CALLBACK_DUPLICATE'' cb ''event id was already processed'' u,
       Inr \<lparr>cr_payment = q, cr_disposition = CallbackDuplicate\<rparr>)"
  using assms by (auto simp: mem_ProcessCallback_def)

lemma later_duplicate:
  assumes "mem_ProcessCallback c pid cb s = (t, r)" and "(\<exists>res. r = Inr res) \<or> r = Inl ErrInvalidTransition"
    and "store_grows s t" and "store_grows t u" and "cb_event_id cb' = cb_event_id cb"
    and "cb_outcome cb' = ''success'' \<or> cb_outcome cb' = ''failed''"
  shows "\<exists>v q. mem_ProcessCallback c' pid cb' u = (v, Inr \<lparr>cr_payment = q, cr_disposition = CallbackDuplicate\<rparr>) \<and>
    payments u pid = Some q \<and> payments v = payments u \<and> accounts v = accounts u \<and>
    reservations v = reservations u \<and> ledger v = ledger u"
proof -
  note grows = store_grows_trans [OF assms(3,4)]
  obtain q where q: "payments u pid = Some q"
    using callback_seen(1) [OF assms(1,2)] grows_payment [OF grows] by blast
  have "cb_event_id cb' \<in> seen_of u pid"
    using callback_seen(2) [OF assms(1,2)] grows_seen [OF assms(4), of pid] assms(5) by auto
  from callback_duplicate [OF this q assms(6)] q show ?thesis by simp
qed

text \<open>C16. A callback takes effect at most once: whatever the store does after a callback has been
  answered, another callback with its event id for the payment is answered as a duplicate and
  changes no payment, balance, reservation or ledger entry, also when its content differs.\<close>

theorem callback_at_most_once:
  assumes "mem_reach s" and "mem_ProcessCallback c pid cb s = (t, Inr res)" and "store_grows t u"
    and "cb_event_id cb' = cb_event_id cb" and "cb_outcome cb' = ''success'' \<or> cb_outcome cb' = ''failed''"
  shows "\<exists>v q. mem_ProcessCallback c' pid cb' u = (v, Inr \<lparr>cr_payment = q, cr_disposition = CallbackDuplicate\<rparr>) \<and>
    payments u pid = Some q \<and> payments v = payments u \<and> accounts v = accounts u \<and>
    reservations v = reservations u \<and> ledger v = ledger u"
proof -
  have "store_grows s t"
    using mem_run_sound [OF mem_reach_inv [OF assms(1)], of "MCallback c pid cb"] assms(2) by simp
  with later_duplicate [OF assms(2) _ _ assms(3-5)] show ?thesis by blast
qed

theorem callback_at_most_once_witness:
  "\<exists>v q. mem_ProcessCallback ex_clock ''p1'' (ex_callback ''failed'') ex_paid =
      (v, Inr \<lparr>cr_payment = q, cr_disposition = CallbackDuplicate\<rparr>) \<and> ledger v = ledger ex_paid"
proof -
  obtain t q where "mem_ProcessCallback ex_clock ''p1'' (ex_callback ''success'') ex_frozen =
      (t, Inr \<lparr>cr_payment = q, cr_disposition = CallbackApplied\<rparr>)"
    using applyCallback_def by (auto simp: mem_ProcessCallback_def applyCallback_def Let_def ex_frozen_fields
        ex_started_fields ex_callback_def ex_payment_def zero_payment_def word_sle_eq)
  moreover from this have "t = ex_paid" by (simp add: ex_paid_def)
  ultimately show ?thesis
    using callback_at_most_once [OF ex_reach(3), of ex_clock "''p1''" "ex_callback ''success''" t _ t
        "ex_callback ''failed''" ex_clock]
    by (auto simp: ex_callback_def)
qed

text \<open>A callback whose sequence does not advance, or that arrives for a payment in a terminal
  status, changes no payment, balance, reservation or ledger entry, and the answer says which of
  the two it was.\<close>

theorem stale_callback_ignored:
  assumes "payments s pid = Some p" and "cb_event_id cb \<notin> seen_of s pid"
    and "sint (cb_sequence cb) \<le> sint (pay_callback_seq p) \<or> Terminal (pay_status p)"
    and "cb_outcome cb = ''success'' \<or> cb_outcome cb = ''failed''"
  shows "\<exists>t. mem_ProcessCallback c pid cb s =
      (t, Inr \<lparr>cr_payment = p,
        cr_disposition = (if sint (cb_sequence cb) \<le> sint (pay_callback_seq p)
          then CallbackOutOfOrder else CallbackTerminalIgnored)\<rparr>) \<and>
    payments t = payments s \<and> accounts t = accounts s \<and> reservations t = reservations s \<and>
    ledger t = ledger s \<and> length (events_of t pid) = length (events_of s pid) + 1"
  using assms
  by (auto simp: mem_ProcessCallback_def Let_def word_sle_eq appendIgnoredCallbackLocked_def
      appendEventLocked_def)

theorem stale_callback_ignored_witness:
  "\<exists>t p. mem_ProcessCallback ex_clock ''p1'' \<lparr>cb_event_id = ''e2'', cb_sequence = 7,
      cb_outcome = ''failed'', cb_reason = ''''\<rparr> ex_paid =
    (t, Inr \<lparr>cr_payment = p, cr_disposition = CallbackTerminalIgnored\<rparr>) \<and> ledger t = ledger ex_paid"
  using stale_callback_ignored [OF ex_paid_fields(1), of "\<lparr>cb_event_id = ''e2'', cb_sequence = 7,
      cb_outcome = ''failed'', cb_reason = ''''\<rparr>" ex_clock]
  by (auto simp: ex_paid_fields)

text \<open>C38. A callback that fails with ErrInvalidTransition is lost: the store has already remembered
  its event id, so when the channel sends it again, after whatever else has happened to the
  store, it is answered as a duplicate and the payment stays as it is.\<close>

theorem failed_callback_lost:
  assumes "mem_reach s" and "mem_ProcessCallback c pid cb s = (t, Inl ErrInvalidTransition)"
    and "store_grows t u" and "cb_outcome cb = ''success'' \<or> cb_outcome cb = ''failed''"
  shows "payments t = payments s \<and>
    (\<exists>v q. mem_ProcessCallback c' pid cb u = (v, Inr \<lparr>cr_payment = q, cr_disposition = CallbackDuplicate\<rparr>) \<and>
      payments u pid = Some q \<and> payments v = payments u \<and> ledger v = ledger u)"
proof -
  have "store_grows s t"
    using mem_run_sound [OF mem_reach_inv [OF assms(1)], of "MCallback c pid cb"] assms(2) by simp
  moreover have "payments t = payments s"
    using assms(2) by (auto simp: mem_ProcessCallback_def applyCallback_def Let_def
        split: option.splits if_splits)
  ultimately show ?thesis
    using later_duplicate [OF assms(2) _ _ assms(3) refl assms(4)] by blast
qed

theorem failed_callback_lost_witness:
  "\<exists>t. mem_ProcessCallback ex_clock ''p1'' (ex_callback ''success'') ex_created = (t, Inl ErrInvalidTransition) \<and>
    (\<exists>v q. mem_ProcessCallback ex_clock ''p1'' (ex_callback ''success'')
        (mem_run (MFreeze ex_clock ''p1'') (mem_run (MStart ex_clock ''p1'') t)) =
      (v, Inr \<lparr>cr_payment = q, cr_disposition = CallbackDuplicate\<rparr>))"
proof -
  obtain t where t: "mem_ProcessCallback ex_clock ''p1'' (ex_callback ''success'') ex_created =
      (t, Inl ErrInvalidTransition)"
    by (auto simp: mem_ProcessCallback_def Let_def ex_created_fields ex_callback_def ex_payment_def
        zero_payment_def word_sle_eq)
  then have reach: "mem_reach t"
    using reach_call [OF ex_reach(1), of "MCallback ex_clock ''p1'' (ex_callback ''success'')"] by simp
  note step = mem_run_sound [OF mem_reach_inv [OF reach], of "MStart ex_clock ''p1''"]
  have "store_grows t (mem_run (MFreeze ex_clock ''p1'') (mem_run (MStart ex_clock ''p1'') t))"
    using step mem_run_sound [of "mem_run (MStart ex_clock ''p1'') t" "MFreeze ex_clock ''p1''"]
    by (auto intro: store_grows_trans simp del: mem_run.simps)
  with failed_callback_lost [OF ex_reach(1) t] t show ?thesis
    by (fastforce simp: ex_callback_def simp del: mem_run.simps)
qed

subsection \<open>Freezing and releasing\<close>

text \<open>C22. Freezing a PROCESSING payment that has no reservation moves its amount from the available
  to the frozen balance when the available balance covers it, and is refused with
  ErrInsufficientFunds, the store unchanged, exactly when it does not.\<close>

theorem freeze_reserves:
  assumes "mem_reach s" and "payments s pid = Some p" and "pay_status p = StatusProcessing"
    and "reservations s pid = None" and "accounts s (pay_account p) = Some a"
  shows "if sint (acc_available a) < sint (pay_amount p)
    then mem_Freeze c pid s = (s, Inl ErrInsufficientFunds)
    else \<exists>t b. mem_Freeze c pid s = (t, Inr p) \<and> accounts t (pay_account p) = Some b \<and>
      sint (acc_available b) = sint (acc_available a) - sint (pay_amount p) \<and>
      sint (acc_frozen b) = sint (acc_frozen a) + sint (pay_amount p) \<and>
      reservations t pid = Some \<lparr>res_payment = pid, res_account = pay_account p,
        res_amount = pay_amount p, res_state = FROZEN\<rparr> \<and>
      payments t = payments s \<and> ledger t = ledger s"
proof (cases "sint (acc_available a) < sint (pay_amount p)")
  case True
  with assms(2-5) show ?thesis by (simp add: mem_Freeze_def word_sless_alt)
next
  case False
  note inv = demo_store [OF mem_reach_inv [OF assms(1)]]
  note b = account_bounds [OF store_money [OF inv] assms(5)]
  have pos: "0 < sint (pay_amount p)"
    using state_payment [OF store_state [OF inv] assms(2)] by (simp add: payment_ok_def)
  have "sint (acc_available a - pay_amount p) = sint (acc_available a) - sint (pay_amount p)"
    "sint (acc_frozen a + pay_amount p) = sint (acc_frozen a) + sint (pay_amount p)"
    using False b pos by (intro int64_arith; simp)+
  with False assms(2-5) money_owner_id [OF store_money [OF inv] assms(5)] show ?thesis
    by (simp add: mem_Freeze_def word_sless_alt Let_def)
qed

theorem freeze_reserves_witness:
  "\<exists>t b. mem_Freeze ex_clock ''p1'' ex_started =
      (t, Inr (ex_payment\<lparr>pay_status := StatusProcessing, pay_updated := 0\<rparr>)) \<and>
    accounts t ''demo-user'' = Some b \<and> sint (acc_frozen b) = 2500"
  using freeze_reserves [OF ex_reach(2), of "''p1''"
      "ex_payment\<lparr>pay_status := StatusProcessing, pay_updated := 0\<rparr>" _ ex_clock]
  by (auto simp: ex_started_fields ex_created_fields) (auto simp: ex_payment_def)

text \<open>Cancelling undoes freezing: when a payment is frozen and then fails, the account has the
  balances it had before, the payment is FAILED with the reason given, and the reservation is
  CANCELLED, so that a later freeze or cancel cannot move the money again.\<close>

theorem cancel_undoes_freeze:
  assumes "mem_reach s" and "payments s pid = Some p" and "pay_status p = StatusProcessing"
    and "reservations s pid = None" and "mem_Freeze c pid s = (t, Inr p)"
  shows "\<exists>u q a b. mem_FailAndRelease c' pid reason t = (u, Inr q) \<and> pay_status q = StatusFailed \<and>
    pay_failure q = reason \<and> res_state_of u pid = Some CANCELLED \<and> ledger u = ledger s \<and>
    accounts s (pay_account p) = Some a \<and> accounts u (pay_account p) = Some b \<and>
    acc_available b = acc_available a \<and> acc_frozen b = acc_frozen a \<and>
    (\<forall>k. k \<noteq> pay_account p \<longrightarrow> accounts u k = accounts s k)"
proof -
  note inv = demo_store [OF mem_reach_inv [OF assms(1)]]
  obtain a where a: "accounts s (pay_account p) = Some a" "\<not> acc_available a <s pay_amount p"
    using assms(2-5) by (auto simp: mem_Freeze_def Let_def split: option.splits if_splits)
  have id: "acc_id a = pay_account p" using money_owner_id [OF store_money [OF inv] a(1)] .
  have t: "t = fst (mem_Freeze c pid s)" using assms(5) by simp
  show ?thesis
    unfolding t using assms(2-4) a id
    by (simp add: mem_Freeze_def mem_FailAndRelease_def Let_def releaseLocked_def)
qed

theorem cancel_undoes_freeze_witness:
  "\<exists>u q. mem_FailAndRelease ex_clock ''p1'' ''timeout'' ex_frozen = (u, Inr q) \<and>
    pay_failure q = ''timeout'' \<and> ledger u = []"
proof -
  have "mem_Freeze ex_clock ''p1'' ex_started =
      (ex_frozen, Inr (ex_payment\<lparr>pay_status := StatusProcessing, pay_updated := 0\<rparr>))"
    unfolding ex_frozen_def
    by (auto simp: mem_Freeze_def Let_def ex_started_fields ex_created_fields ex_payment_def word_sless_alt)
  with cancel_undoes_freeze [OF ex_reach(2), of "''p1''" _ ex_clock ex_frozen ex_clock "''timeout''"]
  show ?thesis by (auto simp: ex_started_fields)
qed

subsection \<open>Errors\<close>

fun mem_error :: "mem_call \<Rightarrow> mem_store \<Rightarrow> go_error option" where
  "mem_error (MCreate c p key fp) s =
     (case snd (mem_CreatePayment c p key fp s) of Inl e \<Rightarrow> Some e | Inr _ \<Rightarrow> None)"
| "mem_error (MStart c pid) s = (case snd (mem_StartPayment c pid s) of Inl e \<Rightarrow> Some e | Inr _ \<Rightarrow> None)"
| "mem_error (MFreeze c pid) s = (case snd (mem_Freeze c pid s) of Inl e \<Rightarrow> Some e | Inr _ \<Rightarrow> None)"
| "mem_error (MFail c pid reason) s =
     (case snd (mem_FailAndRelease c pid reason s) of Inl e \<Rightarrow> Some e | Inr _ \<Rightarrow> None)"
| "mem_error (MCallback c pid cb) s =
     (case snd (mem_ProcessCallback c pid cb s) of Inl e \<Rightarrow> Some e | Inr _ \<Rightarrow> None)"
| "mem_error (MClose c pid reason) s =
     (case snd (mem_ClosePayment c pid reason s) of Inl e \<Rightarrow> Some e | Inr _ \<Rightarrow> None)"
| "mem_error (MRecord c pid ty m md) s =
     (case snd (mem_RecordEvent c pid ty m md s) of Inl e \<Rightarrow> Some e | Inr _ \<Rightarrow> None)"

fun is_callback :: "mem_call \<Rightarrow> bool" where
  "is_callback (MCallback c pid cb) = True"
| "is_callback _ = False"

definition fails_clean :: "(mem_store, 'a) store_method \<Rightarrow> mem_store \<Rightarrow> bool" where
  "fails_clean f s \<longleftrightarrow> (case snd (f s) of Inl e \<Rightarrow> fst (f s) = s | Inr _ \<Rightarrow> True)"

lemma clean_create: "fails_clean (mem_CreatePayment c p key fp) s"
  by (simp add: fails_clean_def mem_CreatePayment_def split: option.split)

lemma clean_start: "fails_clean (mem_StartPayment c pid) s"
  by (simp add: fails_clean_def mem_StartPayment_def Let_def split: option.split)

lemma clean_freeze: "fails_clean (mem_Freeze c pid) s"
  by (simp add: fails_clean_def mem_Freeze_def Let_def split: option.split)

lemma clean_fail: "fails_clean (mem_FailAndRelease c pid reason) s"
  by (simp add: fails_clean_def mem_FailAndRelease_def Let_def split: option.split)

lemma clean_close: "fails_clean (mem_ClosePayment c pid reason) s"
  by (simp add: fails_clean_def mem_ClosePayment_def Let_def split: option.split)

lemma clean_record: "fails_clean (mem_RecordEvent c pid ty m md) s"
  by (simp add: fails_clean_def mem_RecordEvent_def split: option.split)

lemma error_frames: "fails_clean f s \<Longrightarrow> snd (f s) = Inl e \<Longrightarrow> fst (f s) = s"
  by (simp add: fails_clean_def)

lemma error_frame:
  "mem_error m s = Some e \<Longrightarrow> \<not> is_callback m \<Longrightarrow> mem_run m s = s"
  by (cases m) (auto split: sum.splits dest: error_frames [OF clean_create]
      error_frames [OF clean_start] error_frames [OF clean_freeze] error_frames [OF clean_fail]
      error_frames [OF clean_close] error_frames [OF clean_record])

lemma clean_apply:
  "cb_outcome cb = ''success'' \<or> cb_outcome cb = ''failed'' \<Longrightarrow> fails_clean (applyCallback c pid cb st p) s"
  by (simp add: fails_clean_def applyCallback_def Let_def split: option.split)

definition same_books :: "mem_store \<Rightarrow> mem_store \<Rightarrow> bool" where
  "same_books s t \<longleftrightarrow> payments t = payments s \<and> accounts t = accounts s \<and>
     reservations t = reservations s \<and> ledger t = ledger s \<and> ledgerSequence t = ledgerSequence s \<and>
     idempotency t = idempotency s"

lemma same_books_refl [simp]: "same_books s s"
  by (simp add: same_books_def)

lemma callback_error_frame:
  assumes err: "snd (mem_ProcessCallback c pid cb s) = Inl e"
  shows "same_books s (fst (mem_ProcessCallback c pid cb s))"
proof (cases "payments s pid")
  case None
  then show ?thesis by (simp add: mem_ProcessCallback_def)
next
  case (Some p0)
  let ?s1 = "s\<lparr>callbacksSeen := (callbacksSeen s)(pid \<mapsto> insert (cb_event_id cb) (seen_of s pid))\<rparr>"
  let ?s2 = "appendEventLocked (c 4) pid (new_event ''CALLBACK_ACCEPTED'' StatusNone StatusNone
    ''channel callback passed duplicate and ordering checks'' (callbackMetadata cb)) ?s1"
  have "same_books s (fst (applyCallback c pid cb st p ?s2))"
    if "snd (applyCallback c pid cb st p ?s2) = Inl e" "cb_outcome cb = ''success'' \<or> cb_outcome cb = ''failed''"
    for st p
    using error_frames [OF clean_apply [OF that(2)] that(1)] by (simp add: same_books_def)
  with Some err show ?thesis
    by (auto simp: mem_ProcessCallback_def Let_def same_books_def split: if_splits)
qed

text \<open>C24. A method that returns an error leaves the store as it was. \<open>ProcessCallback\<close> is the
  exception: with an error it may have remembered the event id and noted the callback in the event
  log, but payments, balances, reservations, ledger (with its next number) and
  idempotency records are unchanged.\<close>

theorem errors_change_nothing:
  assumes "mem_error m s = Some e" and "t = mem_run m s"
  shows "(is_callback m \<or> t = s) \<and> payments t = payments s \<and> accounts t = accounts s \<and>
    reservations t = reservations s \<and> ledger t = ledger s \<and> ledgerSequence t = ledgerSequence s \<and>
    idempotency t = idempotency s"
proof (cases "is_callback m")
  case True
  then obtain c pid cb where m: "m = MCallback c pid cb" by (cases m) auto
  then have "snd (mem_ProcessCallback c pid cb s) = Inl e"
    using assms(1) by (simp split: sum.splits)
  from callback_error_frame [OF this] assms(2) m show ?thesis by (simp add: same_books_def)
next
  case False
  with error_frame [OF assms(1)] assms(2) show ?thesis by simp
qed

theorem errors_change_nothing_witness:
  "mem_run (MStart ex_clock ''p2'') ex_created = ex_created"
  using errors_change_nothing [of "MStart ex_clock ''p2''" ex_created ErrNotFound]
  by (simp add: mem_StartPayment_def ex_created_fields)

subsection \<open>Reading\<close>

lemma map_filter_dom: "set ks \<subseteq> dom m \<Longrightarrow> List.map_filter m ks = map (the \<circ> m) ks"
  by (induction ks) (auto simp: map_filter_simps)

text \<open>\<open>ListPayments\<close> returns every payment once, newest first, whatever order the range over the
  map has.\<close>

theorem list_newest_first:
  assumes "map_order (payments s) ks"
  shows "\<exists>ps. mem_ListPayments ks s = (s, Inr ps) \<and> set ps = ran (payments s) \<and>
    length ps = card (dom (payments s)) \<and>
    sorted_wrt (\<lambda>p q. pay_created q \<le> pay_created p) ps"
proof -
  let ?xs = "List.map_filter (payments s) ks"
  let ?ps = "sort_key (\<lambda>p. - pay_created p) ?xs"
  have ks: "distinct ks" "set ks = dom (payments s)" using assms by (simp_all add: map_order_def)
  then have xs: "?xs = map (the \<circ> payments s) ks" by (simp add: map_filter_dom)
  have "sorted (map (\<lambda>p. - pay_created p) ?ps)" by (rule sorted_sort_key)
  then have "sorted_wrt (\<lambda>p q. pay_created q \<le> pay_created p) ?ps"
    by (simp add: sorted_wrt_map)
  moreover have "set ?ps = ran (payments s)"
    using ks(2) by (force simp: xs ran_def)
  moreover have "length ?ps = card (dom (payments s))"
    using ks by (simp add: xs flip: distinct_card)
  ultimately show ?thesis by (simp add: mem_ListPayments_def)
qed

theorem list_newest_first_witness:
  "\<exists>ps. mem_ListPayments [''p1''] ex_created = (ex_created, Inr ps) \<and> set ps = {ex_payment}"
  using list_newest_first [of ex_created "[''p1'']"]
  by (auto simp: map_order_def ex_created_fields)

lemma fold_count_status:
  "map_get (fold count_status ps m) st 0 = map_get m st 0 + length (filter (\<lambda>p. pay_status p = st) ps)"
  by (induction ps arbitrary: m) (simp_all add: count_status_def map_get_def)

lemma filter_map_filter:
  "length (filter (\<lambda>p. pay_status p = st) (List.map_filter m ks)) =
   length (filter (\<lambda>k. map_option pay_status (m k) = Some st) ks)"
  by (induction ks) (auto simp: map_filter_simps split: option.split)

text \<open>\<open>Snapshot\<close> counts the payments and, for every status, the payments in it, whatever order
  the range over the map has.\<close>

theorem snapshot_counts:
  assumes "map_order (payments s) ks"
  shows "\<exists>snap. mem_Snapshot ks s = (s, Inr snap) \<and> snap_payments snap = card (dom (payments s)) \<and>
    (\<forall>st. map_get (snap_status_counts snap) st 0 = card {k. status_of s k = Some st}) \<and>
    snap_accounts snap = card (dom (accounts s)) \<and> snap_ledger snap = length (ledger s)"
proof -
  have ks: "distinct ks" "set ks = dom (payments s)" using assms by (simp_all add: map_order_def)
  have "length (filter (\<lambda>p. pay_status p = st) (List.map_filter (payments s) ks))
      = card {k. status_of s k = Some st}" for st
  proof -
    have "length (filter (\<lambda>p. pay_status p = st) (List.map_filter (payments s) ks))
        = length (filter (\<lambda>k. status_of s k = Some st) ks)"
      by (rule filter_map_filter)
    also have "\<dots> = card (set (filter (\<lambda>k. status_of s k = Some st) ks))"
      using ks(1) by (subst distinct_card) auto
    also have "set (filter (\<lambda>k. status_of s k = Some st) ks) = {k. status_of s k = Some st}"
      using ks(2) by auto
    finally show ?thesis .
  qed
  then show ?thesis by (simp add: mem_Snapshot_def fold_count_status)
qed

theorem snapshot_counts_witness:
  "\<exists>snap. mem_Snapshot [''p1''] ex_created = (ex_created, Inr snap) \<and> snap_payments snap = 1"
  using snapshot_counts [of ex_created "[''p1'']"]
  by (auto simp: map_order_def ex_created_fields)

end
