(* ===== verification/Programs.thy ===== *)
theory Programs
  imports Domain
begin

section \<open>Requests as programs of atomic steps\<close>

text \<open>
  A request runs in its own goroutine; what other requests can see of it are its atomic steps on
  the shared state: a method that runs under a mutex, an atomic counter, the acquisition of a
  lock. A program is such a step with the rest of the program, or the request's result. A step
  that is blocked (\<open>Lock\<close> on a held mutex) has no successor. \<open>exec\<close> runs a program alone;
  \<open>pool_step\<close> interleaves any number of programs, where new ones may arrive at any time.
\<close>

subsection \<open>Programs\<close>

datatype (dead 's, 'r) prog = Ret 'r | Step "'s \<Rightarrow> ('s \<times> ('s, 'r) prog) option"

primrec exec :: "('s, 'r) prog \<Rightarrow> 's \<Rightarrow> ('s \<times> 'r) option" where
  "exec (Ret r) = (\<lambda>s. Some (s, r))"
| "exec (Step f) = (\<lambda>s. case map_option (map_prod id exec) (f s) of
     None \<Rightarrow> None | Some (t, k) \<Rightarrow> k t)"

lemma exec_Step:
  "exec (Step f) s = (case f s of None \<Rightarrow> None | Some (t, p) \<Rightarrow> exec p t)"
  by (simp split: option.split prod.split)

declare exec.simps(2) [simp del]
declare exec_Step [simp]

text \<open>\<open>bind_prog p k\<close> runs \<open>p\<close> and then \<open>k\<close> on its result.\<close>

primrec bind_prog :: "('s, 'a) prog \<Rightarrow> ('a \<Rightarrow> ('s, 'b) prog) \<Rightarrow> ('s, 'b) prog" where
  "bind_prog (Ret r) = (\<lambda>k. k r)"
| "bind_prog (Step f) = (\<lambda>k. Step (\<lambda>s. map_option (map_prod id (\<lambda>g. g k))
     (map_option (map_prod id bind_prog) (f s))))"

lemma bind_Step:
  "bind_prog (Step f) k = Step (\<lambda>s. map_option (map_prod id (\<lambda>p. bind_prog p k)) (f s))"
  by (simp add: option.map_comp prod.map_comp o_def id_def)

declare bind_prog.simps(2) [simp del]
declare bind_Step [simp]

lemma exec_bind:
  "exec (bind_prog p k) s = (case exec p s of None \<Rightarrow> None | Some (t, r) \<Rightarrow> exec (k r) t)"
proof (induction p arbitrary: s)
  case (Ret r)
  show ?case by simp
next
  case (Step f)
  show ?case
  proof (cases "f s")
    case None
    then show ?thesis by simp
  next
    case (Some tp)
    obtain t p where tp: "tp = (t, p)" by (cases tp)
    have "exec (bind_prog p k) t = (case exec p t of None \<Rightarrow> None | Some (u, r) \<Rightarrow> exec (k r) u)"
      using Some tp by (intro Step.IH [of "f s" tp]) (auto simp: image_iff intro!: exI [of _ s])
    with Some tp show ?thesis by simp
  qed
qed

text \<open>An atomic step that cannot block.\<close>

definition act :: "('s \<Rightarrow> 's \<times> 'a) \<Rightarrow> ('a \<Rightarrow> ('s, 'r) prog) \<Rightarrow> ('s, 'r) prog" where
  "act f k = Step (\<lambda>s. case f s of (t, a) \<Rightarrow> Some (t, k a))"

lemma exec_act [simp]: "exec (act f k) s = (case f s of (t, a) \<Rightarrow> exec (k a) t)"
  by (simp add: act_def split: prod.split)

lemma bind_act [simp]: "bind_prog (act f k) h = act f (\<lambda>a. bind_prog (k a) h)"
  by (simp add: act_def) (auto intro!: ext split: prod.split)

subsection \<open>What a program ensures among others\<close>

text \<open>
  \<open>ensures I G Q s p\<close>: the program \<open>p\<close>, last scheduled in the state \<open>s\<close>, keeps the invariant \<open>I\<close>
  with every step and relates the state before and after the step by \<open>G\<close>, and it returns only
  results \<open>r\<close> with \<open>Q t r\<close> in the state \<open>t\<close> it returns in -- whatever other programs do before
  each of its steps, as long as they keep \<open>I\<close> and change the state by \<open>G\<close> only.
\<close>

inductive ensures ::
  "('s \<Rightarrow> bool) \<Rightarrow> ('s \<Rightarrow> 's \<Rightarrow> bool) \<Rightarrow> ('s \<Rightarrow> 'r \<Rightarrow> bool) \<Rightarrow> 's \<Rightarrow> ('s, 'r) prog \<Rightarrow> bool"
  for I :: "'s \<Rightarrow> bool" and G :: "'s \<Rightarrow> 's \<Rightarrow> bool" and Q :: "'s \<Rightarrow> 'r \<Rightarrow> bool" where
  ensures_Ret: "Q s r \<Longrightarrow> ensures I G Q s (Ret r)"
| ensures_Step: "(\<And>s' t p. G s s' \<Longrightarrow> I s' \<Longrightarrow> f s' = Some (t, p) \<Longrightarrow> I t \<and> G s' t \<and> ensures I G Q t p) \<Longrightarrow>
    ensures I G Q s (Step f)"

inductive_simps ensures_Ret_iff [simp]: "ensures I G Q s (Ret r)"
inductive_cases ensures_StepE: "ensures I G Q s (Step f)"

lemma ensures_StepD:
  "ensures I G Q s (Step f) \<Longrightarrow> G s s' \<Longrightarrow> I s' \<Longrightarrow> f s' = Some (t, p) \<Longrightarrow>
   I t \<and> G s' t \<and> ensures I G Q t p"
  by (blast elim: ensures_StepE)

text \<open>The claim survives what others do, if the claim about the result does.\<close>

definition stable :: "('s \<Rightarrow> 's \<Rightarrow> bool) \<Rightarrow> ('s \<Rightarrow> 'r \<Rightarrow> bool) \<Rightarrow> bool" where
  "stable G Q \<longleftrightarrow> (\<forall>s t r. Q s r \<longrightarrow> G s t \<longrightarrow> Q t r)"

lemma stableD: "stable G Q \<Longrightarrow> Q s r \<Longrightarrow> G s t \<Longrightarrow> Q t r"
  by (auto simp: stable_def)

lemma ensures_later:
  assumes "ensures I G Q s p" and "G s t" and "transp G" and "stable G Q"
  shows "ensures I G Q t p"
  using assms(1)
proof (cases rule: ensures.cases)
  case (ensures_Ret r)
  with assms show ?thesis by (auto dest: stableD)
next
  case (ensures_Step f)
  with assms(2,3) show ?thesis by (auto intro!: ensures.ensures_Step dest: transpD)
qed

text \<open>The results also come in states with \<open>I\<close> that are \<open>G\<close>-later than where the program was.\<close>

lemma ensures_since:
  "ensures I G Q s p \<Longrightarrow> I s \<Longrightarrow> G s0 s \<Longrightarrow> transp G \<Longrightarrow>
   ensures I G (\<lambda>t r. Q t r \<and> I t \<and> G s0 t) s p"
proof (induction rule: ensures.induct)
  case (ensures_Ret s r)
  then show ?case by simp
next
  case (ensures_Step s f)
  show ?case
  proof (rule ensures.ensures_Step)
    fix s' t p
    assume s': "G s s'" "I s'" "f s' = Some (t, p)"
    then have "I t" "G s' t" using ensures_Step.IH by blast+
    moreover from this s' ensures_Step.prems have "G s0 t" by (blast dest: transpD)
    ultimately show "I t \<and> G s' t \<and> ensures I G (\<lambda>t r. Q t r \<and> I t \<and> G s0 t) t p"
      using ensures_Step.IH s' ensures_Step.prems by blast
  qed
qed

lemma ensures_weaken:
  "ensures I G Q s p \<Longrightarrow> (\<And>t r. Q t r \<Longrightarrow> Q' t r) \<Longrightarrow> ensures I G Q' s p"
proof (induction rule: ensures.induct)
  case (ensures_Ret s r)
  then show ?case by simp
next
  case (ensures_Step s f)
  then show ?case by (blast intro: ensures.ensures_Step)
qed

lemma ensures_if:
  "(b \<Longrightarrow> ensures I G Q s p) \<Longrightarrow> (\<not> b \<Longrightarrow> ensures I G Q s q) \<Longrightarrow> ensures I G Q s (if b then p else q)"
  by simp

lemma ensures_act:
  "(\<And>s' t a. G s s' \<Longrightarrow> I s' \<Longrightarrow> f s' = (t, a) \<Longrightarrow> I t \<and> G s' t \<and> ensures I G Q t (k a)) \<Longrightarrow>
   ensures I G Q s (act f k)"
  unfolding act_def by (rule ensures_Step) (auto split: prod.splits)

lemma ensures_bind:
  "ensures I G Q' s p \<Longrightarrow> (\<And>t r. Q' t r \<Longrightarrow> ensures I G Q t (k r)) \<Longrightarrow> ensures I G Q s (bind_prog p k)"
proof (induction rule: ensures.induct)
  case (ensures_Ret s r)
  then show ?case by simp
next
  case (ensures_Step s f)
  show ?case
    unfolding bind_Step
    by (rule ensures.ensures_Step) (use ensures_Step in \<open>fastforce simp: map_prod_def split: prod.splits\<close>)
qed

lemma ensures_exec:
  "ensures I G Q s p \<Longrightarrow> I s \<Longrightarrow> exec p s = Some (t, r) \<Longrightarrow> reflp G \<Longrightarrow> transp G \<Longrightarrow>
   I t \<and> G s t \<and> Q t r"
proof (induction rule: ensures.induct)
  case (ensures_Ret s q)
  then show ?case by (simp add: reflpD)
next
  case (ensures_Step s f)
  from ensures_Step.prems(2) obtain u p where u: "f s = Some (u, p)" "exec p u = Some (t, r)"
    by (auto split: option.splits prod.splits)
  have "G s s" using ensures_Step.prems(3) by (rule reflpD)
  with ensures_Step u show ?case by (blast dest: transpD)
qed

subsection \<open>Interleaving\<close>

text \<open>
  The system: the shared state and the programs of the requests in flight. \<open>R\<close> says which
  programs may arrive.
\<close>

inductive pool_step ::
  "(('s, 'r) prog \<Rightarrow> bool) \<Rightarrow> 's \<times> ('s, 'r) prog list \<Rightarrow> 's \<times> ('s, 'r) prog list \<Rightarrow> bool"
  for R :: "('s, 'r) prog \<Rightarrow> bool" where
  arrive: "R p \<Longrightarrow> pool_step R (s, ps) (s, ps @ [p])"
| advance: "i < length ps \<Longrightarrow> ps ! i = Step f \<Longrightarrow> f s = Some (t, p) \<Longrightarrow>
    pool_step R (s, ps) (t, ps[i := p])"

inductive pool_run ::
  "(('s, 'r) prog \<Rightarrow> bool) \<Rightarrow> 's \<times> ('s, 'r) prog list \<Rightarrow> 's \<times> ('s, 'r) prog list \<Rightarrow> bool"
  for R :: "('s, 'r) prog \<Rightarrow> bool" where
  pool_refl: "pool_run R c c"
| pool_next: "pool_run R c d \<Longrightarrow> pool_step R d e \<Longrightarrow> pool_run R c e"

lemma pool_run_trans: "pool_run R d e \<Longrightarrow> pool_run R c d \<Longrightarrow> pool_run R c e"
  by (induction rule: pool_run.induct) (auto intro: pool_next)

lemma pool_first: "pool_step R c d \<Longrightarrow> pool_run R d e \<Longrightarrow> pool_run R c e"
  by (rule pool_run_trans) (auto intro: pool_run.intros)

text \<open>A program that runs alone is one schedule of the pool.\<close>

lemma exec_pool:
  "exec p s = Some (t, r) \<Longrightarrow> i < length ps \<Longrightarrow> ps ! i = p \<Longrightarrow> pool_run R (s, ps) (t, ps[i := Ret r])"
proof (induction p arbitrary: s ps)
  case (Ret q)
  then have "ps[i := Ret r] = ps" by (metis exec.simps(1) list_update_id option.inject prod.inject)
  with Ret show ?case by (simp add: pool_refl)
next
  case (Step f)
  from Step.prems(1) obtain u p where u: "f s = Some (u, p)" "exec p u = Some (t, r)"
    by (auto split: option.splits prod.splits)
  have "Some (u, p) \<in> range f" using u(1) by (metis rangeI)
  then have "pool_run R (u, ps[i := p]) (t, ps[i := p, i := Ret r])"
    using u Step.prems by (intro Step.IH) auto
  moreover have "pool_step R (s, ps) (u, ps[i := p])"
    using Step.prems u(1) by (auto intro: advance)
  ultimately show ?case by (auto intro: pool_first)
qed

lemma exec_arrive:
  assumes "R p" and "exec p s = Some (t, r)"
  shows "pool_run R (s, ps) (t, ps @ [Ret r])"
proof -
  have "pool_run R (s, ps @ [p]) (t, (ps @ [p])[length ps := Ret r])"
    using assms(2) by (intro exec_pool) simp_all
  then show ?thesis using assms(1) by (auto intro: pool_first pool_step.arrive)
qed

definition pool_ok ::
  "('s \<Rightarrow> bool) \<Rightarrow> ('s \<Rightarrow> 's \<Rightarrow> bool) \<Rightarrow> ('s \<Rightarrow> 'r \<Rightarrow> bool) \<Rightarrow> 's \<times> ('s, 'r) prog list \<Rightarrow> bool" where
  "pool_ok I G Q c \<longleftrightarrow> I (fst c) \<and> (\<forall>p\<in>set (snd c). ensures I G Q (fst c) p)"

lemma pool_ok_empty [simp]: "pool_ok I G Q (s, []) \<longleftrightarrow> I s"
  by (simp add: pool_ok_def)

lemma pool_step_ok:
  assumes "pool_step R c d" and "\<And>s p. R p \<Longrightarrow> I s \<Longrightarrow> ensures I G Q s p"
    and "reflp G" and "transp G" and "stable G Q" and "pool_ok I G Q c"
  shows "pool_ok I G Q d \<and> G (fst c) (fst d)"
  using assms
proof (induction rule: pool_step.induct)
  case (arrive p s ps)
  then show ?case by (auto simp: pool_ok_def dest: reflpD)
next
  case (advance i ps f s t p)
  then have "ensures I G Q s (Step f)" "I s"
    unfolding pool_ok_def by (metis fst_conv snd_conv nth_mem)+
  with advance have t: "I t \<and> G s t \<and> ensures I G Q t p"
    by (auto dest: ensures_StepD reflpD)
  have "ensures I G Q t q" if "q \<in> set ps" for q
    using that advance.prems t by (auto simp: pool_ok_def intro: ensures_later)
  moreover have "set (ps[i := p]) \<subseteq> insert p (set ps)"
    by (rule set_update_subset_insert)
  ultimately show ?case using t by (auto simp: pool_ok_def)
qed

text \<open>
  Whatever the interleaving: the invariant holds, the relation links start and end, and every
  result that has been returned is as claimed.
\<close>

theorem pool_run_inv:
  assumes "pool_run R c d" and "\<And>s p. R p \<Longrightarrow> I s \<Longrightarrow> ensures I G Q s p"
    and "reflp G" and "transp G" and "stable G Q" and "pool_ok I G Q c"
  shows "pool_ok I G Q d \<and> G (fst c) (fst d)"
  using assms
proof (induction rule: pool_run.induct)
  case (pool_refl c)
  then show ?case by (simp add: reflpD)
next
  case (pool_next c d e)
  then have d: "pool_ok I G Q d \<and> G (fst c) (fst d)" by simp
  with pool_step_ok [OF pool_next.hyps(2) pool_next.prems(1-4)]
  have "pool_ok I G Q e \<and> G (fst d) (fst e)" by blast
  with d \<open>transp G\<close> show ?case by (blast dest: transpD)
qed

corollary pool_run_ok:
  assumes "pool_run R c d" and "\<And>s p. R p \<Longrightarrow> ensures I G Q s p"
    and "reflp G" and "transp G" and "stable G Q" and "pool_ok I G Q c"
  shows "pool_ok I G Q d \<and> G (fst c) (fst d)"
  by (rule pool_run_inv [OF assms(1) _ assms(3-6)]) (rule assms(2))

lemma pool_ok_result: "pool_ok I G Q (s, ps) \<Longrightarrow> Ret r \<in> set ps \<Longrightarrow> Q s r"
  by (force simp: pool_ok_def)

end
