(* ===== verification/Key_Lock.thy ===== *)
theory Key_Lock
  imports Prelude
begin

section \<open>The table of idempotency-key locks\<close>

text \<open>
  \<open>lockIdempotencyKey\<close> in \<open>internal/service/payment.go\<close>: a map from keys to reference-counted
  mutexes. The map holds pointers, so two goroutines share a lock exactly when they got the same
  pointer; pointers are numbers into a heap of lock entries. The function is four atomic steps:
  the lookup or allocation with the count (under \<open>idempotencyMu\<close>), the wait for the entry's
  mutex, the unlock, and the decrement with the removal of an unused entry (under
  \<open>idempotencyMu\<close> again). The machine below runs any number of goroutines through these steps in
  any order, and the lemmas show that two of them never hold the lock of the same key together,
  that the lock cannot get stuck, and that the table is empty again when all are done.
\<close>

subsection \<open>State and atomic steps\<close>

record lock_entry =
  lk_held :: bool
  lk_users :: int

record key_locks =
  lk_keys :: "string \<rightharpoonup> nat"
  lk_heap :: "nat \<Rightarrow> lock_entry"
  lk_next :: nat

definition no_locks :: key_locks where
  "no_locks = \<lparr>lk_keys = Map.empty, lk_heap = (\<lambda>_. \<lparr>lk_held = False, lk_users = 0\<rparr>), lk_next = 0\<rparr>"

definition key_register :: "string \<Rightarrow> key_locks \<Rightarrow> key_locks \<times> nat" where
  "key_register key s =
     (case lk_keys s key of
        None \<Rightarrow>
          let l = lk_next s
          in (s\<lparr>lk_keys := (lk_keys s)(key \<mapsto> l),
                lk_heap := (lk_heap s)(l := \<lparr>lk_held = False, lk_users = 1\<rparr>),
                lk_next := Suc l\<rparr>, l)
      | Some l \<Rightarrow>
          (s\<lparr>lk_heap := (lk_heap s)(l := (lk_heap s l)\<lparr>lk_users := lk_users (lk_heap s l) + 1\<rparr>)\<rparr>, l))"

definition mutex_lock :: "nat \<Rightarrow> key_locks \<Rightarrow> key_locks option" where
  "mutex_lock l s =
     (if lk_held (lk_heap s l) then None
      else Some (s\<lparr>lk_heap := (lk_heap s)(l := (lk_heap s l)\<lparr>lk_held := True\<rparr>)\<rparr>))"

definition mutex_unlock :: "nat \<Rightarrow> key_locks \<Rightarrow> key_locks" where
  "mutex_unlock l s = s\<lparr>lk_heap := (lk_heap s)(l := (lk_heap s l)\<lparr>lk_held := False\<rparr>)\<rparr>"

definition key_deregister :: "string \<Rightarrow> nat \<Rightarrow> key_locks \<Rightarrow> key_locks" where
  "key_deregister key l s =
     (let n = lk_users (lk_heap s l) - 1;
          t = s\<lparr>lk_heap := (lk_heap s)(l := (lk_heap s l)\<lparr>lk_users := n\<rparr>)\<rparr>
      in if n = 0 then t\<lparr>lk_keys := (lk_keys t)(key := None)\<rparr> else t)"

subsection \<open>Goroutines\<close>

text \<open>Where a goroutine is: before the call, waiting for the mutex, between the two halves with
  the lock held, or in the release function after the unlock.\<close>

datatype lock_pc = Outside | Waiting string nat | Holding string nat | Leaving string nat

fun uses :: "lock_pc \<Rightarrow> (string \<times> nat) option" where
  "uses Outside = None"
| "uses (Waiting k l) = Some (k, l)"
| "uses (Holding k l) = Some (k, l)"
| "uses (Leaving k l) = Some (k, l)"

record lock_sys =
  sys_locks :: key_locks
  sys_pc :: "nat \<Rightarrow> lock_pc"

definition lock_init :: lock_sys where
  "lock_init = \<lparr>sys_locks = no_locks, sys_pc = (\<lambda>_. Outside)\<rparr>"

inductive lock_step :: "lock_sys \<Rightarrow> lock_sys \<Rightarrow> bool" where
  enter: "sys_pc s i = Outside \<Longrightarrow> key_register key (sys_locks s) = (t, l) \<Longrightarrow>
    lock_step s (s\<lparr>sys_locks := t, sys_pc := (sys_pc s)(i := Waiting key l)\<rparr>)"
| acquire: "sys_pc s i = Waiting key l \<Longrightarrow> mutex_lock l (sys_locks s) = Some t \<Longrightarrow>
    lock_step s (s\<lparr>sys_locks := t, sys_pc := (sys_pc s)(i := Holding key l)\<rparr>)"
| unlock: "sys_pc s i = Holding key l \<Longrightarrow>
    lock_step s (s\<lparr>sys_locks := mutex_unlock l (sys_locks s), sys_pc := (sys_pc s)(i := Leaving key l)\<rparr>)"
| leave: "sys_pc s i = Leaving key l \<Longrightarrow>
    lock_step s (s\<lparr>sys_locks := key_deregister key l (sys_locks s), sys_pc := (sys_pc s)(i := Outside)\<rparr>)"

inductive lock_reach :: "lock_sys \<Rightarrow> bool" where
  reach_init: "lock_reach lock_init"
| reach_step: "lock_reach s \<Longrightarrow> lock_step s t \<Longrightarrow> lock_reach t"

subsection \<open>The invariant\<close>

abbreviation users_of :: "(nat \<Rightarrow> lock_pc) \<Rightarrow> nat \<Rightarrow> nat set" where
  "users_of pcs l \<equiv> {i. \<exists>k. uses (pcs i) = Some (k, l)}"

definition lock_inv :: "key_locks \<Rightarrow> (nat \<Rightarrow> lock_pc) \<Rightarrow> bool" where
  "lock_inv s pcs \<longleftrightarrow>
     finite {i. pcs i \<noteq> Outside} \<and>
     (\<forall>i k l. uses (pcs i) = Some (k, l) \<longrightarrow> lk_keys s k = Some l) \<and>
     (\<forall>k l. lk_keys s k = Some l \<longrightarrow> l < lk_next s \<and> users_of pcs l \<noteq> {}) \<and>
     (\<forall>k1 k2 l. lk_keys s k1 = Some l \<longrightarrow> lk_keys s k2 = Some l \<longrightarrow> k1 = k2) \<and>
     (\<forall>k l. lk_keys s k = Some l \<longrightarrow> lk_users (lk_heap s l) = int (card (users_of pcs l))) \<and>
     (\<forall>i k l. pcs i = Holding k l \<longrightarrow> lk_held (lk_heap s l)) \<and>
     (\<forall>i j k1 k2 l. pcs i = Holding k1 l \<longrightarrow> pcs j = Holding k2 l \<longrightarrow> i = j) \<and>
     (\<forall>k l. lk_keys s k = Some l \<longrightarrow> lk_held (lk_heap s l) \<longrightarrow> (\<exists>i. pcs i = Holding k l))"

lemma lock_invD:
  assumes "lock_inv s pcs"
  shows li_finite: "finite {i. pcs i \<noteq> Outside}"
    and li_key: "uses (pcs i) = Some (k, l) \<Longrightarrow> lk_keys s k = Some l"
    and li_next: "lk_keys s k = Some l \<Longrightarrow> l < lk_next s"
    and li_used: "lk_keys s k = Some l \<Longrightarrow> users_of pcs l \<noteq> {}"
    and li_inj: "lk_keys s k1 = Some l \<Longrightarrow> lk_keys s k2 = Some l \<Longrightarrow> k1 = k2"
    and li_count: "lk_keys s k = Some l \<Longrightarrow> lk_users (lk_heap s l) = int (card (users_of pcs l))"
    and li_held: "pcs i = Holding k l \<Longrightarrow> lk_held (lk_heap s l)"
    and li_one: "pcs i = Holding k1 l \<Longrightarrow> pcs j = Holding k2 l \<Longrightarrow> i = j"
    and li_holder: "lk_keys s k = Some l \<Longrightarrow> lk_held (lk_heap s l) \<Longrightarrow> \<exists>i. pcs i = Holding k l"
  using assms unfolding lock_inv_def by blast+

lemma users_finite: "lock_inv s pcs \<Longrightarrow> finite (users_of pcs l)"
  by (rule finite_subset [OF _ li_finite [of s pcs]]) auto

text \<open>How one goroutine's move changes the users of a lock.\<close>

lemma users_of_upd:
  "users_of (pcs(i := pc)) l =
     (if \<exists>k. uses pc = Some (k, l) then insert i (users_of pcs l) else users_of pcs l - {i})"
  by auto

lemma finite_active_upd: "finite {i. pcs i \<noteq> Outside} \<Longrightarrow> finite {j. (pcs(i := pc)) j \<noteq> Outside}"
  by (rule finite_subset [of _ "insert i {i. pcs i \<noteq> Outside}"]) auto

subsection \<open>Every step keeps the invariant\<close>

lemma lock_inv_register:
  assumes inv: "lock_inv s pcs" and out: "pcs i = Outside" and reg: "key_register key s = (t, l)"
  shows "lock_inv t (pcs(i := Waiting key l))"
proof -
  note li = lock_invD [OF inv]
  have notin: "i \<notin> users_of pcs m" for m using out by simp
  have diff: "users_of pcs m - {i} = users_of pcs m" for m using notin by blast
  show ?thesis
  proof (cases "lk_keys s key")
    case None
    then have l: "l = lk_next s" and t: "t = s\<lparr>lk_keys := (lk_keys s)(key \<mapsto> l),
        lk_heap := (lk_heap s)(l := \<lparr>lk_held = False, lk_users = 1\<rparr>), lk_next := Suc l\<rparr>"
      using reg by (auto simp: key_register_def Let_def)
    have fresh: "lk_keys s k \<noteq> Some l" for k using li(3) [of k l] l by auto
    then have unused: "uses (pcs j) \<noteq> Some (k, l)" for j k using li(2) by blast
    then have none: "users_of pcs l = {}" by simp
    have quiet: "pcs j \<noteq> Holding k l" for j k using unused [of j k] by auto
    show ?thesis
      unfolding lock_inv_def t
      apply (intro conjI)
      subgoal by (rule finite_active_upd [OF li(1)])
      subgoal using None by (auto split: if_splits dest: li(2))
      subgoal unfolding users_of_upd diff using li(3,4) l by (auto simp: less_Suc_eq split: if_splits)
      subgoal using li(5) fresh by (auto split: if_splits)
      subgoal using li(6) fresh none notin unfolding users_of_upd by auto
      subgoal using li(7) quiet by auto
      subgoal using li(8) by auto
      subgoal using li(9) fresh out by (auto split: if_splits; metis lock_pc.distinct(3))
      done
  next
    case (Some m)
    then have l: "l = m" and t: "t = s\<lparr>lk_heap := (lk_heap s)(l := (lk_heap s l)\<lparr>lk_users := lk_users (lk_heap s l) + 1\<rparr>)\<rparr>"
      using reg by (auto simp: key_register_def)
    have card: "card (insert i (users_of pcs l)) = Suc (card (users_of pcs l))"
      by (rule card_insert_disjoint [OF users_finite [OF inv] notin])
    show ?thesis
      unfolding lock_inv_def t
      apply (intro conjI)
      subgoal by (rule finite_active_upd [OF li(1)])
      subgoal using li(2) Some l by auto
      subgoal using li(3) li(4) notin unfolding users_of_upd by auto
      subgoal using li(5) by auto
      subgoal using li(6) li(5) card notin Some l unfolding users_of_upd by (auto split: if_splits)
      subgoal using li(7) by auto
      subgoal using li(8) by auto
      subgoal using li(9) out by (auto split: if_splits; metis lock_pc.distinct(3))
      done
  qed
qed

lemma holder_upd:
  "\<exists>j. pcs j = Holding k m \<Longrightarrow> pcs i \<noteq> Holding k m \<Longrightarrow> \<exists>j. (pcs(i := pc)) j = Holding k m"
  by (metis fun_upd_other)

lemma users_of_same:
  "uses pc = uses (pcs i) \<Longrightarrow> users_of (pcs(i := pc)) l = users_of pcs l"
  by auto

lemma lock_inv_acquire:
  assumes inv: "lock_inv s pcs" and pc: "pcs i = Waiting key l" and lk: "mutex_lock l s = Some t"
  shows "lock_inv t (pcs(i := Holding key l))"
proof -
  note li = lock_invD [OF inv]
  have free: "\<not> lk_held (lk_heap s l)" and t: "t = s\<lparr>lk_heap := (lk_heap s)(l := (lk_heap s l)\<lparr>lk_held := True\<rparr>)\<rparr>"
    using lk by (auto simp: mutex_lock_def split: if_splits)
  have quiet: "pcs j \<noteq> Holding k l" for j k using li(7) free by blast
  have same: "users_of (pcs(i := Holding key l)) m = users_of pcs m" for m
    by (rule users_of_same) (simp add: pc)
  have key: "lk_keys s key = Some l" using li(2) [of i key l] pc by simp
  show ?thesis
    unfolding lock_inv_def t same
    apply (intro conjI)
    subgoal by (rule finite_active_upd [OF li(1)])
    subgoal using li(2) key by auto
    subgoal using li(3) li(4) by auto
    subgoal using li(5) by auto
    subgoal using li(6) by auto
    subgoal using li(7) by auto
    subgoal using li(8) quiet by auto
    subgoal using li(9) li(5) key pc by (auto split: if_splits; metis lock_pc.distinct(7))
    done
qed

lemma lock_inv_unlock:
  assumes inv: "lock_inv s pcs" and pc: "pcs i = Holding key l"
  shows "lock_inv (mutex_unlock l s) (pcs(i := Leaving key l))"
proof -
  note li = lock_invD [OF inv]
  have quiet: "pcs j = Holding k l \<Longrightarrow> j = i" for j k using li(8) pc by blast
  have same: "users_of (pcs(i := Leaving key l)) m = users_of pcs m" for m
    by (rule users_of_same) (simp add: pc)
  have key: "lk_keys s key = Some l" using li(2) [of i key l] pc by simp
  show ?thesis
    unfolding lock_inv_def mutex_unlock_def same
    apply (intro conjI)
    subgoal by (rule finite_active_upd [OF li(1)])
    subgoal using li(2) key by auto
    subgoal using li(3) li(4) by auto
    subgoal using li(5) by auto
    subgoal using li(6) by auto
    subgoal using li(7) quiet by auto
    subgoal using li(8) by auto
    subgoal using holder_upd [OF li(9), of _ _ i] pc by (auto split: if_splits)
    done
qed

lemma lock_inv_deregister:
  assumes inv: "lock_inv s pcs" and pc: "pcs i = Leaving key l"
  shows "lock_inv (key_deregister key l s) (pcs(i := Outside))"
proof -
  note li = lock_invD [OF inv]
  have key: "lk_keys s key = Some l" using li(2) [of i key l] pc by simp
  have mem: "i \<in> users_of pcs l" using pc by simp
  have card: "int (card (users_of pcs l - {i})) = lk_users (lk_heap s l) - 1"
    using li(6) [OF key] mem card_Suc_Diff1 [OF users_finite [OF inv] mem] by simp
  have upd: "users_of (pcs(i := Outside)) m = users_of pcs m - {i}" for m
    unfolding users_of_upd by simp
  have other: "m \<noteq> l \<Longrightarrow> users_of pcs m - {i} = users_of pcs m" for m using pc by auto
  have fin: "finite (users_of pcs l - {i})" using users_finite [OF inv] by blast
  show ?thesis
  proof (cases "users_of pcs l - {i} = {}")
    case True
    then have zero: "lk_users (lk_heap s l) - 1 = 0" using card unfolding True by simp
    have alone: "uses (pcs j) = Some (k, l) \<Longrightarrow> j = i" for j k using True by auto
    have gone: "k \<noteq> key \<Longrightarrow> lk_keys s k \<noteq> Some l" for k using li(5) key by blast
    have still: "users_of pcs m - {i} \<noteq> {}" if "k \<noteq> key" "lk_keys s k = Some m" for k m
      using that gone [of k] other [of m] li(4) [of k m] by force
    have away: "uses (pcs j) = Some (key, m) \<Longrightarrow> j = i" for j m
      using li(2) [of j key m] key alone by auto
    show ?thesis
      unfolding lock_inv_def key_deregister_def Let_def upd
      apply (intro conjI)
      subgoal by (rule finite_active_upd [OF li(1)])
      subgoal using li(2) away zero by auto
      subgoal using li(3) still zero by (simp split: if_splits)
      subgoal using li(5) zero by (auto split: if_splits)
      subgoal using li(6) gone other zero by (auto split: if_splits)
      subgoal using li(7) zero by (auto split: if_splits)
      subgoal using li(8) by auto
      subgoal using li(9) gone pc zero by (auto split: if_splits; metis lock_pc.distinct(11))
      done
  next
    case False
    then have pos: "lk_users (lk_heap s l) - 1 \<noteq> 0" using card fin by (metis card_0_eq of_nat_eq_0_iff)
    have still: "users_of pcs m - {i} \<noteq> {}" if "lk_keys s k = Some m" for k m
      using False other [of m] li(4) [OF that] by (cases "m = l") (simp_all only: not_False_eq_True)
    show ?thesis
      unfolding lock_inv_def key_deregister_def Let_def upd
      apply (intro conjI)
      subgoal by (rule finite_active_upd [OF li(1)])
      subgoal using li(2) pos by auto
      subgoal using li(3) still pos by simp
      subgoal using li(5) pos by auto
      subgoal using li(6) other card pos by auto
      subgoal using li(7) pos by auto
      subgoal using li(8) by auto
      subgoal using li(9) pc pos by (auto split: if_splits; metis lock_pc.distinct(11))
      done
  qed
qed

subsection \<open>Mutual exclusion, no leak, progress\<close>

lemma lock_inv_init: "lock_inv no_locks (\<lambda>_. Outside)"
  by (simp add: lock_inv_def no_locks_def)

lemma lock_inv_step:
  "lock_step s t \<Longrightarrow> lock_inv (sys_locks s) (sys_pc s) \<Longrightarrow> lock_inv (sys_locks t) (sys_pc t)"
  by (induction rule: lock_step.induct)
    (auto intro: lock_inv_register lock_inv_acquire lock_inv_unlock lock_inv_deregister)

lemma lock_reach_inv: "lock_reach s \<Longrightarrow> lock_inv (sys_locks s) (sys_pc s)"
  by (induction rule: lock_reach.induct) (auto simp: lock_init_def lock_inv_init intro: lock_inv_step)

text \<open>One goroutine with the lock of a key, another one that waits for it.\<close>

definition ex_lock :: lock_sys where
  "ex_lock = \<lparr>sys_locks = \<lparr>lk_keys = [''k'' \<mapsto> 0],
      lk_heap = (\<lambda>_. \<lparr>lk_held = False, lk_users = 0\<rparr>)(0 := \<lparr>lk_held = True, lk_users = 2\<rparr>), lk_next = 1\<rparr>,
    sys_pc = (\<lambda>_. Outside)(0 := Holding ''k'' 0, 1 := Waiting ''k'' 0)\<rparr>"

lemma ex_lock_reach: "lock_reach ex_lock"
proof -
  let ?h = "\<lambda>_. \<lparr>lk_held = False, lk_users = 0\<rparr>"
  let ?s1 = "\<lparr>sys_locks = \<lparr>lk_keys = [''k'' \<mapsto> 0], lk_heap = ?h(0 := \<lparr>lk_held = False, lk_users = 1\<rparr>), lk_next = 1\<rparr>,
      sys_pc = (\<lambda>_. Outside)(0 := Waiting ''k'' 0)\<rparr>"
  let ?s2 = "\<lparr>sys_locks = \<lparr>lk_keys = [''k'' \<mapsto> 0], lk_heap = ?h(0 := \<lparr>lk_held = True, lk_users = 1\<rparr>), lk_next = 1\<rparr>,
      sys_pc = (\<lambda>_. Outside)(0 := Holding ''k'' 0)\<rparr>"
  have "lock_step lock_init ?s1"
    using lock_step.enter [of lock_init 0 "''k''" "sys_locks ?s1" 0]
    by (simp add: lock_init_def no_locks_def key_register_def Let_def)
  then have s1: "lock_reach ?s1" by (rule reach_step [OF reach_init])
  have "lock_step ?s1 ?s2"
    using lock_step.acquire [of ?s1 0 "''k''" 0 "sys_locks ?s2"] by (simp add: mutex_lock_def)
  then have s2: "lock_reach ?s2" by (rule reach_step [OF s1])
  have "lock_step ?s2 ex_lock"
    using lock_step.enter [of ?s2 1 "''k''" "sys_locks ex_lock" 0]
    by (simp add: key_register_def Let_def ex_lock_def)
  then show ?thesis by (rule reach_step [OF s2])
qed

text \<open>C25. Two goroutines that are between the two halves of \<open>lockIdempotencyKey\<close> have different keys:
  the work under one key is serialised.\<close>

theorem holders_unique:
  assumes "lock_reach s" and "sys_pc s i = Holding key l" and "sys_pc s j = Holding key m"
  shows "i = j"
proof -
  note inv = lock_reach_inv [OF assms(1)]
  have "lk_keys (sys_locks s) key = Some l" "lk_keys (sys_locks s) key = Some m"
    using li_key [OF inv, of i key l] li_key [OF inv, of j key m] assms(2,3) by simp_all
  then have "l = m" by simp
  with assms show ?thesis using li_one [OF inv] by blast
qed

theorem holders_unique_witness:
  "\<forall>m. sys_pc ex_lock 1 \<noteq> Holding ''k'' m"
proof (intro allI notI)
  fix m assume "sys_pc ex_lock 1 = Holding ''k'' m"
  with holders_unique [OF ex_lock_reach, of 0 "''k''" 0 1 m] show False by (simp add: ex_lock_def)
qed

text \<open>The table has an entry exactly for the keys that some goroutine is using: no entry leaks, and
  none is removed while it is needed.\<close>

theorem keys_used:
  assumes "lock_reach s"
  shows "dom (lk_keys (sys_locks s)) = {k. \<exists>i l. uses (sys_pc s i) = Some (k, l)}"
proof -
  note inv = lock_reach_inv [OF assms]
  have "k \<in> {k. \<exists>i l. uses (sys_pc s i) = Some (k, l)}" if "lk_keys (sys_locks s) k = Some l" for k l
  proof -
    from li_used [OF inv that] obtain i k' where u: "uses (sys_pc s i) = Some (k', l)" by blast
    then have "k' = k" using li_inj [OF inv] li_key [OF inv] that by blast
    with u show ?thesis by blast
  qed
  then show ?thesis using li_key [OF inv] by blast
qed

theorem keys_used_witness: "dom (lk_keys (sys_locks ex_lock)) = {''k''}"
proof -
  have "{k. \<exists>i l. uses (sys_pc ex_lock i) = Some (k, l)} = {''k''}"
    by (auto simp: ex_lock_def split: if_splits)
  with keys_used [OF ex_lock_reach] show ?thesis by simp
qed

text \<open>C26. The lock does not deadlock: while some goroutine is inside, one of those inside can take its
  next step.\<close>

theorem lock_progress:
  assumes "lock_reach s" and "sys_pc s i \<noteq> Outside"
  shows "\<exists>j t. sys_pc s j \<noteq> Outside \<and> lock_step s t \<and> sys_pc t j \<noteq> sys_pc s j"
proof (cases "sys_pc s i")
  case (Waiting k l)
  note inv = lock_reach_inv [OF assms(1)]
  show ?thesis
  proof (cases "mutex_lock l (sys_locks s)")
    case None
    then have "lk_held (lk_heap (sys_locks s) l)" by (simp add: mutex_lock_def split: if_splits)
    moreover have "lk_keys (sys_locks s) k = Some l" using li_key [OF inv, of i k l] Waiting by simp
    ultimately obtain j where "sys_pc s j = Holding k l"
      using li_holder [OF inv] li_key [OF inv] li_inj [OF inv] by (metis uses.simps(3))
    from lock_step.unlock [OF this] this show ?thesis by (intro exI [of _ j] exI conjI) auto
  next
    case (Some t)
    from lock_step.acquire [OF Waiting Some] Waiting show ?thesis
      by (intro exI [of _ i] exI conjI) auto
  qed
next
  case (Holding k l)
  from lock_step.unlock [OF this] this show ?thesis by (intro exI [of _ i] exI conjI) auto
next
  case (Leaving k l)
  from lock_step.leave [OF this] this show ?thesis by (intro exI [of _ i] exI conjI) auto
qed (use assms in simp)

theorem lock_progress_witness:
  "\<exists>j t. lock_step ex_lock t \<and> sys_pc t j \<noteq> sys_pc ex_lock j"
proof -
  have "sys_pc ex_lock 1 \<noteq> Outside" by (simp add: ex_lock_def)
  from lock_progress [OF ex_lock_reach this] show ?thesis by blast
qed

end
