(* ===== verification/Sha256.thy ===== *)
theory Sha256
  imports Go_Text
begin

unbundle bit_operations_syntax

section \<open>\<open>sha256.Sum256\<close>\<close>

text \<open>
  The hash behind \<open>Fingerprint\<close> in \<open>internal/service/payment.go\<close>, from FIPS 180-4: padding,
  message schedule, compression. No theorem assumes that it has no collisions; what the
  development says of fingerprints is that they are determined by the request, and which requests
  give the same text to the hash.
\<close>

definition rotr :: "nat \<Rightarrow> 32 word \<Rightarrow> 32 word" where
  "rotr n x = drop_bit n x OR push_bit (32 - n) x"

text \<open>
  The constants are bits of irrational roots of the first primes: the round constants of the cube
  roots of the first 64, the initial hash of the square roots of the first 8, each time the first 32
  bits after the point. \<open>root_bits k n b r\<close> is the greatest number below \<open>r + 2 ^ b\<close> with k-th power at
  most \<open>n\<close>, found bit by bit.
\<close>

definition sha_primes :: "nat list" where
  "sha_primes = filter (\<lambda>n. list_all (\<lambda>d. n mod d \<noteq> 0) [2..<n]) [2..<312]"

primrec root_bits :: "nat \<Rightarrow> nat \<Rightarrow> nat \<Rightarrow> nat \<Rightarrow> nat" where
  "root_bits k n 0 r = r"
| "root_bits k n (Suc b) r = root_bits k n b (if (r + 2 ^ b) ^ k \<le> n then r + 2 ^ b else r)"

definition fraction_bits :: "nat \<Rightarrow> nat \<Rightarrow> 32 word" where
  "fraction_bits k p = word_of_nat (root_bits k (p * (2 ^ 32) ^ k) 36 0)"

definition sha_K :: "32 word list" where
  "sha_K = map (fraction_bits 3) sha_primes"

definition sha_init :: "32 word list" where
  "sha_init = map (fraction_bits 2) [2, 3, 5, 7, 11, 13, 17, 19]"

primrec be_bytes :: "nat \<Rightarrow> int \<Rightarrow> string" where
  "be_bytes 0 i = []"
| "be_bytes (Suc k) i = be_bytes k (i div 256) @ [char_of i]"

lemma length_be_bytes [simp]: "length (be_bytes k i) = k"
  by (induction k arbitrary: i) simp_all

definition sha_pad :: "string \<Rightarrow> string" where
  "sha_pad s =
     s @ CHR 0x80 # replicate ((119 - length s mod 64) mod 64) (CHR 0x00) @ be_bytes 8 (8 * int (length s))"

fun be_words :: "string \<Rightarrow> 32 word list" where
  "be_words (a # b # c # d # s) =
     (push_bit 24 (of_char a) OR push_bit 16 (of_char b) OR push_bit 8 (of_char c) OR of_char d)
       # be_words s"
| "be_words s = []"

text \<open>The schedule, latest word first.\<close>

definition schedule_step :: "32 word list \<Rightarrow> 32 word list" where
  "schedule_step ws =
     (let x = ws ! 14; y = ws ! 1;
          s0 = rotr 7 x XOR rotr 18 x XOR drop_bit 3 x;
          s1 = rotr 17 y XOR rotr 19 y XOR drop_bit 10 y
      in (ws ! 15 + s0 + ws ! 6 + s1) # ws)"

definition schedule :: "32 word list \<Rightarrow> 32 word list" where
  "schedule block = rev ((schedule_step ^^ 48) (rev block))"

fun sha_round :: "32 word \<times> 32 word \<Rightarrow> 32 word list \<Rightarrow> 32 word list" where
  "sha_round (k, w) [a, b, c, d, e, f, g, h] =
     (let s1 = rotr 6 e XOR rotr 11 e XOR rotr 25 e;
          ch = (e AND f) XOR (NOT e AND g);
          t1 = h + s1 + ch + k + w;
          s0 = rotr 2 a XOR rotr 13 a XOR rotr 22 a;
          maj = (a AND b) XOR (a AND c) XOR (b AND c)
      in [t1 + (s0 + maj), a, b, c, d + t1, e, f, g])"
| "sha_round kw hs = hs"

definition compress :: "32 word list \<Rightarrow> 32 word list \<Rightarrow> 32 word list" where
  "compress hs block = map2 (+) hs (fold sha_round (zip sha_K (schedule block)) hs)"

function sha_blocks :: "32 word list \<Rightarrow> 32 word list \<Rightarrow> 32 word list" where
  "sha_blocks hs ws =
     (if length ws < 16 then hs else sha_blocks (compress hs (take 16 ws)) (drop 16 ws))"
  by pat_completeness auto
termination
  by (relation "measure (\<lambda>(hs, ws). length ws)") auto

declare sha_blocks.simps [simp del]

definition Sum256 :: "string \<Rightarrow> string" where
  "Sum256 s = concat (map (\<lambda>w. be_bytes 4 (uint w)) (sha_blocks sha_init (be_words (sha_pad s))))"

subsection \<open>The digest has 32 bytes\<close>

lemma length_sha_round: "length (sha_round kw hs) = length hs"
  by (induction kw hs rule: sha_round.induct) (simp_all add: Let_def)

lemma length_rounds: "length (fold sha_round kws hs) = length hs"
  by (induction kws arbitrary: hs) (simp_all add: length_sha_round)

lemma length_compress: "length (compress hs block) = length hs"
  by (simp add: compress_def length_rounds)

lemma length_sha_blocks: "length (sha_blocks hs ws) = length hs"
  by (induction hs ws rule: sha_blocks.induct) (subst sha_blocks.simps, simp add: length_compress)

lemma length_Sum256 [simp]: "length (Sum256 s) = 32"
proof -
  have "length (concat (map (\<lambda>w. be_bytes 4 (uint w)) ws)) = 4 * length ws" for ws :: "32 word list"
    by (induction ws) simp_all
  then show ?thesis
    by (simp add: Sum256_def length_sha_blocks sha_init_def)
qed

text \<open>The padded text is a whole number of 64-byte blocks.\<close>

lemma sha_pad_blocks: "length (sha_pad s) mod 64 = 0"
proof -
  define n where "n = length s"
  define m where "m = 119 - n mod 64"
  have "n + m = 119 + 64 * (n div 64)"
    unfolding m_def using mod_less_divisor [of 64 n] mult_div_mod_eq [of 64 n] by linarith
  then have "n + 1 + m mod 64 + 8 + 64 * (m div 64) = 64 * (2 + n div 64)"
    using mult_div_mod_eq [of 64 m] by (simp add: distrib_left)
  then have "64 dvd n + 1 + m mod 64 + 8"
    by (metis dvd_add_left_iff dvd_triv_left)
  then have "(n + 1 + (119 - n mod 64) mod 64 + 8) mod 64 = 0"
    by (simp add: m_def)
  then show ?thesis by (simp add: sha_pad_def n_def ac_simps)
qed

end
