(* ===== verification/Payment_Input.thy ===== *)
theory Payment_Input
  imports Domain Sha256
begin

section \<open>Requests: normalisation, validation, fingerprint\<close>

text \<open>
  The pure functions at the end of \<open>internal/service/payment.go\<close>. \<open>u\<close> is the pair of Unicode case
  tables of \<open>strings.ToLower\<close> and \<open>strings.ToUpper\<close>, used on text that is not ASCII.
\<close>

record case_tables =
  tab_lower :: "string \<Rightarrow> string"
  tab_upper :: "string \<Rightarrow> string"

record create_input =
  ci_order :: string
  ci_account :: string
  ci_amount :: int64
  ci_currency :: string
  ci_key :: string
  ci_auto :: bool
  ci_fault :: string

definition isFault :: "string \<Rightarrow> string list \<Rightarrow> bool" where
  "isFault value choices \<longleftrightarrow> value \<in> set choices"

definition NormalizeCreateInput :: "case_tables \<Rightarrow> create_input \<Rightarrow> create_input" where
  "NormalizeCreateInput u i =
     (let j = i\<lparr>ci_order := TrimSpace (ci_order i), ci_account := TrimSpace (ci_account i),
                ci_currency := ToUpper (tab_upper u) (TrimSpace (ci_currency i)),
                ci_key := TrimSpace (ci_key i),
                ci_fault := ToLower (tab_lower u) (TrimSpace (ci_fault i))\<rparr>
      in if ci_currency j = '''' then j\<lparr>ci_currency := ''CNY''\<rparr> else j)"

definition ValidateCreateInput :: "create_input \<Rightarrow> go_error option" where
  "ValidateCreateInput i =
     (if ci_order i = '''' \<or> length (ci_order i) > 128
      then Some (ValidationError ''order_id is required and must be at most 128 characters'')
      else if ci_account i = '''' \<or> length (ci_account i) > 128
      then Some (ValidationError ''account_id is required and must be at most 128 characters'')
      else if ci_amount i <=s 0 \<or> 100000000 <s ci_amount i
      then Some (ValidationError ''amount_cents must be between 1 and 100000000'')
      else if ci_currency i \<noteq> ''CNY''
      then Some (ValidationError ''this learning build supports currency CNY only'')
      else if ci_key i = '''' \<or> length (ci_key i) > 128
      then Some (ValidationError ''idempotency key is required and must be at most 128 characters'')
      else if ci_fault i \<noteq> '''' \<and> \<not> isFault (ci_fault i) [''before_freeze'', ''freeze'', ''after_freeze'']
      then Some (ValidationError ''create fault must be before_freeze or after_freeze'')
      else None)"

text \<open>\<open>fmt.Sprintf("%s\x00%s\x00%d\x00%s", ...)\<close>: the fields, with NUL bytes between them.\<close>

definition NUL :: char where
  "NUL = CHR 0x00"

definition fingerprint_payload :: "create_input \<Rightarrow> string" where
  "fingerprint_payload i =
     ci_order i @ [NUL] @ ci_account i @ [NUL] @ show_int (sint (ci_amount i)) @ [NUL] @ ci_currency i"

definition Fingerprint :: "create_input \<Rightarrow> string" where
  "Fingerprint i = hex_encode (Sum256 (fingerprint_payload i))"

text \<open>
  \<open>NewID\<close>: \<open>random\<close> is what \<open>rand.Read\<close> put into the 12-byte buffer, \<open>None\<close> when it failed, and
  then the identifier comes from the clock.
\<close>

definition NewID :: "string \<Rightarrow> string option \<Rightarrow> time \<Rightarrow> string" where
  "NewID pre random now =
     (case random of
        Some buffer \<Rightarrow> pre @ ''_'' @ hex_encode buffer
      | None \<Rightarrow> pre @ ''_'' @ show_int now)"

subsection \<open>Validation\<close>

definition valid_input :: "create_input \<Rightarrow> bool" where
  "valid_input i \<longleftrightarrow>
     ci_order i \<noteq> '''' \<and> length (ci_order i) \<le> 128 \<and>
     ci_account i \<noteq> '''' \<and> length (ci_account i) \<le> 128 \<and>
     1 \<le> sint (ci_amount i) \<and> sint (ci_amount i) \<le> 100000000 \<and> ci_currency i = ''CNY'' \<and>
     ci_key i \<noteq> '''' \<and> length (ci_key i) \<le> 128 \<and>
     ci_fault i \<in> {'''', ''before_freeze'', ''freeze'', ''after_freeze''}"

lemma sint_100000000: "sint (100000000 :: int64) = 100000000"
  by simp

lemma validate_valid: "ValidateCreateInput i = None \<longleftrightarrow> valid_input i"
  by (auto simp: ValidateCreateInput_def valid_input_def isFault_def word_sle_eq word_sless_alt)

lemma validate_error: "ValidateCreateInput i = Some e \<Longrightarrow> \<exists>m. e = ValidationError m"
  by (auto simp: ValidateCreateInput_def split: if_splits)

lemma normalize_fields [simp]:
  "ci_order (NormalizeCreateInput u i) = TrimSpace (ci_order i)"
  "ci_account (NormalizeCreateInput u i) = TrimSpace (ci_account i)"
  "ci_amount (NormalizeCreateInput u i) = ci_amount i"
  "ci_key (NormalizeCreateInput u i) = TrimSpace (ci_key i)"
  "ci_auto (NormalizeCreateInput u i) = ci_auto i"
  "ci_fault (NormalizeCreateInput u i) = ToLower (tab_lower u) (TrimSpace (ci_fault i))"
  by (simp_all add: NormalizeCreateInput_def Let_def)

lemma TrimSpace_CNY: "TrimSpace ''CNY'' = ''CNY''"
  by code_simp

lemma TrimSpace_faults:
  "TrimSpace ''before_freeze'' = ''before_freeze''" "TrimSpace ''freeze'' = ''freeze''"
  "TrimSpace ''after_freeze'' = ''after_freeze''"
  by code_simp+

lemma ToLower_faults:
  "ToLower u '''' = ''''" "ToLower u ''before_freeze'' = ''before_freeze''"
  "ToLower u ''freeze'' = ''freeze''" "ToLower u ''after_freeze'' = ''after_freeze''"
  by code_simp+

lemma ToUpper_CNY: "ToUpper u ''CNY'' = ''CNY''"
  by code_simp

text \<open>C32. Normalisation takes off exactly the white space around the fields of a request, of any length and
  of any of the runes Go counts as space, and the letter case of currency and fault: whatever white
  runes surround the order, account, currency, key and fault of a request, what is left are the fields
  themselves, the currency in capitals, CNY when it was blank, and the fault in small letters; amount
  and auto_confirm are kept. A client that pads its fields differently or writes cny sends the same
  request, with the same key and fingerprint. (Currency and fault in ASCII.)\<close>

theorem normalize_strips_padding:
  assumes "trimmed order" "trimmed account" "trimmed currency" "trimmed key" "trimmed fault"
    and "ascii_text currency" "ascii_text fault"
    and white: "\<forall>w\<in>set [v1, w1, v2, w2, v3, w3, v4, w4, v5, w5]. set w \<subseteq> set white_runes"
  shows "NormalizeCreateInput u
      \<lparr>ci_order = concat v1 @ order @ concat w1, ci_account = concat v2 @ account @ concat w2, ci_amount = n,
       ci_currency = concat v3 @ currency @ concat w3, ci_key = concat v4 @ key @ concat w4, ci_auto = confirm,
       ci_fault = concat v5 @ fault @ concat w5\<rparr> =
    \<lparr>ci_order = order, ci_account = account, ci_amount = n,
     ci_currency = (if currency = '''' then ''CNY'' else map ascii_upper currency), ci_key = key,
     ci_auto = confirm, ci_fault = map ascii_lower fault\<rparr>"
proof -
  have trim: "TrimSpace (concat v1 @ order @ concat w1) = order" "TrimSpace (concat v2 @ account @ concat w2) = account"
    "TrimSpace (concat v3 @ currency @ concat w3) = currency" "TrimSpace (concat v4 @ key @ concat w4) = key"
    "TrimSpace (concat v5 @ fault @ concat w5) = fault"
    using assms(1-5) white by (simp_all add: TrimSpace_padded)
  show ?thesis
    using assms(6,7) by (simp add: NormalizeCreateInput_def Let_def trim ToUpper_def ToLower_def)
qed

definition ex_raw_input :: create_input where
  "ex_raw_input = \<lparr>ci_order = '' o1'', ci_account = ''u1 '', ci_amount = 5, ci_currency = '''',
     ci_key = ''k'', ci_auto = False, ci_fault = ''''\<rparr>"

theorem normalize_strips_padding_witness:
  "NormalizeCreateInput (case_tables.make id id)
      \<lparr>ci_order = '' o1'', ci_account = ''u1'' @ [CHR 0x0A] @ [CHR 0xE3, CHR 0x80, CHR 0x80], ci_amount = 5,
       ci_currency = '' cny'', ci_key = ''k 1 '', ci_auto = True, ci_fault = ''Freeze''\<rparr> =
    \<lparr>ci_order = ''o1'', ci_account = ''u1'', ci_amount = 5, ci_currency = ''CNY'', ci_key = ''k 1'',
     ci_auto = True, ci_fault = ''freeze''\<rparr>"
proof -
  have "trimmed ''o1''" "trimmed ''u1''" "trimmed ''cny''" "trimmed ''k 1''" "trimmed ''Freeze''"
    by code_simp+
  moreover have "ascii_text ''cny''" "ascii_text ''Freeze''" "map ascii_upper ''cny'' = ''CNY''"
    "map ascii_lower ''Freeze'' = ''freeze''" by code_simp+
  moreover have "\<forall>w\<in>set [['' ''], [], [], [[CHR 0x0A], [CHR 0xE3, CHR 0x80, CHR 0x80]], ['' ''], [], [], ['' ''], [], []].
      set w \<subseteq> set white_runes" by (simp add: white_runes_def)
  ultimately show ?thesis
    using normalize_strips_padding [of "''o1''" "''u1''" "''cny''" "''k 1''" "''Freeze''" "['' '']" "[]" "[]"
        "[[CHR 0x0A], [CHR 0xE3, CHR 0x80, CHR 0x80]]" "['' '']" "[]" "[]" "['' '']" "[]" "[]"
        "case_tables.make id id" 5 True]
    by simp
qed

subsection \<open>Fingerprints\<close>

lemma no_NUL_show_int: "NUL \<notin> set (show_int i)"
  using show_nat_digits [of NUL] by (auto simp: show_int_def NUL_def)

lemma split_NUL: "NUL \<notin> set a \<Longrightarrow> NUL \<notin> set b \<Longrightarrow> a @ NUL # x = b @ NUL # y \<longleftrightarrow> a = b \<and> x = y"
proof (induction a arbitrary: b)
  case Nil
  then show ?case by (cases b) auto
next
  case (Cons c a)
  then show ?case by (cases b) auto
qed

text \<open>C31. For requests whose order and account ids contain no NUL byte, the text that is hashed
  determines order, account, amount and currency: two different requests give the hash different
  texts.\<close>

theorem payload_inj:
  assumes "NUL \<notin> set (ci_order i)" "NUL \<notin> set (ci_order j)"
    and "NUL \<notin> set (ci_account i)" "NUL \<notin> set (ci_account j)"
  shows "fingerprint_payload i = fingerprint_payload j \<longleftrightarrow>
    ci_order i = ci_order j \<and> ci_account i = ci_account j \<and> ci_amount i = ci_amount j \<and>
    ci_currency i = ci_currency j"
  using assms no_NUL_show_int
  by (auto simp: fingerprint_payload_def split_NUL show_int_inj signed_word_eqI)

theorem payload_inj_witness:
  "fingerprint_payload ex_raw_input \<noteq> fingerprint_payload (ex_raw_input\<lparr>ci_amount := 6\<rparr>)"
  using payload_inj [of ex_raw_input "ex_raw_input\<lparr>ci_amount := 6\<rparr>"]
  by (simp add: ex_raw_input_def NUL_def)

text \<open>C39. A NUL byte in an id, which no check rejects, moves the border between the fields: two valid
  normalised requests with different orders and accounts have the same fingerprint, so the second
  one, sent with the key of the first, is answered as its replay instead of a conflict.\<close>

theorem fingerprint_collision:
  "\<exists>i j. valid_input i \<and> valid_input j \<and> NormalizeCreateInput u i = i \<and> NormalizeCreateInput u j = j \<and>
    ci_key i = ci_key j \<and> ci_order i \<noteq> ci_order j \<and> ci_account i \<noteq> ci_account j \<and>
    Fingerprint i = Fingerprint j"
proof -
  let ?i = "\<lparr>ci_order = ''a'' @ [NUL] @ ''b'', ci_account = ''c'', ci_amount = 5, ci_currency = ''CNY'',
     ci_key = ''k'', ci_auto = False, ci_fault = ''''\<rparr>"
  let ?j = "\<lparr>ci_order = ''a'', ci_account = ''b'' @ [NUL] @ ''c'', ci_amount = 5, ci_currency = ''CNY'',
     ci_key = ''k'', ci_auto = False, ci_fault = ''''\<rparr>"
  have trim: "TrimSpace (''a'' @ [NUL] @ ''b'') = ''a'' @ [NUL] @ ''b''" "TrimSpace ''c'' = ''c''"
    "TrimSpace ''a'' = ''a''" "TrimSpace (''b'' @ [NUL] @ ''c'') = ''b'' @ [NUL] @ ''c''" "TrimSpace ''k'' = ''k''"
    by (rule TrimSpace_trimmed; rule trimmed_printable; simp add: printable_def)+
  have "NormalizeCreateInput u ?i = ?i" "NormalizeCreateInput u ?j = ?j"
    using trim by (simp_all add: NormalizeCreateInput_def Let_def TrimSpace_CNY ToUpper_CNY ToLower_faults)
  moreover have "valid_input ?i" "valid_input ?j"
    by (simp_all add: valid_input_def)
  moreover have "Fingerprint ?i = Fingerprint ?j"
    by (simp add: Fingerprint_def fingerprint_payload_def)
  ultimately show ?thesis by (intro exI [of _ ?i] exI [of _ ?j]) simp
qed

text \<open>Two fingerprints are equal exactly when the digests of the payloads are.\<close>

lemma fingerprint_digest:
  "Fingerprint i = Fingerprint j \<longleftrightarrow> Sum256 (fingerprint_payload i) = Sum256 (fingerprint_payload j)"
  by (simp add: Fingerprint_def hex_encode_inj)

lemma length_Fingerprint [simp]: "length (Fingerprint i) = 64"
  by (simp add: Fingerprint_def)

subsection \<open>Identifiers\<close>

lemma NewID_inj: "NewID p (Some a) t = NewID p (Some b) t' \<longleftrightarrow> a = b"
  by (simp add: NewID_def hex_encode_inj)

text \<open>An identifier survives the \<open>TrimSpace\<close> of the requests that name it.\<close>

lemma TrimSpace_NewID: "TrimSpace (NewID ''pay'' random now) = NewID ''pay'' random now"
proof (rule TrimSpace_trimmed, rule trimmed_printable)
  have "printable CHR ''_''" by (simp add: printable_def)
  then show "printable (last (NewID ''pay'' random now))"
    using show_int_last [of now] hex_encode_last hex_encode_def [of "[]"]
    by (cases random; cases "random = Some []") (simp_all add: NewID_def)
qed (auto simp: NewID_def printable_def split: option.split)

end
