(* ===== verification/Payment_Service.thy ===== *)
theory Payment_Service
  imports Store_Contract Programs Key_Lock Payment_Input
begin

section \<open>The application layer\<close>

text \<open>
  \<open>PaymentService\<close> of \<open>internal/service/payment.go\<close>. Its methods run in the goroutine of an HTTP
  request, many at a time, so each is a program of atomic steps on the service's shared state: the
  calls of the store's methods, the atomic counters, and the steps of the idempotency-key lock.
  Everything the service decides between two steps is in the program. The store is any record of
  methods \<open>st\<close>.
\<close>

subsection \<open>State\<close>

record counters =
  paymentsCreated :: uint64
  idempotentReplays :: uint64
  callbacks :: uint64
  callbacksApplied :: uint64
  callbacksDuplicate :: uint64
  callbacksOutOfOrder :: uint64
  callbacksTerminalIgnored :: uint64
  faultsInjected :: uint64

definition zero_counters :: counters where
  "zero_counters =
     \<lparr>paymentsCreated = 0, idempotentReplays = 0, callbacks = 0, callbacksApplied = 0,
      callbacksDuplicate = 0, callbacksOutOfOrder = 0, callbacksTerminalIgnored = 0,
      faultsInjected = 0\<rparr>"

record 's service =
  svc_store :: 's
  svc_started :: int64
  svc_metrics :: counters
  svc_locks :: key_locks

definition unix_seconds :: "time \<Rightarrow> int64" where
  "unix_seconds t = word_of_int (t div 1000000000)"

definition NewPaymentService :: "time \<Rightarrow> 's \<Rightarrow> 's service" where
  "NewPaymentService now repository =
     \<lparr>svc_store = repository, svc_started = unix_seconds now, svc_metrics = zero_counters,
      svc_locks = no_locks\<rparr>"

subsection \<open>What a request reads from its environment\<close>

text \<open>
  \<open>env_clock k\<close> is the clock of the k-th store call in the text of the method, \<open>env_now\<close> what
  \<open>time.Now\<close> returns in the service's own code, \<open>env_random\<close> what \<open>rand.Read\<close> delivers,
  \<open>env_nano\<close> the clock of \<open>NewID\<close>'s fallback, \<open>env_order\<close> the order of a range over a map.
\<close>

record call_env =
  env_clock :: "nat \<Rightarrow> clock"
  env_now :: time
  env_random :: "string option"
  env_nano :: time
  env_order :: "string list"

type_synonym ('s, 'a) request = "('s service, go_error + 'a) prog"

text \<open>One call of a store method, one atomic update of a counter.\<close>

definition call ::
  "('s, 'a) store_method \<Rightarrow> (go_error + 'a \<Rightarrow> ('s service, 'r) prog) \<Rightarrow> ('s service, 'r) prog" where
  "call f = act (\<lambda>s. case f (svc_store s) of (t, r) \<Rightarrow> (s\<lparr>svc_store := t\<rparr>, r))"

definition count ::
  "(counters \<Rightarrow> counters) \<Rightarrow> ('s service, 'r) prog \<Rightarrow> ('s service, 'r) prog" where
  "count f p = act (\<lambda>s. (s\<lparr>svc_metrics := f (svc_metrics s)\<rparr>, ())) (\<lambda>_. p)"

text \<open>\<open>lockIdempotencyKey\<close> up to the held lock, and the function it returns.\<close>

definition lockIdempotencyKey ::
  "string \<Rightarrow> (nat \<Rightarrow> ('s service, 'r) prog) \<Rightarrow> ('s service, 'r) prog" where
  "lockIdempotencyKey key k =
     act (\<lambda>s. case key_register key (svc_locks s) of (t, l) \<Rightarrow> (s\<lparr>svc_locks := t\<rparr>, l))
       (\<lambda>l. Step (\<lambda>s. map_option (\<lambda>t. (s\<lparr>svc_locks := t\<rparr>, k l)) (mutex_lock l (svc_locks s))))"

definition releaseKey ::
  "string \<Rightarrow> nat \<Rightarrow> ('s service, 'r) prog \<Rightarrow> ('s service, 'r) prog" where
  "releaseKey key l p =
     act (\<lambda>s. (s\<lparr>svc_locks := mutex_unlock l (svc_locks s)\<rparr>, ()))
       (\<lambda>_. act (\<lambda>s. (s\<lparr>svc_locks := key_deregister key l (svc_locks s)\<rparr>, ())) (\<lambda>_. p))"

subsection \<open>Callback\<close>

record callback_input =
  cbi_event_id :: string
  cbi_sequence :: int64
  cbi_outcome :: string
  cbi_reason :: string
  cbi_fault :: string

definition normalize_callback :: "case_tables \<Rightarrow> callback_input \<Rightarrow> callback_input" where
  "normalize_callback u i =
     i\<lparr>cbi_event_id := TrimSpace (cbi_event_id i),
       cbi_outcome := ToLower (tab_lower u) (TrimSpace (cbi_outcome i)),
       cbi_reason := TrimSpace (cbi_reason i),
       cbi_fault := ToLower (tab_lower u) (TrimSpace (cbi_fault i))\<rparr>"

definition validate_callback :: "string \<Rightarrow> callback_input \<Rightarrow> go_error option" where
  "validate_callback pid i =
     (if pid = '''' then Some (ValidationError ''payment id is required'')
      else if cbi_event_id i = '''' \<or> length (cbi_event_id i) > 128
      then Some (ValidationError ''event_id is required and must be at most 128 characters'')
      else if cbi_sequence i <=s 0
      then Some (ValidationError ''sequence must be greater than zero'')
      else if cbi_outcome i \<noteq> ''success'' \<and> cbi_outcome i \<noteq> ''failed''
      then Some (ValidationError ''outcome must be success or failed'')
      else if cbi_fault i \<noteq> '''' \<and> \<not> isFault (cbi_fault i) [''before_confirm'', ''confirm'']
      then Some (ValidationError ''callback fault must be before_confirm'')
      else None)"

definition count_disposition :: "disposition \<Rightarrow> counters \<Rightarrow> counters" where
  "count_disposition d m =
     (case d of
        CallbackApplied \<Rightarrow> m\<lparr>callbacksApplied := callbacksApplied m + 1\<rparr>
      | CallbackDuplicate \<Rightarrow> m\<lparr>callbacksDuplicate := callbacksDuplicate m + 1\<rparr>
      | CallbackOutOfOrder \<Rightarrow> m\<lparr>callbacksOutOfOrder := callbacksOutOfOrder m + 1\<rparr>
      | CallbackTerminalIgnored \<Rightarrow>
          m\<lparr>callbacksTerminalIgnored := callbacksTerminalIgnored m + 1\<rparr>)"

definition svc_Callback ::
  "'s store_ops \<Rightarrow> case_tables \<Rightarrow> (nat \<Rightarrow> clock) \<Rightarrow> string \<Rightarrow> callback_input \<Rightarrow>
   ('s, callback_result) request" where
  "svc_Callback st u c pid0 i0 =
     (let pid = TrimSpace pid0; i = normalize_callback u i0 in
      case validate_callback pid i of
        Some e \<Rightarrow> Ret (Inl e)
      | None \<Rightarrow>
          count (\<lambda>m. m\<lparr>callbacks := callbacks m + 1\<rparr>)
            (if cbi_outcome i = ''success'' \<and> isFault (cbi_fault i) [''before_confirm'', ''confirm''] then
               count (\<lambda>m. m\<lparr>faultsInjected := faultsInjected m + 1\<rparr>)
                 (call (op_RecordEvent st (c 0) pid ''FAULT_INJECTED''
                          ''retryable failure injected before local Confirm''
                          (Some [''point'' \<mapsto> ''before_confirm'']))
                   (\<lambda>r. case r of
                      Inl e \<Rightarrow> Ret (Inl e)
                    | Inr _ \<Rightarrow> Ret (Inl (InjectedFault ''before_confirm''))))
             else
               call (op_ProcessCallback st (c 1) pid
                      \<lparr>cb_event_id = cbi_event_id i, cb_sequence = cbi_sequence i,
                       cb_outcome = cbi_outcome i, cb_reason = cbi_reason i\<rparr>)
                 (\<lambda>r. case r of
                    Inl e \<Rightarrow> Ret (Inl e)
                  | Inr res \<Rightarrow> count (count_disposition (cr_disposition res)) (Ret (Inr res)))))"

subsection \<open>Create\<close>

record create_result =
  cre_payment :: payment
  cre_replay :: bool

definition created_result :: "payment \<Rightarrow> create_result" where
  "created_result p = \<lparr>cre_payment = p, cre_replay = False\<rparr>"

text \<open>
  Where the method returns \<open>CreatePaymentResult{Payment: payment}, err\<close> with an error, the payment
  beside it is the zero value and no caller reads it: the result is the error.
\<close>

definition fail_payment ::
  "'s store_ops \<Rightarrow> clock \<Rightarrow> string \<Rightarrow> string \<Rightarrow> ('s, create_result) request" where
  "fail_payment st c pid reason =
     call (op_FailAndRelease st c pid reason) (\<lambda>r. Ret (case r of Inl e \<Rightarrow> Inl e | Inr p \<Rightarrow> Inr (created_result p)))"

definition create_inject ::
  "'s store_ops \<Rightarrow> clock \<Rightarrow> clock \<Rightarrow> string \<Rightarrow> string \<Rightarrow> string \<Rightarrow> string \<Rightarrow> ('s, create_result) request" where
  "create_inject st c1 c2 pid msg point reason =
     count (\<lambda>m. m\<lparr>faultsInjected := faultsInjected m + 1\<rparr>)
       (call (op_RecordEvent st c1 pid ''FAULT_INJECTED'' msg (Some [''point'' \<mapsto> point]))
         (\<lambda>_. fail_payment st c2 pid reason))"
text \<open>After the freeze: the second fault point, then the confirmation if the request asks for it.\<close>

definition create_frozen ::
  "'s store_ops \<Rightarrow> case_tables \<Rightarrow> call_env \<Rightarrow> create_input \<Rightarrow> payment \<Rightarrow> ('s, create_result) request" where
  "create_frozen st u e input p =
     (if isFault (ci_fault input) [''after_freeze''] then
        create_inject st (env_clock e 6) (env_clock e 7) (pay_id p)
          ''failure injected after local Try'' ''after_freeze''
          ''injected failure after funds freeze; local Cancel completed''
      else if ci_auto input then
        bind_prog
          (svc_Callback st u (\<lambda>k. env_clock e (8 + k)) (pay_id p)
             \<lparr>cbi_event_id = ''auto_'' @ pay_id p, cbi_sequence = 1, cbi_outcome = ''success'',
              cbi_reason = '''', cbi_fault = ''''\<rparr>)
          (\<lambda>r. case r of
             Inl err \<Rightarrow> Ret (Inl err)
           | Inr res \<Rightarrow> Ret (Inr (created_result (cr_payment res))))
      else Ret (Inr (created_result p)))"

text \<open>After \<open>StartPayment\<close>: the first fault point, then the freeze and its two business failures.\<close>

definition create_started ::
  "'s store_ops \<Rightarrow> case_tables \<Rightarrow> call_env \<Rightarrow> create_input \<Rightarrow> payment \<Rightarrow> payment \<Rightarrow>
   ('s, create_result) request" where
  "create_started st u e input createdPayment p =
     (if isFault (ci_fault input) [''before_freeze'', ''freeze''] then
        create_inject st (env_clock e 2) (env_clock e 3) (pay_id p)
          ''failure injected before local Try'' ''before_freeze''
          ''injected failure before funds freeze''
      else
        call (op_Freeze st (env_clock e 4) (pay_id p))
          (\<lambda>r. case r of
             Inr q \<Rightarrow> create_frozen st u e input q
           | Inl err \<Rightarrow>
               if err = ErrInsufficientFunds \<or> err = ErrNotFound then
                 fail_payment st (env_clock e 5) (pay_id createdPayment)
                   (if err = ErrInsufficientFunds then ''insufficient funds'' else ''account not found'')
               else Ret (Inl err)))"

definition create_new ::
  "'s store_ops \<Rightarrow> case_tables \<Rightarrow> call_env \<Rightarrow> create_input \<Rightarrow> payment \<Rightarrow> ('s, create_result) request" where
  "create_new st u e input createdPayment =
     count (\<lambda>m. m\<lparr>paymentsCreated := paymentsCreated m + 1\<rparr>)
       (call (op_StartPayment st (env_clock e 1) (pay_id createdPayment))
         (\<lambda>r. case r of
            Inl err \<Rightarrow> Ret (Inl err)
          | Inr p \<Rightarrow> create_started st u e input createdPayment p))"

definition initial_payment :: "call_env \<Rightarrow> create_input \<Rightarrow> payment" where
  "initial_payment e input =
     zero_payment\<lparr>pay_id := NewID ''pay'' (env_random e) (env_nano e), pay_mode := ''memory'',
       pay_order := ci_order input, pay_account := ci_account input, pay_amount := ci_amount input,
       pay_currency := ci_currency input, pay_status := StatusInit,
       pay_created := env_now e, pay_updated := env_now e\<rparr>"

text \<open>What runs with the key's lock held.\<close>

definition create_locked ::
  "'s store_ops \<Rightarrow> case_tables \<Rightarrow> call_env \<Rightarrow> create_input \<Rightarrow> ('s, create_result) request" where
  "create_locked st u e input =
     call (op_CreatePayment st (env_clock e 0) (initial_payment e input) (ci_key input) (Fingerprint input))
       (\<lambda>r. case r of
          Inl err \<Rightarrow> Ret (Inl err)
        | Inr (createdPayment, created) \<Rightarrow>
            if \<not> created then
              count (\<lambda>m. m\<lparr>idempotentReplays := idempotentReplays m + 1\<rparr>)
                (Ret (Inr \<lparr>cre_payment = createdPayment, cre_replay = True\<rparr>))
            else create_new st u e input createdPayment)"

definition svc_Create ::
  "'s store_ops \<Rightarrow> case_tables \<Rightarrow> call_env \<Rightarrow> create_input \<Rightarrow> ('s, create_result) request" where
  "svc_Create st u e input0 =
     (let input = NormalizeCreateInput u input0 in
      case ValidateCreateInput input of
        Some err \<Rightarrow> Ret (Inl err)
      | None \<Rightarrow>
          lockIdempotencyKey (ci_key input)
            (\<lambda>l. bind_prog (create_locked st u e input) (\<lambda>r. releaseKey (ci_key input) l (Ret r))))"

subsection \<open>The other methods\<close>

definition svc_Close ::
  "'s store_ops \<Rightarrow> call_env \<Rightarrow> string \<Rightarrow> string \<Rightarrow> ('s, payment) request" where
  "svc_Close st e pid reason =
     (if TrimSpace pid = '''' then Ret (Inl (ValidationError ''payment id is required''))
      else call (op_ClosePayment st (env_clock e 0) pid (TrimSpace reason)) Ret)"

record payment_details =
  det_payment :: payment
  det_events :: "payment_event list"

definition svc_Details :: "'s store_ops \<Rightarrow> string \<Rightarrow> ('s, payment_details) request" where
  "svc_Details st pid =
     call (op_GetPayment st (TrimSpace pid))
       (\<lambda>r. case r of
          Inl err \<Rightarrow> Ret (Inl err)
        | Inr p \<Rightarrow>
            call (op_Events st (pay_id p))
              (\<lambda>r. case r of
                 Inl err \<Rightarrow> Ret (Inl err)
               | Inr es \<Rightarrow> Ret (Inr \<lparr>det_payment = p, det_events = es\<rparr>)))"

definition svc_Events :: "'s store_ops \<Rightarrow> string \<Rightarrow> ('s, payment_event list) request" where
  "svc_Events st pid = call (op_Events st (TrimSpace pid)) Ret"

definition svc_List :: "'s store_ops \<Rightarrow> call_env \<Rightarrow> ('s, payment list) request" where
  "svc_List st e = call (op_ListPayments st (env_order e)) Ret"

definition svc_Account :: "'s store_ops \<Rightarrow> string \<Rightarrow> ('s, account) request" where
  "svc_Account st aid = call (op_Account st (TrimSpace aid)) Ret"

definition svc_Ledger :: "'s store_ops \<Rightarrow> ('s, ledger_entry list) request" where
  "svc_Ledger st = call (op_Ledger st) Ret"

record metrics_snapshot =
  met_mode :: string
  met_uptime :: int64
  met_payments :: nat
  met_by_status :: "payment_status \<rightharpoonup> nat"
  met_accounts :: nat
  met_ledger :: nat
  met_counters :: counters
  met_redis_hits :: uint64
  met_dtm :: uint64

text \<open>Each atomic load is a step of its own, so the snapshot mixes moments.\<close>

definition load :: "('s service \<Rightarrow> 'a) \<Rightarrow> ('a \<Rightarrow> ('s service, 'r) prog) \<Rightarrow> ('s service, 'r) prog" where
  "load f = act (\<lambda>s. (s, f s))"

definition svc_Metrics :: "'s store_ops \<Rightarrow> call_env \<Rightarrow> ('s, metrics_snapshot) request" where
  "svc_Metrics st e =
     call (op_Snapshot st (env_order e))
       (\<lambda>r. case r of
          Inl err \<Rightarrow> Ret (Inl err)
        | Inr snap \<Rightarrow>
            load svc_started (\<lambda>started.
            load (paymentsCreated \<circ> svc_metrics) (\<lambda>n1.
            load (idempotentReplays \<circ> svc_metrics) (\<lambda>n2.
            load (callbacks \<circ> svc_metrics) (\<lambda>n3.
            load (callbacksApplied \<circ> svc_metrics) (\<lambda>n4.
            load (callbacksDuplicate \<circ> svc_metrics) (\<lambda>n5.
            load (callbacksOutOfOrder \<circ> svc_metrics) (\<lambda>n6.
            load (callbacksTerminalIgnored \<circ> svc_metrics) (\<lambda>n7.
            load (faultsInjected \<circ> svc_metrics) (\<lambda>n8.
            Ret (Inr
              \<lparr>met_mode = ''memory'', met_uptime = unix_seconds (env_now e) - started,
               met_payments = snap_payments snap, met_by_status = snap_status_counts snap,
               met_accounts = snap_accounts snap, met_ledger = snap_ledger snap,
               met_counters =
                 \<lparr>paymentsCreated = n1, idempotentReplays = n2, callbacks = n3,
                  callbacksApplied = n4, callbacksDuplicate = n5, callbacksOutOfOrder = n6,
                  callbacksTerminalIgnored = n7, faultsInjected = n8\<rparr>,
               met_redis_hits = 0, met_dtm = 0\<rparr>)))))))))))"

definition svc_Reset :: "'s store_ops \<Rightarrow> call_env \<Rightarrow> ('s, unit) request" where
  "svc_Reset st e =
     call (op_Reset st (env_clock e 0))
       (\<lambda>r. case r of
          Inl err \<Rightarrow> Ret (Inl err)
        | Inr _ \<Rightarrow>
            count (\<lambda>m. m\<lparr>paymentsCreated := 0\<rparr>) (count (\<lambda>m. m\<lparr>idempotentReplays := 0\<rparr>)
            (count (\<lambda>m. m\<lparr>callbacks := 0\<rparr>) (count (\<lambda>m. m\<lparr>callbacksApplied := 0\<rparr>)
            (count (\<lambda>m. m\<lparr>callbacksDuplicate := 0\<rparr>) (count (\<lambda>m. m\<lparr>callbacksOutOfOrder := 0\<rparr>)
            (count (\<lambda>m. m\<lparr>callbacksTerminalIgnored := 0\<rparr>) (count (\<lambda>m. m\<lparr>faultsInjected := 0\<rparr>)
            (act (\<lambda>s. (s\<lparr>svc_started := unix_seconds (env_now e)\<rparr>, ())) (\<lambda>_. Ret (Inr ())))))))))))"

end
