(* ===== verification/Service_Safety.thy ===== *)
theory Service_Safety
  imports Payment_Service
begin

section \<open>Requests to the service, one by one and interleaved\<close>

text \<open>
  The calls that the HTTP layer makes, with their programs and answers; for every store that keeps
  \<open>payment_store\<close>, each program keeps the store's invariant and lets the store grow only, and its
  answer speaks of payments that are in the store. Both hold for any number of calls, interleaved
  in any way. The theorems about the program are the instances for the in-memory store.
\<close>

subsection \<open>Calls and answers\<close>

datatype api_call =
  CallCreate call_env create_input
| CallCallback "nat \<Rightarrow> clock" string callback_input
| CallClose call_env string string
| CallDetails string
| CallEvents string
| CallList call_env
| CallAccount string
| CallLedger
| CallMetrics call_env
| CallReset call_env

datatype api_answer =
  GotCreate "go_error + create_result"
| GotCallback "go_error + callback_result"
| GotPayment "go_error + payment"
| GotDetails "go_error + payment_details"
| GotEvents "go_error + payment_event list"
| GotList "go_error + payment list"
| GotAccount "go_error + account"
| GotLedger "go_error + ledger_entry list"
| GotMetrics "go_error + metrics_snapshot"
| GotReset "go_error + unit"

type_synonym 's served = "('s service, api_call \<times> api_answer) prog"

definition answer :: "api_call \<Rightarrow> ('a \<Rightarrow> api_answer) \<Rightarrow> ('s service, 'a) prog \<Rightarrow> 's served" where
  "answer c f p = bind_prog p (\<lambda>a. Ret (c, f a))"

fun serve :: "'s store_ops \<Rightarrow> case_tables \<Rightarrow> api_call \<Rightarrow> 's served" where
  "serve st u (CallCreate e i) = answer (CallCreate e i) GotCreate (svc_Create st u e i)"
| "serve st u (CallCallback c pid i) = answer (CallCallback c pid i) GotCallback (svc_Callback st u c pid i)"
| "serve st u (CallClose e pid m) = answer (CallClose e pid m) GotPayment (svc_Close st e pid m)"
| "serve st u (CallDetails pid) = answer (CallDetails pid) GotDetails (svc_Details st pid)"
| "serve st u (CallEvents pid) = answer (CallEvents pid) GotEvents (svc_Events st pid)"
| "serve st u (CallList e) = answer (CallList e) GotList (svc_List st e)"
| "serve st u (CallAccount aid) = answer (CallAccount aid) GotAccount (svc_Account st aid)"
| "serve st u CallLedger = answer CallLedger GotLedger (svc_Ledger st)"
| "serve st u (CallMetrics e) = answer (CallMetrics e) GotMetrics (svc_Metrics st e)"
| "serve st u (CallReset e) = answer (CallReset e) GotReset (svc_Reset st e)"

text \<open>Every call but \<open>Reset\<close>, which throws the whole state away.\<close>

fun is_reset :: "api_call \<Rightarrow> bool" where
  "is_reset (CallReset e) = True"
| "is_reset _ = False"

definition normal_call :: "'s store_ops \<Rightarrow> case_tables \<Rightarrow> 's served \<Rightarrow> bool" where
  "normal_call st u p \<longleftrightarrow> (\<exists>c. p = serve st u c \<and> \<not> is_reset c)"

definition any_call :: "'s store_ops \<Rightarrow> case_tables \<Rightarrow> 's served \<Rightarrow> bool" where
  "any_call st u p \<longleftrightarrow> (\<exists>c. p = serve st u c)"

subsection \<open>What an answer promises\<close>

text \<open>The payment in an answer is in the store, as it was or further on.\<close>

definition answered :: "'s store_ops \<Rightarrow> 's \<Rightarrow> payment \<Rightarrow> bool" where
  "answered st s p \<longleftrightarrow> (case found st (pay_id p) s of None \<Rightarrow> False | Some q \<Rightarrow> payment_grows p q)"

definition create_answer ::
  "'s store_ops \<Rightarrow> ('s \<Rightarrow> string \<Rightarrow> (string \<times> string) option) \<Rightarrow> 's \<Rightarrow> create_input \<Rightarrow> create_result \<Rightarrow> bool" where
  "create_answer st key_of s i res \<longleftrightarrow>
     answered st s (cre_payment res) \<and>
     key_of s (ci_key i) = Some (pay_id (cre_payment res), Fingerprint i) \<and>
     (cre_replay res \<or> pay_status (cre_payment res) \<noteq> StatusInit)"

fun answer_ok ::
  "'s store_ops \<Rightarrow> case_tables \<Rightarrow> ('s \<Rightarrow> string \<Rightarrow> (string \<times> string) option) \<Rightarrow> 's \<Rightarrow>
   api_call \<times> api_answer \<Rightarrow> bool" where
  "answer_ok st u key_of s (CallCreate e i, GotCreate (Inr res)) =
     create_answer st key_of s (NormalizeCreateInput u i) res"
| "answer_ok st u key_of s (CallCallback c pid i, GotCallback (Inr res)) =
     (answered st s (cr_payment res) \<and> pay_id (cr_payment res) = TrimSpace pid)"
| "answer_ok st u key_of s (CallClose e pid m, GotPayment (Inr p)) =
     (answered st s p \<and> pay_status p = StatusClosed \<and> pay_id p = pid)"
| "answer_ok st u key_of s (c, a) = True"

subsection \<open>Each step keeps the contract\<close>

abbreviation on_store :: "('s \<Rightarrow> bool) \<Rightarrow> 's service \<Rightarrow> bool" where
  "on_store I \<equiv> \<lambda>s. I (svc_store s)"

abbreviation between :: "('s \<Rightarrow> 's \<Rightarrow> bool) \<Rightarrow> 's service \<Rightarrow> 's service \<Rightarrow> bool" where
  "between G \<equiv> \<lambda>s t. G (svc_store s) (svc_store t)"

definition create_post ::
  "'s store_ops \<Rightarrow> ('s \<Rightarrow> string \<Rightarrow> (string \<times> string) option) \<Rightarrow> create_input \<Rightarrow> 's service \<Rightarrow>
   go_error + create_result \<Rightarrow> bool" where
  "create_post st key_of i s r =
     (case r of Inl e \<Rightarrow> True | Inr res \<Rightarrow> create_answer st key_of (svc_store s) i res)"

text \<open>\<open>low\<close> is a payment that was in the store when the callback arrived.\<close>

definition callback_post ::
  "'s store_ops \<Rightarrow> string \<Rightarrow> payment option \<Rightarrow> 's service \<Rightarrow> go_error + callback_result \<Rightarrow> bool" where
  "callback_post st pid low s r =
     (case r of Inl e \<Rightarrow> True
      | Inr res \<Rightarrow> answered st (svc_store s) (cr_payment res) \<and> pay_id (cr_payment res) = pid \<and>
          (case low of None \<Rightarrow> True | Some p \<Rightarrow> payment_grows p (cr_payment res)))"

lemma grows_not_init:
  "payment_grows p q \<Longrightarrow> pay_status p \<noteq> StatusInit \<Longrightarrow> pay_status q \<noteq> StatusInit"
  by (auto simp: payment_grows_def status_le_def)

lemma post_Inl [simp]:
  "create_post st key_of i s (Inl e)" "callback_post st pid low s (Inl e)"
  by (simp_all add: create_post_def callback_post_def)

context store_contract begin

lemma between_transp: "transp (between grows)"
  by (rule transpI) (blast intro: grows_trans)

lemma between_reflp: "reflp (between grows)"
  by (rule reflpI) (rule grows_refl)

text \<open>A step that leaves the store alone, and a call of a store method.\<close>

lemma ens_silent:
  assumes "\<And>s. svc_store (fst (f s)) = svc_store s"
    and "\<And>t a. grows (svc_store s) (svc_store t) \<Longrightarrow> inv (svc_store t) \<Longrightarrow>
      ensures (on_store inv) (between grows) Q t (k a)"
  shows "ensures (on_store inv) (between grows) Q s (act f k)"
proof (rule ensures_act)
  fix s' t :: "'s service" and a
  assume s': "grows (svc_store s) (svc_store s')" "inv (svc_store s')" "f s' = (t, a)"
  with assms(1) [of s'] have "svc_store t = svc_store s'" by simp
  with s' assms(2) grows_refl
  show "inv (svc_store t) \<and> grows (svc_store s') (svc_store t) \<and>
      ensures (on_store inv) (between grows) Q t (k a)" by simp
qed

lemma ens_count:
  assumes "\<And>t. grows (svc_store s) (svc_store t) \<Longrightarrow> inv (svc_store t) \<Longrightarrow>
      ensures (on_store inv) (between grows) Q t p"
  shows "ensures (on_store inv) (between grows) Q s (count f p)"
  unfolding count_def using assms by (intro ens_silent) simp_all

lemma ens_load:
  assumes "\<And>t a. ensures (on_store inv) (between grows) Q t (k a)"
  shows "ensures (on_store inv) (between grows) Q s (load f k)"
  unfolding load_def using assms by (intro ens_silent) simp_all

lemma ens_call:
  assumes law: "\<And>s. inv s \<Longrightarrow> inv (fst (f s)) \<and> grows s (fst (f s))"
    and k: "\<And>s1 t r. grows (svc_store s) s1 \<Longrightarrow> inv s1 \<Longrightarrow> f s1 = (svc_store t, r) \<Longrightarrow>
      inv (svc_store t) \<Longrightarrow> grows s1 (svc_store t) \<Longrightarrow>
      ensures (on_store inv) (between grows) Q t (k r)"
  shows "ensures (on_store inv) (between grows) Q s (call f k)"
  unfolding call_def
proof (rule ensures_act)
  fix s' t :: "'s service" and r
  assume s': "grows (svc_store s) (svc_store s')" "inv (svc_store s')"
    and f: "(case f (svc_store s') of (u, r) \<Rightarrow> (s'\<lparr>svc_store := u\<rparr>, r)) = (t, r)"
  then have t: "f (svc_store s') = (svc_store t, r)" by (auto split: prod.splits)
  with law [OF s'(2)] have "inv (svc_store t)" "grows (svc_store s') (svc_store t)" by simp_all
  with k [OF s' t] show "inv (svc_store t) \<and> grows (svc_store s') (svc_store t) \<and>
      ensures (on_store inv) (between grows) Q t (k r)" by blast
qed

lemma ens_read:
  assumes "read_only f" and "\<And>t r. ensures (on_store inv) (between grows) Q t (k r)"
  shows "ensures (on_store inv) (between grows) Q s (call f k)"
  using assms grows_refl by (intro ens_call) (simp_all add: read_only_def)

text \<open>The reading requests promise nothing but the contract.\<close>

lemma ens_readers:
  "ensures (on_store inv) (between grows) (\<lambda>_ _. True) s (svc_Details st pid)"
  "ensures (on_store inv) (between grows) (\<lambda>_ _. True) s (svc_Events st pid)"
  "ensures (on_store inv) (between grows) (\<lambda>_ _. True) s (svc_List st e)"
  "ensures (on_store inv) (between grows) (\<lambda>_ _. True) s (svc_Account st aid)"
  "ensures (on_store inv) (between grows) (\<lambda>_ _. True) s (svc_Ledger st)"
  "ensures (on_store inv) (between grows) (\<lambda>_ _. True) s (svc_Metrics st e)"
  unfolding svc_Details_def svc_Events_def svc_List_def svc_Account_def svc_Ledger_def svc_Metrics_def
  by (auto intro!: ens_read read_laws ens_load split: sum.split)

text \<open>
  The writing requests, without a claim about their answers; so this holds beside a \<open>Reset\<close> too.
\<close>

lemma ens_lock:
  assumes "\<And>t l. grows (svc_store s) (svc_store t) \<Longrightarrow> inv (svc_store t) \<Longrightarrow>
      ensures (on_store inv) (between grows) Q t (k l)"
  shows "ensures (on_store inv) (between grows) Q s (lockIdempotencyKey key k)"
  unfolding lockIdempotencyKey_def
proof (rule ens_silent)
  fix t :: "'s service" and l
  assume t: "grows (svc_store s) (svc_store t)"
  show "ensures (on_store inv) (between grows) Q t
      (Step (\<lambda>s. map_option (\<lambda>t. (s\<lparr>svc_locks := t\<rparr>, k l)) (mutex_lock l (svc_locks s))))"
    by (intro ensures_Step) (auto simp: grows_refl intro!: assms intro: grows_trans [OF t])
qed (simp split: prod.split)

lemma ens_release:
  assumes "\<And>t. grows (svc_store s) (svc_store t) \<Longrightarrow> ensures (on_store inv) (between grows) Q t p"
  shows "ensures (on_store inv) (between grows) Q s (releaseKey key l p)"
  unfolding releaseKey_def using assms by (intro ens_silent) (auto intro: grows_trans)

lemma keep_Callback: "ensures (on_store inv) (between grows) (\<lambda>_ _. True) s (svc_Callback st u c pid i)"
  unfolding svc_Callback_def Let_def
  by (auto intro!: ens_count ens_call [OF record_law] ens_call [OF callback_law] split: option.split sum.split)

lemma keep_Close: "ensures (on_store inv) (between grows) (\<lambda>_ _. True) s (svc_Close st e pid m)"
  unfolding svc_Close_def by (auto intro!: ens_call [OF close_law] split: sum.split)

lemma keep_fail: "ensures (on_store inv) (between grows) (\<lambda>_ _. True) s (fail_payment st c pid m)"
  unfolding fail_payment_def by (auto intro!: ens_call [OF fail_law] split: sum.split)

lemma keep_inject: "ensures (on_store inv) (between grows) (\<lambda>_ _. True) s (create_inject st c1 c2 pid m pt m')"
  unfolding create_inject_def by (auto intro!: ens_count ens_call [OF record_law] keep_fail)

lemma keep_frozen: "ensures (on_store inv) (between grows) (\<lambda>_ _. True) s (create_frozen st u e i p)"
  unfolding create_frozen_def
  by (auto intro!: ensures_if keep_inject ensures_bind [OF keep_Callback] split: sum.split)

lemma keep_started: "ensures (on_store inv) (between grows) (\<lambda>_ _. True) s (create_started st u e i q p)"
  unfolding create_started_def
  by (auto intro!: ensures_if keep_inject ens_call [OF freeze_law] keep_frozen keep_fail split: sum.split)

lemma new_initial_payment: "valid_input i \<Longrightarrow> new_payment (initial_payment e i)"
  by (simp add: new_payment_def initial_payment_def valid_input_def zero_payment_def)

lemma keep_Create: "ensures (on_store inv) (between grows) (\<lambda>_ _. True) s (svc_Create st u e i)"
proof (cases "ValidateCreateInput (NormalizeCreateInput u i)")
  case None
  then have "new_payment (initial_payment e (NormalizeCreateInput u i))"
    by (simp add: validate_valid new_initial_payment)
  then have "ensures (on_store inv) (between grows) (\<lambda>_ _. True) s
      (create_locked st u e (NormalizeCreateInput u i))" for s
    unfolding create_locked_def create_new_def
    by (auto intro!: ens_call [OF create_law] ens_count ens_call [OF start_law] keep_started
        split: sum.split)
  then show ?thesis
    unfolding svc_Create_def Let_def None option.case
    by (intro ens_lock ensures_bind [where Q' = "\<lambda>_ _. True"] ens_release ensures_Ret) simp_all
next
  case (Some err)
  then show ?thesis by (simp add: svc_Create_def Let_def)
qed

end

context payment_store begin

lemma answered_found:
  "found st pid s = Some p \<Longrightarrow> inv s \<Longrightarrow> answered st s p"
  using found_id [of s pid p] by (auto simp: answered_def)

lemma answered_later: "answered st s p \<Longrightarrow> grows s t \<Longrightarrow> answered st t p"
  using found_grows [of s t "pay_id p"]
  by (auto simp: answered_def split: option.splits intro: payment_grows_trans)

end

subsection \<open>The answers of the writing requests\<close>

context payment_store begin

lemma answered_id:
  "inv s \<Longrightarrow> found st pid s = Some p \<Longrightarrow> grows s t \<Longrightarrow> answered st t p \<and> pay_id p = pid"
  by (blast intro: answered_found answered_later found_id)

lemma ens_Callback:
  assumes low: "\<And>p. low = Some p \<Longrightarrow> found st (TrimSpace pid) (svc_store s) = Some p"
  shows "ensures (on_store inv) (between grows) (callback_post st (TrimSpace pid) low) s
    (svc_Callback st u c pid i)"
proof (cases "validate_callback (TrimSpace pid) (normalize_callback u i)")
  case None
  have post: "callback_post st (TrimSpace pid) low t (Inr res)"
    if "op_ProcessCallback st cl (TrimSpace pid) cb s1 = (s2, Inr res)" "inv s1" "inv s2" "grows s2 (svc_store t)" "grows (svc_store s) s2" for s1 s2 and t :: "'s service" and cl cb res
  proof -
    have f: "found st (TrimSpace pid) s2 = Some (cr_payment res)"
      using callback_found [OF that(2,1)] by blast
    have "payment_grows p (cr_payment res)" if "low = Some p" for p
      using found_grows [OF \<open>grows (svc_store s) s2\<close> low [OF that]] f by auto
    then show ?thesis
      using answered_id [OF that(3) f that(4)] by (auto simp: callback_post_def split: option.split)
  qed
  show ?thesis
    using None unfolding svc_Callback_def Let_def
    by (auto intro!: ens_count ens_call [OF record_law] ens_call [OF callback_law] split: sum.split)
      (erule post, assumption+, blast intro: grows_trans)+
next
  case (Some e)
  then show ?thesis by (simp add: svc_Callback_def Let_def)
qed

lemma ens_Close:
  "ensures (on_store inv) (between grows)
     (\<lambda>s r. case r of Inl e \<Rightarrow> True
        | Inr p \<Rightarrow> answered st (svc_store s) p \<and> pay_status p = StatusClosed \<and> pay_id p = pid)
     s (svc_Close st e pid m)"
  unfolding svc_Close_def
  by (auto intro!: ens_call [OF close_law] dest!: close_found [rotated]
      dest: answered_found found_id split: sum.split)

text \<open>
  The continuations of Create, each from a state in which the key is bound to the payment and the
  payment is known to be past INIT.
\<close>

lemma ens_create_result:
  assumes "inv s1" and "found st pid s1 = Some p" and "key_of s1 (ci_key i) = Some (pid, Fingerprint i)"
    and "pay_status p \<noteq> StatusInit" and "grows s1 (svc_store t)"
  shows "create_post st key_of i t (Inr (created_result p))"
proof -
  have "pay_id p = pid" using found_id [OF assms(1,2)] .
  moreover have "answered st (svc_store t) p" using answered_id [OF assms(1,2,5)] by blast
  ultimately show ?thesis
    using assms(4) key_grows [OF assms(5,3)]
    by (simp add: create_post_def create_answer_def created_result_def)
qed

lemma ens_fail_payment:
  assumes "key_of (svc_store s) (ci_key i) = Some (pid, Fingerprint i)"
  shows "ensures (on_store inv) (between grows) (create_post st key_of i) s (fail_payment st c pid reason)"
  unfolding fail_payment_def
proof (rule ens_call [OF fail_law])
  fix s1 r and t :: "'s service"
  assume s1: "grows (svc_store s) s1" "inv s1" "op_FailAndRelease st c pid reason s1 = (svc_store t, r)"
    "inv (svc_store t)" "grows s1 (svc_store t)"
  have key: "key_of (svc_store t) (ci_key i) = Some (pid, Fingerprint i)"
    using assms key_grows s1(1,5) by blast
  show "ensures (on_store inv) (between grows) (create_post st key_of i) t
      (Ret (case r of Inl e \<Rightarrow> Inl e | Inr p \<Rightarrow> Inr (created_result p)))"
    using fail_found [of s1 c pid reason "svc_store t"] s1 key grows_refl
    by (auto intro!: ens_create_result [OF s1(4)] split: sum.split)
qed assumption

lemma ens_create_inject:
  assumes "key_of (svc_store s) (ci_key i) = Some (pid, Fingerprint i)"
  shows "ensures (on_store inv) (between grows) (create_post st key_of i) s
    (create_inject st c1 c2 pid msg point reason)"
  unfolding create_inject_def
  by (rule ens_count, rule ens_call [OF record_law], assumption, rule ens_fail_payment)
    (use assms key_grows in blast)

lemma ens_create_frozen:
  assumes key: "key_of (svc_store s) (ci_key i) = Some (pid, Fingerprint i)"
    and p: "inv (svc_store s)" "found st pid (svc_store s) = Some p" "pay_status p \<noteq> StatusInit"
    and trim: "TrimSpace pid = pid"
  shows "ensures (on_store inv) (between grows) (create_post st key_of i) s (create_frozen st u e i p)"
proof -
  have id: "pay_id p = pid" using found_id [OF p(1,2)] .
  have auto: "ensures (on_store inv) (between grows) (create_post st key_of i) s
      (bind_prog (svc_Callback st u c pid ev) (\<lambda>r. case r of Inl err \<Rightarrow> Ret (Inl err)
         | Inr res \<Rightarrow> Ret (Inr (created_result (cr_payment res)))))" for c ev
  proof (rule ensures_bind)
    have "ensures (on_store inv) (between grows) (callback_post st (TrimSpace pid) (Some p)) s
        (svc_Callback st u c pid ev)"
      using p(2) trim by (intro ens_Callback) simp
    from ensures_since [OF this p(1) grows_refl between_transp]
    show "ensures (on_store inv) (between grows)
        (\<lambda>t r. callback_post st pid (Some p) t r \<and> inv (svc_store t) \<and> grows (svc_store s) (svc_store t)) s
        (svc_Callback st u c pid ev)" unfolding trim .
    fix t :: "'s service" and r
    assume "callback_post st pid (Some p) t r \<and> inv (svc_store t) \<and> grows (svc_store s) (svc_store t)"
    then show "ensures (on_store inv) (between grows) (create_post st key_of i) t (case r of Inl err \<Rightarrow> Ret (Inl err)
         | Inr res \<Rightarrow> Ret (Inr (created_result (cr_payment res))))"
      using key_grows [OF _ key] grows_not_init [OF _ p(3)]
      by (auto simp: callback_post_def create_post_def create_answer_def created_result_def split: sum.split)
  qed
  show ?thesis
    unfolding create_frozen_def
    using ens_create_inject [OF key] ens_create_result [OF p(1,2) key p(3) grows_refl] id auto
    by auto
qed

end

context payment_store begin

lemma ens_create_started:
  assumes key: "key_of (svc_store s) (ci_key i) = Some (pid, Fingerprint i)"
    and p: "inv (svc_store s)" "found st pid (svc_store s) = Some p" "pay_status p \<noteq> StatusInit"
    and id: "TrimSpace pid = pid" "pay_id q = pid"
  shows "ensures (on_store inv) (between grows) (create_post st key_of i) s (create_started st u e i q p)"
proof -
  have pid: "pay_id p = pid" using found_id [OF p(1,2)] .
  have "ensures (on_store inv) (between grows) (create_post st key_of i) s
      (call (op_Freeze st c pid)
        (\<lambda>r. case r of
           Inr q' \<Rightarrow> create_frozen st u e i q'
         | Inl err \<Rightarrow>
             if err = ErrInsufficientFunds \<or> err = ErrNotFound then
               fail_payment st c' pid
                 (if err = ErrInsufficientFunds then ''insufficient funds'' else ''account not found'')
             else Ret (Inl err)))" for c c'
  proof (rule ens_call [OF freeze_law])
    fix s1 r and t :: "'s service"
    assume s1: "grows (svc_store s) s1" "inv s1" "op_Freeze st c pid s1 = (svc_store t, r)"
      "inv (svc_store t)" "grows s1 (svc_store t)"
    have key': "key_of (svc_store t) (ci_key i) = Some (pid, Fingerprint i)"
      using key key_grows s1(1,5) by blast
    show "ensures (on_store inv) (between grows) (create_post st key_of i) t
        (case r of
           Inr q' \<Rightarrow> create_frozen st u e i q'
         | Inl err \<Rightarrow>
             if err = ErrInsufficientFunds \<or> err = ErrNotFound then
               fail_payment st c' pid
                 (if err = ErrInsufficientFunds then ''insufficient funds'' else ''account not found'')
             else Ret (Inl err))"
      using ens_fail_payment [OF key'] ens_create_frozen [OF key' s1(4) _ _ id(1)]
        freeze_found [of s1 c pid "svc_store t"] s1
      by (auto split: sum.split)
  qed assumption
  then show ?thesis
    unfolding create_started_def pid id(2) by (intro ensures_if ens_create_inject [OF key])
qed

lemma ens_create_new:
  assumes key: "key_of (svc_store s) (ci_key i) = Some (pid, Fingerprint i)"
    and id: "TrimSpace pid = pid" "pay_id q = pid"
  shows "ensures (on_store inv) (between grows) (create_post st key_of i) s (create_new st u e i q)"
  unfolding create_new_def id
proof (rule ens_count, rule ens_call [OF start_law])
  fix s1 r and t1 t :: "'s service"
  assume t1: "grows (svc_store s) (svc_store t1)"
    and s1: "grows (svc_store t1) s1" "inv s1" "op_StartPayment st (env_clock e 1) pid s1 = (svc_store t, r)"
      "inv (svc_store t)" "grows s1 (svc_store t)"
  have key': "key_of (svc_store t) (ci_key i) = Some (pid, Fingerprint i)"
    using key key_grows t1 s1(1,5) by blast
  show "ensures (on_store inv) (between grows) (create_post st key_of i) t
      (case r of Inl err \<Rightarrow> Ret (Inl err) | Inr p \<Rightarrow> create_started st u e i q p)"
    using start_found [of s1 "env_clock e 1" pid "svc_store t"] s1
      ens_create_started [OF key' s1(4) _ _ id]
    by (auto split: sum.split)
qed assumption

lemma ens_create_locked:
  assumes "valid_input i"
  shows "ensures (on_store inv) (between grows) (create_post st key_of i) s (create_locked st u e i)"
  unfolding create_locked_def
proof (rule ens_call [OF create_law])
  fix s1 r and t :: "'s service"
  assume s1: "grows (svc_store s) s1" "inv s1" "op_CreatePayment st (env_clock e 0)
      (initial_payment e i) (ci_key i) (Fingerprint i) s1 = (svc_store t, r)"
    "inv (svc_store t)" "grows s1 (svc_store t)"
  show "ensures (on_store inv) (between grows) (create_post st key_of i) t
      (case r of Inl err \<Rightarrow> Ret (Inl err)
       | Inr (createdPayment, created) \<Rightarrow>
           if \<not> created then count (\<lambda>m. m\<lparr>idempotentReplays := idempotentReplays m + 1\<rparr>)
             (Ret (Inr \<lparr>cre_payment = createdPayment, cre_replay = True\<rparr>))
           else create_new st u e i createdPayment)"
  proof (cases r)
    case (Inr qb)
    obtain q b where qb: "qb = (q, b)" by (cases qb)
    note cr = s1(3) [unfolded Inr qb]
    note key = create_key [OF s1(2) cr]
    show ?thesis
    proof (cases b)
      case True
      then have "q = initial_payment e i" using create_new_key [OF cr] by blast
      then have "TrimSpace (pay_id q) = pay_id q"
        by (simp add: initial_payment_def TrimSpace_NewID)
      with key ens_create_new [of t i "pay_id q" q] True show ?thesis by (simp add: Inr qb)
    next
      case False
      have "create_post st key_of i t' (Inr \<lparr>cre_payment = q, cre_replay = True\<rparr>)"
        if "grows (svc_store t) (svc_store t')" for t' :: "'s service"
        using answered_id [OF s1(4) _ that, of "pay_id q" q] key key_grows [OF that]
        by (simp add: create_post_def create_answer_def)
      with False show ?thesis by (auto simp: Inr qb intro!: ens_count)
    qed
  qed simp
qed (use new_initial_payment assms in auto)

lemma stable_create_post: "grows (svc_store s) (svc_store t) \<Longrightarrow> create_post st key_of i s r \<Longrightarrow> create_post st key_of i t r"
  by (auto simp: create_post_def create_answer_def intro: answered_later key_grows split: sum.splits)

lemma ens_Create:
  "ensures (on_store inv) (between grows) (create_post st key_of (NormalizeCreateInput u i)) s
     (svc_Create st u e i)"
proof (cases "ValidateCreateInput (NormalizeCreateInput u i)")
  case None
  then have "valid_input (NormalizeCreateInput u i)" by (simp add: validate_valid)
  then show ?thesis
    unfolding svc_Create_def Let_def None
    by (auto intro!: ens_lock ensures_bind [OF ens_create_locked] ens_release intro: stable_create_post)
next
  case (Some err)
  then show ?thesis by (simp add: svc_Create_def Let_def)
qed

subsection \<open>Any call, and any interleaving\<close>

lemma ens_answer:
  "ensures (on_store inv) (between grows) Q s p \<Longrightarrow> (\<And>t a. Q t a \<Longrightarrow> Q' t (c, f a)) \<Longrightarrow>
   ensures (on_store inv) (between grows) Q' s (answer c f p)"
  unfolding answer_def by (rule ensures_bind [where Q' = Q]) simp_all

lemma ens_serve:
  assumes "\<not> is_reset c"
  shows "ensures (on_store inv) (between grows) (\<lambda>t. answer_ok st u key_of (svc_store t)) s (serve st u c)"
proof (cases c)
  case (CallCreate e i)
  then show ?thesis
    by (auto intro!: ens_answer [OF ens_Create] simp: create_post_def split: sum.splits)
next
  case (CallCallback cl pid i)
  then show ?thesis
    by (auto intro!: ens_answer [OF ens_Callback [of None]] simp: callback_post_def split: sum.splits)
next
  case (CallClose e pid m)
  then show ?thesis
    by (auto intro!: ens_answer [OF ens_Close] split: sum.splits)
qed (use assms in \<open>auto intro!: ens_answer [OF ens_readers(1)] ens_answer [OF ens_readers(2)]
    ens_answer [OF ens_readers(3)] ens_answer [OF ens_readers(4)] ens_answer [OF ens_readers(5)]
    ens_answer [OF ens_readers(6)]\<close>)

lemma answer_ok_stable: "stable (between grows) (\<lambda>t. answer_ok st u key_of (svc_store t))"
  unfolding stable_def
proof (intro allI impI)
  fix s t :: "'s service" and r
  assume "answer_ok st u key_of (svc_store s) r" and "grows (svc_store s) (svc_store t)"
  then show "answer_ok st u key_of (svc_store t) r"
    by (cases "(st, u, key_of, svc_store s, r)" rule: answer_ok.cases)
      (auto simp: create_answer_def intro: answered_later key_grows)
qed

lemmas pool_run_store = pool_run_ok [where I = "on_store inv" and G = "between grows"
    and Q = "\<lambda>t. answer_ok st u key_of (svc_store t)", OF _ _ between_reflp between_transp answer_ok_stable] for u

lemma pool_normal_ok:
  assumes "pool_run (normal_call st u) c d"
    and "pool_ok (on_store inv) (between grows) (\<lambda>t. answer_ok st u key_of (svc_store t)) c"
  shows "pool_ok (on_store inv) (between grows) (\<lambda>t. answer_ok st u key_of (svc_store t)) d \<and>
    grows (svc_store (fst c)) (svc_store (fst d))"
proof (rule pool_run_store [OF assms(1) _ assms(2)])
  show "ensures (on_store inv) (between grows) (\<lambda>t. answer_ok st u key_of (svc_store t)) s p"
    if "normal_call st u p" for s p
    using that ens_serve by (auto simp: normal_call_def)
qed

lemma pool_normal:
  assumes "pool_run (normal_call st u) (s, []) (t, ps)" and "inv (svc_store s)"
  shows "inv (svc_store t)" and "grows (svc_store s) (svc_store t)"
    and "Ret r \<in> set ps \<Longrightarrow> answer_ok st u key_of (svc_store t) r"
  using pool_normal_ok [OF assms(1)] assms(2) by (auto simp: pool_ok_def dest: bspec)

text \<open>Two moments of one run, with requests in flight at both.\<close>

lemma pool_normal_later:
  assumes "pool_run (normal_call st u) (s0, []) (s, ps)" and "inv (svc_store s0)"
    and "pool_run (normal_call st u) (s, ps) (t, qs)"
  shows "grows (svc_store s) (svc_store t)"
  using pool_normal_ok [OF assms(1)] pool_normal_ok [OF assms(3)] assms(2) by simp

end

subsection \<open>With resets\<close>

text \<open>
  \<open>Reset\<close> breaks the growth, so a claim that holds beside it can only be about the invariant: the
  contract with a relation that even \<open>Reset\<close> keeps.
\<close>

locale resettable_store = store_contract st inv grows
  for st :: "'s store_ops" and inv :: "'s \<Rightarrow> bool" and grows :: "'s \<Rightarrow> 's \<Rightarrow> bool" +
  assumes reset_grows: "grows s (fst (op_Reset st c s))"
begin

lemma keep_Reset: "ensures (on_store inv) (between grows) (\<lambda>_ _. True) s (svc_Reset st e)"
  unfolding svc_Reset_def using reset_law reset_grows
  by (auto intro!: ens_call ens_count ens_silent split: sum.split)

lemma keep_serve: "ensures (on_store inv) (between grows) (\<lambda>_ _. True) s (serve st u c)"
  unfolding answer_def
  by (cases c) (auto simp: answer_def intro!: ensures_bind [where Q' = "\<lambda>_ _. True"]
      keep_Create keep_Callback keep_Close keep_Reset ens_readers)

lemma pool_any:
  assumes "pool_run (any_call st u) (s, []) (t, ps)" and "inv (svc_store s)"
  shows "inv (svc_store t)"
proof -
  have "pool_ok (on_store inv) (between grows) (\<lambda>_ _. True) (t, ps)"
    using pool_run_ok [OF assms(1) _ between_reflp between_transp, of "on_store inv" "\<lambda>_ _. True"]
      keep_serve assms(2)
    by (auto simp: any_call_def stable_def)
  then show ?thesis by (simp add: pool_ok_def)
qed

end

interpretation memory_any: resettable_store memory_ops demo_inv "\<lambda>_ _. True"
  by unfold_locales
    (use memory_sound memory_reset in \<open>auto intro: read_only_methods\<close>)

end
