(* ===== verification/Transaction_Views.thy ===== *)
theory Transaction_Views
  imports Domain
begin

section \<open>Views of a distributed transaction\<close>

text \<open>
  The read-only views that \<open>internal/distributed/diagnostics.go\<close> assembles from the tables, and
  what \<open>Service.Health\<close> reports. A pointer field is an option.
\<close>

record reservation_view =
  rv_gid :: string
  rv_payment :: string
  rv_account :: string
  rv_amount :: int64
  rv_status :: string
  rv_updated :: time

record ledger_view =
  lv_gid :: string
  lv_payment :: string
  lv_account :: string
  lv_amount :: int64
  lv_status :: string
  lv_updated :: time

record barrier_view =
  bv_branch :: string
  bv_op :: string
  bv_reason :: string
  bv_created :: time

record transaction_view =
  tv_gid :: string
  tv_dtm_status :: string
  tv_rollback_reason :: string
  tv_payment :: payment
  tv_reservation :: "reservation_view option"
  tv_ledger :: "ledger_view option"
  tv_barriers :: "barrier_view list"

text \<open>The map that a health check returns; \<open>hi_dependencies\<close> is missing in memory mode.\<close>

record health_info =
  hi_status :: string
  hi_service :: string
  hi_version :: string
  hi_mode :: string
  hi_dependencies :: "(string \<rightharpoonup> string) option"
  hi_time :: time

end
