(* ===== verification/Http_Api.thy ===== *)
theory Http_Api
  imports Service_Safety Transaction_Views
begin

section \<open>The HTTP API\<close>

text \<open>
  \<open>internal/httpapi/handler.go\<close>: the routes, the handlers, the decoding of request bodies and the
  mapping of results and errors to responses. A handler is a program on the state of the backend:
  it decodes the request, runs one method of the backend and turns its result into a response.
  \<open>encoding/json\<close> and the embedded page are parameters (\<open>site\<close>): what the code relies on is which
  of its error classes a body falls into. The JSON text of a response is not modelled.
\<close>

subsection \<open>The backend\<close>

text \<open>
  \<open>'w\<close> is the state the backend works on, \<open>'e\<close> what a request reads from its environment. The last
  three fields are what the type assertions of the handlers ask for.
\<close>

record ('w, 'e) backend =
  bk_Create :: "'e \<Rightarrow> create_input \<Rightarrow> ('w, go_error + create_result) prog"
  bk_Callback :: "'e \<Rightarrow> string \<Rightarrow> callback_input \<Rightarrow> ('w, go_error + callback_result) prog"
  bk_Close :: "'e \<Rightarrow> string \<Rightarrow> string \<Rightarrow> ('w, go_error + payment) prog"
  bk_Details :: "'e \<Rightarrow> string \<Rightarrow> ('w, go_error + payment_details) prog"
  bk_Events :: "'e \<Rightarrow> string \<Rightarrow> ('w, go_error + payment_event list) prog"
  bk_List :: "'e \<Rightarrow> ('w, go_error + payment list) prog"
  bk_Account :: "'e \<Rightarrow> string \<Rightarrow> ('w, go_error + account) prog"
  bk_Ledger :: "'e \<Rightarrow> ('w, go_error + ledger_entry list) prog"
  bk_Metrics :: "'e \<Rightarrow> ('w, go_error + metrics_snapshot) prog"
  bk_Reset :: "'e \<Rightarrow> ('w, go_error + unit) prog"
  bk_Mode :: "string option"
  bk_Health :: "('e \<Rightarrow> ('w, health_info \<times> go_error option) prog) option"
  bk_Transaction :: "('e \<Rightarrow> string \<Rightarrow> ('w, go_error + transaction_view) prog) option"

subsection \<open>Requests\<close>

record create_request =
  crq_order :: string
  crq_account :: string
  crq_amount :: int64
  crq_currency :: string
  crq_key :: string
  crq_auto :: bool
  crq_fault :: string

record callback_request =
  cbq_event_id :: string
  cbq_sequence :: int64
  cbq_outcome :: string
  cbq_reason :: string
  cbq_fault :: string

record close_request =
  clq_reason :: string

text \<open>
  What \<open>Decode\<close> returns for a body: the value, or an error by the class the code tests for;
  \<open>PlainError\<close> is an error that the code knows by its text only. The flag beside it says that
  the second \<open>Decode\<close>, into an empty struct, finds the end of the body.
\<close>

datatype json_error = SyntaxError int | UnmarshalTypeError string | EOF | PlainError string

type_synonym 'a decoder = "string \<Rightarrow> (json_error + 'a) \<times> bool"

record site =
  site_create :: "create_request decoder"
  site_callback :: "callback_request decoder"
  site_close :: "close_request decoder"
  site_page :: "string option"

definition HasPrefix :: "string \<Rightarrow> string \<Rightarrow> bool" where
  "HasPrefix s p \<longleftrightarrow> take (length p) s = p"

text \<open>The result is the text of the error, or the value; \<open>zero\<close> is the destination's zero value.\<close>

definition decode_error :: "json_error \<Rightarrow> string" where
  "decode_error err =
     (case err of
        SyntaxError off \<Rightarrow> ''malformed JSON at byte '' @ show_int off
      | UnmarshalTypeError field \<Rightarrow> ''invalid value for field '' @ field
      | EOF \<Rightarrow> ''request body must contain a JSON object''
      | PlainError t \<Rightarrow>
          if HasPrefix t ''json: unknown field '' then t
          else if t = ''http: request body too large'' then ''request body must not exceed 1 MiB''
          else ''invalid JSON request body'')"

definition decodeJSON :: "'a \<Rightarrow> 'a decoder \<Rightarrow> string \<Rightarrow> bool \<Rightarrow> string + 'a" where
  "decodeJSON zero dec body allowEmpty =
     (case dec body of
        (Inl err, _) \<Rightarrow> if allowEmpty \<and> err = EOF then Inr zero else Inl (decode_error err)
      | (Inr v, at_end) \<Rightarrow>
          if \<not> at_end then Inl ''request body must contain a single JSON object'' else Inr v)"

text \<open>
  \<open>rq_path\<close> is the path after its first slash, split at the slashes and unescaped: the path of the
  page is \<open>[""]\<close>. \<open>rq_key\<close> is the header \<open>Idempotency-Key\<close>, empty when it is missing.
\<close>

record 'e http_request =
  rq_method :: string
  rq_path :: "string list"
  rq_key :: string
  rq_body :: string
  rq_env :: 'e
  rq_now :: time

subsection \<open>Responses\<close>

datatype response_data =
  DataCreate create_result
| DataPayments "payment list"
| DataDetails payment_details
| DataEvents string "payment_event list"
| DataCallback callback_result
| DataPayment payment
| DataAccount account
| DataLedger "ledger_entry list"
| DataMetrics metrics_snapshot
| DataMessage string
| DataSystem string bool "string list" "(string \<times> string) option"
| DataHealth health_info
| DataTransaction transaction_view

record responseError =
  err_code :: string
  err_message :: string

record responseEnvelope =
  env_success :: bool
  env_data :: "response_data option"
  env_error :: "responseError option"

datatype response_body = Page string | Envelope responseEnvelope

record response =
  rs_status :: nat
  rs_type :: string
  rs_cache :: string
  rs_body :: response_body

definition writeJSON :: "nat \<Rightarrow> responseEnvelope \<Rightarrow> response" where
  "writeJSON status payload =
     \<lparr>rs_status = status, rs_type = ''application/json; charset=utf-8'', rs_cache = ''no-store'',
      rs_body = Envelope payload\<rparr>"

definition writeData :: "nat \<Rightarrow> response_data \<Rightarrow> response" where
  "writeData status data =
     writeJSON status \<lparr>env_success = True, env_data = Some data, env_error = None\<rparr>"

definition writeError :: "nat \<Rightarrow> string \<Rightarrow> string \<Rightarrow> response" where
  "writeError status code message =
     writeJSON status
       \<lparr>env_success = False, env_data = None,
        env_error = Some \<lparr>err_code = code, err_message = message\<rparr>\<rparr>"

definition writeServiceError :: "go_error \<Rightarrow> response" where
  "writeServiceError err =
     (case err of
        ValidationError m \<Rightarrow> writeError 400 ''validation_error'' m
      | ErrNotFound \<Rightarrow> writeError 404 ''not_found'' ''resource not found''
      | ErrIdempotencyConflict \<Rightarrow> writeError 409 ''idempotency_conflict'' (error_text ErrIdempotencyConflict)
      | ErrInvalidTransition \<Rightarrow> writeError 409 ''invalid_transition'' (error_text ErrInvalidTransition)
      | InjectedFault p \<Rightarrow> writeError 503 ''injected_fault'' ''retryable fault injected before Confirm''
      | _ \<Rightarrow> writeError 500 ''internal_error'' ''unexpected internal error'')"

text \<open>The end of most handlers: the error, or the data with status 200.\<close>

definition reply :: "('a \<Rightarrow> response) \<Rightarrow> go_error + 'a \<Rightarrow> ('w, response) prog" where
  "reply f r = Ret (case r of Inl err \<Rightarrow> writeServiceError err | Inr a \<Rightarrow> f a)"

subsection \<open>Handlers\<close>

definition notFound :: "('w, response) prog" where
  "notFound = Ret (writeError 404 ''not_found'' ''route not found'')"

definition h_index :: "site \<Rightarrow> string list \<Rightarrow> ('w, response) prog" where
  "h_index site path =
     (if path \<noteq> [''''] then Ret (writeError 404 ''not_found'' ''route not found'')
      else
        Ret (case site_page site of
          None \<Rightarrow> writeError 500 ''internal_error'' ''demo page unavailable''
        | Some page \<Rightarrow>
            \<lparr>rs_status = 200, rs_type = ''text/html; charset=utf-8'', rs_cache = ''no-store'',
             rs_body = Page page\<rparr>))"

definition h_health :: "('w, 'e) backend \<Rightarrow> 'e \<Rightarrow> time \<Rightarrow> ('w, response) prog" where
  "h_health bk e now =
     (case bk_Health bk of
        Some health \<Rightarrow>
          bind_prog (health e)
            (\<lambda>(data, err). Ret (case err of
               Some x \<Rightarrow>
                 writeJSON 503 \<lparr>env_success = False, env_data = Some (DataHealth data),
                   env_error = Some \<lparr>err_code = ''dependency_unavailable'', err_message = error_text x\<rparr>\<rparr>
             | None \<Rightarrow> writeData 200 (DataHealth data)))
      | None \<Rightarrow>
          Ret (writeData 200 (DataHealth
            \<lparr>hi_status = ''ok'', hi_service = ''payflow-lab'', hi_version = ''0.1.0'',
             hi_mode = ''memory'', hi_dependencies = None, hi_time = now\<rparr>)))"

definition create_input_of :: "string \<Rightarrow> create_request \<Rightarrow> create_input" where
  "create_input_of header request =
     (let key = TrimSpace header in
      \<lparr>ci_order = crq_order request, ci_account = crq_account request,
       ci_amount = crq_amount request, ci_currency = crq_currency request,
       ci_key = (if key = '''' then crq_key request else key),
       ci_auto = crq_auto request, ci_fault = crq_fault request\<rparr>)"

definition zero_create_request :: create_request where
  "zero_create_request =
     \<lparr>crq_order = '''', crq_account = '''', crq_amount = 0, crq_currency = '''', crq_key = '''',
      crq_auto = False, crq_fault = ''''\<rparr>"

definition created_status :: "create_result \<Rightarrow> nat" where
  "created_status res = (if cre_replay res then 200 else 201)"

definition h_createPayment ::
  "('w, 'e) backend \<Rightarrow> site \<Rightarrow> 'e \<Rightarrow> string \<Rightarrow> string \<Rightarrow> ('w, response) prog" where
  "h_createPayment bk site e header body =
     (case decodeJSON zero_create_request (site_create site) body False of
        Inl m \<Rightarrow> Ret (writeError 400 ''invalid_json'' m)
      | Inr request \<Rightarrow>
          bind_prog (bk_Create bk e (create_input_of header request))
            (reply (\<lambda>res. writeData (created_status res) (DataCreate res))))"

definition h_createDistributedPayment ::
  "('w, 'e) backend \<Rightarrow> site \<Rightarrow> 'e \<Rightarrow> string \<Rightarrow> string \<Rightarrow> ('w, response) prog" where
  "h_createDistributedPayment bk site e header body =
     (if bk_Mode bk \<noteq> Some ''distributed'' then
        Ret (writeError 409 ''distributed_mode_required'' ''start PayFlow with PAYFLOW_MODE=distributed'')
      else h_createPayment bk site e header body)"

definition h_getDistributedTransaction ::
  "('w, 'e) backend \<Rightarrow> 'e \<Rightarrow> string \<Rightarrow> ('w, response) prog" where
  "h_getDistributedTransaction bk e gid =
     (case bk_Transaction bk of
        None \<Rightarrow>
          Ret (writeError 409 ''distributed_mode_required'' ''transaction diagnostics require distributed mode'')
      | Some transaction \<Rightarrow> bind_prog (transaction e gid) (reply (\<lambda>v. writeData 200 (DataTransaction v))))"

definition h_systemInfo :: "('w, 'e) backend \<Rightarrow> ('w, response) prog" where
  "h_systemInfo bk =
     (let mode = (case bk_Mode bk of None \<Rightarrow> ''memory'' | Some m \<Rightarrow> m);
          dist = (mode = ''distributed'')
      in Ret (writeData 200 (DataSystem mode dist
           (if dist then [''after_account_try'', ''ledger_try''] else [])
           (if dist then Some (''DTM'', ''1.19.0'') else None))))"

definition h_callback ::
  "('w, 'e) backend \<Rightarrow> site \<Rightarrow> 'e \<Rightarrow> string \<Rightarrow> string \<Rightarrow> ('w, response) prog" where
  "h_callback bk site e pid body =
     (case decodeJSON \<lparr>cbq_event_id = '''', cbq_sequence = 0, cbq_outcome = '''', cbq_reason = '''',
                       cbq_fault = ''''\<rparr> (site_callback site) body False of
        Inl m \<Rightarrow> Ret (writeError 400 ''invalid_json'' m)
      | Inr request \<Rightarrow>
          bind_prog
            (bk_Callback bk e pid
               \<lparr>cbi_event_id = cbq_event_id request, cbi_sequence = cbq_sequence request,
                cbi_outcome = cbq_outcome request, cbi_reason = cbq_reason request,
                cbi_fault = cbq_fault request\<rparr>)
            (reply (\<lambda>res. writeData 200 (DataCallback res))))"

definition h_closePayment ::
  "('w, 'e) backend \<Rightarrow> site \<Rightarrow> 'e \<Rightarrow> string \<Rightarrow> string \<Rightarrow> ('w, response) prog" where
  "h_closePayment bk site e pid body =
     (case decodeJSON \<lparr>clq_reason = ''''\<rparr> (site_close site) body True of
        Inl m \<Rightarrow> Ret (writeError 400 ''invalid_json'' m)
      | Inr request \<Rightarrow>
          bind_prog (bk_Close bk e pid (clq_reason request)) (reply (\<lambda>p. writeData 200 (DataPayment p))))"

definition h_listPayments :: "('w, 'e) backend \<Rightarrow> 'e \<Rightarrow> ('w, response) prog" where
  "h_listPayments bk e = bind_prog (bk_List bk e) (reply (\<lambda>ps. writeData 200 (DataPayments ps)))"

definition h_getPayment :: "('w, 'e) backend \<Rightarrow> 'e \<Rightarrow> string \<Rightarrow> ('w, response) prog" where
  "h_getPayment bk e pid = bind_prog (bk_Details bk e pid) (reply (\<lambda>d. writeData 200 (DataDetails d)))"

definition h_getEvents :: "('w, 'e) backend \<Rightarrow> 'e \<Rightarrow> string \<Rightarrow> ('w, response) prog" where
  "h_getEvents bk e pid = bind_prog (bk_Events bk e pid) (reply (\<lambda>es. writeData 200 (DataEvents pid es)))"

definition h_getAccount :: "('w, 'e) backend \<Rightarrow> 'e \<Rightarrow> string \<Rightarrow> ('w, response) prog" where
  "h_getAccount bk e aid = bind_prog (bk_Account bk e aid) (reply (\<lambda>a. writeData 200 (DataAccount a)))"

definition h_getLedger :: "('w, 'e) backend \<Rightarrow> 'e \<Rightarrow> ('w, response) prog" where
  "h_getLedger bk e = bind_prog (bk_Ledger bk e) (reply (\<lambda>es. writeData 200 (DataLedger es)))"

definition h_getMetrics :: "('w, 'e) backend \<Rightarrow> 'e \<Rightarrow> ('w, response) prog" where
  "h_getMetrics bk e = bind_prog (bk_Metrics bk e) (reply (\<lambda>m. writeData 200 (DataMetrics m)))"

definition h_resetDemo :: "('w, 'e) backend \<Rightarrow> 'e \<Rightarrow> ('w, response) prog" where
  "h_resetDemo bk e = bind_prog (bk_Reset bk e) (reply (\<lambda>_. writeData 200 (DataMessage ''demo state reset'')))"

subsection \<open>Routes\<close>

datatype route =
  Index | Health | ListPayments | CreatePayment | CreateDistributedPayment
| GetDistributedTransaction string | SystemInfo | GetPayment string | GetEvents string
| PostCallback string | ClosePayment string | GetAccount string | GetLedger | GetMetrics
| ResetDemo | NotFound

text \<open>
  \<open>NewHandler\<close>: a pattern with method GET also takes HEAD, \<open>GET /\<close> takes every path that no other
  pattern takes, \<open>/\<close> the rest. A wildcard takes one segment that is not empty.
\<close>

definition get_route :: "string list \<Rightarrow> route" where
  "get_route path =
     (if path = [''healthz''] then Health
      else if path = [''api'', ''v1'', ''payments''] then ListPayments
      else if path = [''api'', ''v1'', ''system''] then SystemInfo
      else if path = [''api'', ''v1'', ''ledger''] then GetLedger
      else if path = [''api'', ''v1'', ''metrics''] then GetMetrics
      else
        (case path of
           [a, b, c, d] \<Rightarrow>
             if [a, b, c] = [''api'', ''v1'', ''payments''] \<and> d \<noteq> '''' then GetPayment d
             else if [a, b, c] = [''api'', ''v1'', ''accounts''] \<and> d \<noteq> '''' then GetAccount d
             else Index
         | [a, b, c, d, f] \<Rightarrow>
             if [a, b, c, d] = [''api'', ''v1'', ''distributed'', ''transactions''] \<and> f \<noteq> ''''
             then GetDistributedTransaction f
             else if [a, b, c, f] = [''api'', ''v1'', ''payments'', ''events''] \<and> d \<noteq> '''' then GetEvents d
             else Index
         | _ \<Rightarrow> Index))"

definition post_route :: "string list \<Rightarrow> route" where
  "post_route path =
     (if path = [''api'', ''v1'', ''payments''] then CreatePayment
      else if path = [''api'', ''v1'', ''distributed'', ''payments''] then CreateDistributedPayment
      else if path = [''api'', ''v1'', ''demo'', ''reset''] then ResetDemo
      else
        (case path of
           [a, b, c, d, f] \<Rightarrow>
             if [a, b, c, f] = [''api'', ''v1'', ''payments'', ''callbacks''] \<and> d \<noteq> '''' then PostCallback d
             else if [a, b, c, f] = [''api'', ''v1'', ''payments'', ''close''] \<and> d \<noteq> '''' then ClosePayment d
             else NotFound
         | _ \<Rightarrow> NotFound))"

definition route_of :: "string \<Rightarrow> string list \<Rightarrow> route" where
  "route_of m path =
     (if m = ''GET'' \<or> m = ''HEAD'' then get_route path
      else if m = ''POST'' then post_route path
      else NotFound)"

fun handle_route :: "('w, 'e) backend \<Rightarrow> site \<Rightarrow> 'e http_request \<Rightarrow> route \<Rightarrow> ('w, response) prog" where
  "handle_route bk site rq Index = h_index site (rq_path rq)"
| "handle_route bk site rq Health = h_health bk (rq_env rq) (rq_now rq)"
| "handle_route bk site rq ListPayments = h_listPayments bk (rq_env rq)"
| "handle_route bk site rq CreatePayment = h_createPayment bk site (rq_env rq) (rq_key rq) (rq_body rq)"
| "handle_route bk site rq CreateDistributedPayment =
     h_createDistributedPayment bk site (rq_env rq) (rq_key rq) (rq_body rq)"
| "handle_route bk site rq (GetDistributedTransaction gid) = h_getDistributedTransaction bk (rq_env rq) gid"
| "handle_route bk site rq SystemInfo = h_systemInfo bk"
| "handle_route bk site rq (GetPayment pid) = h_getPayment bk (rq_env rq) pid"
| "handle_route bk site rq (GetEvents pid) = h_getEvents bk (rq_env rq) pid"
| "handle_route bk site rq (PostCallback pid) = h_callback bk site (rq_env rq) pid (rq_body rq)"
| "handle_route bk site rq (ClosePayment pid) = h_closePayment bk site (rq_env rq) pid (rq_body rq)"
| "handle_route bk site rq (GetAccount aid) = h_getAccount bk (rq_env rq) aid"
| "handle_route bk site rq GetLedger = h_getLedger bk (rq_env rq)"
| "handle_route bk site rq GetMetrics = h_getMetrics bk (rq_env rq)"
| "handle_route bk site rq ResetDemo = h_resetDemo bk (rq_env rq)"
| "handle_route bk site rq NotFound = notFound"

definition handle :: "('w, 'e) backend \<Rightarrow> site \<Rightarrow> 'e http_request \<Rightarrow> ('w, response) prog" where
  "handle bk site rq = handle_route bk site rq (route_of (rq_method rq) (rq_path rq))"

subsection \<open>The payment service as a backend\<close>

definition memory_backend :: "'s store_ops \<Rightarrow> case_tables \<Rightarrow> ('s service, call_env) backend" where
  "memory_backend st u =
     \<lparr>bk_Create = svc_Create st u,
      bk_Callback = (\<lambda>e. svc_Callback st u (env_clock e)),
      bk_Close = svc_Close st,
      bk_Details = (\<lambda>e. svc_Details st),
      bk_Events = (\<lambda>e. svc_Events st),
      bk_List = svc_List st,
      bk_Account = (\<lambda>e. svc_Account st),
      bk_Ledger = (\<lambda>e. svc_Ledger st),
      bk_Metrics = svc_Metrics st,
      bk_Reset = svc_Reset st,
      bk_Mode = Some ''memory'', bk_Health = None, bk_Transaction = None\<rparr>"

end
