(* ===== verification/Http_Safety.thy ===== *)
theory Http_Safety
  imports Http_Api
begin

section \<open>The HTTP API in memory mode, among concurrent requests\<close>

text \<open>
  What \<open>Service_Safety\<close> shows of the service's answers, carried through the handlers to the
  responses; and, for every store whose methods fail with the errors of the package only
  (\<open>quiet_store\<close>), that no request is answered with status 500. The in-memory store is one.
\<close>

lemma ensures_conj:
  "ensures I G Q s p \<Longrightarrow> ensures I G Q' s p \<Longrightarrow> ensures I G (\<lambda>t r. Q t r \<and> Q' t r) s p"
proof (induction rule: ensures.induct)
  case (ensures_Ret s r)
  then show ?case by simp
next
  case (ensures_Step s f)
  show ?case
  proof (rule ensures.ensures_Step)
    fix s' t p
    assume s': "G s s'" "I s'" "f s' = Some (t, p)"
    have "ensures I G Q' t p" using ensures_StepD [OF ensures_Step.prems s'] by blast
    with ensures_Step.IH s' show "I t \<and> G s' t \<and> ensures I G (\<lambda>t r. Q t r \<and> Q' t r) t p" by blast
  qed
qed

subsection \<open>Errors that have a response of their own\<close>

definition expected :: "go_error \<Rightarrow> bool" where
  "expected err \<longleftrightarrow> rs_status (writeServiceError err) \<noteq> 500"

lemma expected_simps [simp]:
  "expected ErrNotFound" "expected ErrIdempotencyConflict" "expected ErrInvalidTransition"
  "expected (InjectedFault p)" "expected (ValidationError m)"
  "\<not> expected ErrInsufficientFunds" "\<not> expected (OtherError m)"
  by (simp_all add: expected_def writeServiceError_def writeError_def writeJSON_def)

definition calm :: "go_error + 'a \<Rightarrow> bool" where
  "calm r \<longleftrightarrow> (case r of Inl err \<Rightarrow> expected err | Inr _ \<Rightarrow> True)"

lemma calm_simps [simp]: "calm (Inl err) \<longleftrightarrow> expected err" "calm (Inr a)"
  by (simp_all add: calm_def)

text \<open>
  The errors of the methods, one by one. A Create may fail in its own way when the id drawn for it is
  that of a payment created under another key.
\<close>

definition taken_elsewhere ::
  "('s \<Rightarrow> string \<Rightarrow> (string \<times> string) option) \<Rightarrow> string \<Rightarrow> string \<Rightarrow> 's \<Rightarrow> bool" where
  "taken_elsewhere key_of key pid s \<longleftrightarrow> (\<exists>k fp. k \<noteq> key \<and> key_of s k = Some (pid, fp))"

locale quiet_store = payment_store st inv grows key_of
  for st :: "'s store_ops" and inv :: "'s \<Rightarrow> bool" and grows :: "'s \<Rightarrow> 's \<Rightarrow> bool"
    and key_of :: "'s \<Rightarrow> string \<Rightarrow> (string \<times> string) option" +
  assumes create_error: "inv s \<Longrightarrow>
      calm (snd (op_CreatePayment st c p key fp s)) \<or> taken_elsewhere key_of key (pay_id p) s"
    and start_error: "calm (snd (op_StartPayment st c pid s))"
    and freeze_error: "snd (op_Freeze st c pid s) = Inl err \<Longrightarrow> expected err \<or> err = ErrInsufficientFunds"
    and fail_error: "calm (snd (op_FailAndRelease st c pid m s))"
    and callback_error: "cb_outcome cb = ''success'' \<or> cb_outcome cb = ''failed'' \<Longrightarrow>
      calm (snd (op_ProcessCallback st c pid cb s))"
    and close_error: "calm (snd (op_ClosePayment st c pid m s))"
    and record_error: "calm (snd (op_RecordEvent st c pid ty m md s))"
    and get_error: "calm (snd (op_GetPayment st pid s))"
    and list_error: "calm (snd (op_ListPayments st ks s))"
    and events_error: "calm (snd (op_Events st pid s))"
    and account_error: "calm (snd (op_Account st aid s))"
    and ledger_error: "calm (snd (op_Ledger st s))"
    and snapshot_error: "calm (snd (op_Snapshot st ks s))"
begin

abbreviation "quietly \<equiv> ensures (on_store inv) (between grows) (\<lambda>_. calm)"

lemma calm_call:
  assumes "\<And>s. inv s \<Longrightarrow> inv (fst (f s)) \<and> grows s (fst (f s))"
    and "\<And>s. calm (snd (f s))" and "\<And>t r. calm r \<Longrightarrow> ensures (on_store inv) (between grows) Q t (k r)"
  shows "ensures (on_store inv) (between grows) Q s (call f k)"
proof (rule ens_call [OF assms(1)])
  fix s1 r and t :: "'s service"
  assume "f s1 = (svc_store t, r)"
  with assms(2) [of s1] show "ensures (on_store inv) (between grows) Q t (k r)"
    by (auto intro: assms(3))
qed assumption

lemma calm_read:
  assumes "read_only f" and "\<And>s. calm (snd (f s))"
    and "\<And>t r. calm r \<Longrightarrow> ensures (on_store inv) (between grows) Q t (k r)"
  shows "ensures (on_store inv) (between grows) Q s (call f k)"
  using assms grows_refl by (intro calm_call) (simp_all add: read_only_def)

lemma quiet_readers:
  "quietly s (svc_Details st pid)" "quietly s (svc_Events st pid)" "quietly s (svc_List st e)"
  "quietly s (svc_Account st aid)" "quietly s (svc_Ledger st)" "quietly s (svc_Metrics st e)"
  unfolding svc_Details_def svc_Events_def svc_List_def svc_Account_def svc_Ledger_def svc_Metrics_def
  by (auto intro!: calm_read read_laws ens_load get_error list_error events_error account_error
      ledger_error snapshot_error split: sum.split)

lemma quiet_Close: "quietly s (svc_Close st e pid m)"
  unfolding svc_Close_def by (auto intro!: calm_call [OF close_law] close_error)

lemma quiet_Callback: "quietly s (svc_Callback st u c pid i)"
proof (cases "validate_callback (TrimSpace pid) (normalize_callback u i)")
  case None
  then have "cbi_outcome (normalize_callback u i) = ''success'' \<or> cbi_outcome (normalize_callback u i) = ''failed''"
    by (auto simp: validate_callback_def split: if_splits)
  then show ?thesis
    unfolding svc_Callback_def Let_def None option.case
    by (intro ens_count ensures_if calm_call [OF record_law] calm_call [OF callback_law] record_error callback_error)
      (auto intro!: ens_count split: sum.split)
next
  case (Some err)
  then have "calm (Inl err :: go_error + callback_result)"
    by (auto simp: validate_callback_def split: if_splits)
  then show ?thesis by (simp add: svc_Callback_def Let_def Some)
qed

lemma quiet_fail: "quietly s (fail_payment st c pid m)"
  unfolding fail_payment_def by (auto intro!: calm_call [OF fail_law] fail_error split: sum.split)

lemma quiet_inject: "quietly s (create_inject st c1 c2 pid m pt m')"
  unfolding create_inject_def by (auto intro!: ens_count calm_call [OF record_law] record_error quiet_fail)

lemma quiet_frozen: "quietly s (create_frozen st u e i p)"
  unfolding create_frozen_def
  by (auto intro!: ensures_if quiet_inject ensures_bind [OF quiet_Callback] split: sum.split)

lemma quiet_started: "quietly s (create_started st u e i q p)"
  unfolding create_started_def
proof (intro ensures_if quiet_inject, rule ens_call [OF freeze_law])
  fix s1 r and t :: "'s service"
  assume "op_Freeze st (env_clock e 4) (pay_id p) s1 = (svc_store t, r)"
  with freeze_error [of "env_clock e 4" "pay_id p" s1]
  show "quietly t (case r of Inr q \<Rightarrow> create_frozen st u e i q
      | Inl err \<Rightarrow> if err = ErrInsufficientFunds \<or> err = ErrNotFound then
           fail_payment st (env_clock e 5) (pay_id q)
             (if err = ErrInsufficientFunds then ''insufficient funds'' else ''account not found'')
         else Ret (Inl err))"
    by (auto intro!: quiet_frozen quiet_fail split: sum.split)
qed assumption

end

subsection \<open>Create fails by surprise only when a random id repeats\<close>

context quiet_store begin

definition "calm_or_taken key pid s r \<longleftrightarrow> calm r \<or> taken_elsewhere key_of key pid (svc_store s)"

lemma taken_later: "taken_elsewhere key_of key pid s \<Longrightarrow> grows s t \<Longrightarrow> taken_elsewhere key_of key pid t"
  unfolding taken_elsewhere_def using key_grows by blast

lemma calm_or_taken_later:
  "calm_or_taken key pid s r \<Longrightarrow> grows (svc_store s) (svc_store t) \<Longrightarrow> calm_or_taken key pid t r"
  unfolding calm_or_taken_def using taken_later by blast

lemma quiet_new: "quietly s (create_new st u e i q)"
  unfolding create_new_def
  by (intro ens_count calm_call [OF start_law] start_error) (auto intro!: quiet_started split: sum.split)

lemma quiet_locked:
  assumes "valid_input i"
  shows "ensures (on_store inv) (between grows) (calm_or_taken (ci_key i) (pay_id (initial_payment e i))) s
    (create_locked st u e i)"
  unfolding create_locked_def
proof (rule ens_call [OF create_law])
  fix s1 r and t :: "'s service"
  assume s1: "op_CreatePayment st (env_clock e 0) (initial_payment e i) (ci_key i) (Fingerprint i) s1
      = (svc_store t, r)" "grows s1 (svc_store t)" "inv s1"
  have new: "ensures (on_store inv) (between grows) (calm_or_taken key pid) t' (create_new st u e i q)" for key pid t' q
    by (rule ensures_weaken [OF quiet_new]) (simp add: calm_or_taken_def)
  have "calm r \<or> taken_elsewhere key_of (ci_key i) (pay_id (initial_payment e i)) (svc_store t)"
    using create_error [OF s1(3), of "env_clock e 0" "initial_payment e i" "ci_key i" "Fingerprint i"] s1(1)
      taken_later [OF _ s1(2)] by auto
  then show "ensures (on_store inv) (between grows) (calm_or_taken (ci_key i) (pay_id (initial_payment e i))) t
      (case r of Inl err \<Rightarrow> Ret (Inl err)
       | Inr (createdPayment, created) \<Rightarrow>
           if \<not> created then count (\<lambda>m. m\<lparr>idempotentReplays := idempotentReplays m + 1\<rparr>)
             (Ret (Inr \<lparr>cre_payment = createdPayment, cre_replay = True\<rparr>))
           else create_new st u e i createdPayment)"
    by (auto intro!: ens_count new simp: calm_or_taken_def split: sum.split)
qed (use new_initial_payment assms in auto)

lemma quiet_Create:
  "ensures (on_store inv) (between grows) (calm_or_taken (TrimSpace (ci_key i)) (NewID ''pay'' (env_random e) (env_nano e))) s
     (svc_Create st u e i)"
proof (cases "ValidateCreateInput (NormalizeCreateInput u i)")
  case None
  then have v: "valid_input (NormalizeCreateInput u i)" by (simp add: validate_valid)
  have id: "pay_id (initial_payment e j) = NewID ''pay'' (env_random e) (env_nano e)" for j
    by (simp add: initial_payment_def)
  show ?thesis
    unfolding svc_Create_def Let_def None option.case
    by (intro ens_lock ensures_bind [OF quiet_locked [OF v]] ens_release)
      (auto simp: id intro: calm_or_taken_later)
next
  case (Some err)
  then have "calm (Inl err :: go_error + create_result)"
    by (auto simp: ValidateCreateInput_def split: if_splits)
  then show ?thesis by (simp add: svc_Create_def Let_def Some calm_or_taken_def)
qed

end

subsection \<open>A payment that is not a replay has the id drawn for it\<close>

definition fresh_post :: "string \<Rightarrow> go_error + create_result \<Rightarrow> bool" where
  "fresh_post pid r \<longleftrightarrow>
     (case r of Inl err \<Rightarrow> True | Inr res \<Rightarrow> cre_replay res \<or> pay_id (cre_payment res) = pid)"

context payment_store begin

lemma ens_fresh_locked:
  assumes "valid_input i"
  shows "ensures (on_store inv) (between grows) (\<lambda>_. fresh_post (pay_id (initial_payment e i))) s
    (create_locked st u e i)"
  unfolding create_locked_def
proof (rule ens_call [OF create_law])
  let ?pid = "pay_id (initial_payment e i)"
  fix s1 r and t :: "'s service"
  assume s1: "inv s1" "op_CreatePayment st (env_clock e 0) (initial_payment e i) (ci_key i) (Fingerprint i) s1
      = (svc_store t, r)" "inv (svc_store t)"
  have new: "ensures (on_store inv) (between grows) (\<lambda>_. fresh_post ?pid) t (create_new st u e i q)"
    if q: "r = Inr (q, True)" for q
  proof -
    note cr = s1(2) [unfolded q]
    have "q = initial_payment e i" using create_new_key [OF cr] by blast
    then have id: "pay_id q = ?pid" "TrimSpace ?pid = ?pid"
      by (simp_all add: initial_payment_def TrimSpace_NewID)
    have key: "key_of (svc_store t) (ci_key i) = Some (?pid, Fingerprint i)"
      using create_key [OF s1(1) cr] id(1) by simp
    show ?thesis
    proof (rule ensures_weaken [OF ensures_since [OF ens_create_new [OF key id(2,1)] s1(3) grows_refl between_transp]])
      fix v a
      assume v: "create_post st key_of i v a \<and> inv (svc_store v) \<and> grows (svc_store t) (svc_store v)"
      then have "key_of (svc_store v) (ci_key i) = Some (?pid, Fingerprint i)"
        using key_grows key by blast
      then show "fresh_post ?pid a"
        using v by (auto simp: fresh_post_def create_post_def create_answer_def split: sum.splits)
    qed
  qed
  then show "ensures (on_store inv) (between grows) (\<lambda>_. fresh_post ?pid) t
      (case r of Inl err \<Rightarrow> Ret (Inl err)
       | Inr (createdPayment, created) \<Rightarrow>
           if \<not> created then count (\<lambda>m. m\<lparr>idempotentReplays := idempotentReplays m + 1\<rparr>)
             (Ret (Inr \<lparr>cre_payment = createdPayment, cre_replay = True\<rparr>))
           else create_new st u e i createdPayment)"
    by (auto intro!: ens_count simp: fresh_post_def split: sum.split)
qed (use new_initial_payment assms in auto)

lemma ens_fresh_Create:
  "ensures (on_store inv) (between grows) (\<lambda>_. fresh_post (NewID ''pay'' (env_random e) (env_nano e))) s
     (svc_Create st u e i)"
proof (cases "ValidateCreateInput (NormalizeCreateInput u i)")
  case None
  then have v: "valid_input (NormalizeCreateInput u i)" by (simp add: validate_valid)
  have id: "pay_id (initial_payment e j) = NewID ''pay'' (env_random e) (env_nano e)" for j
    by (simp add: initial_payment_def)
  show ?thesis
    unfolding svc_Create_def Let_def None option.case
    by (intro ens_lock ensures_bind [OF ens_fresh_locked [OF v]] ens_release) (simp add: id)
next
  case (Some err)
  then show ?thesis by (simp add: svc_Create_def Let_def fresh_post_def)
qed

end

subsection \<open>What a response promises\<close>

definition answer_data :: "response \<Rightarrow> response_data option" where
  "answer_data resp = (case rs_body resp of Page p \<Rightarrow> None | Envelope v \<Rightarrow> env_data v)"

text \<open>The input of \<open>Create\<close> that a request asks for, if it asks for one.\<close>

definition posted_create :: "site \<Rightarrow> 'e http_request \<Rightarrow> create_input option" where
  "posted_create site rq =
     (if route_of (rq_method rq) (rq_path rq) = CreatePayment then
        (case decodeJSON zero_create_request (site_create site) (rq_body rq) False of
           Inl m \<Rightarrow> None
         | Inr request \<Rightarrow> Some (create_input_of (rq_key rq) request))
      else None)"

definition new_id_of :: "call_env http_request \<Rightarrow> string" where
  "new_id_of rq = NewID ''pay'' (env_random (rq_env rq)) (env_nano (rq_env rq))"

definition created_ok ::
  "'s store_ops \<Rightarrow> case_tables \<Rightarrow> site \<Rightarrow> ('s \<Rightarrow> string \<Rightarrow> (string \<times> string) option) \<Rightarrow> 's \<Rightarrow>
   call_env http_request \<Rightarrow> response \<Rightarrow> bool" where
  "created_ok st u site key_of s rq resp \<longleftrightarrow>
     (case answer_data resp of
        Some (DataCreate res) \<Rightarrow>
          rs_status resp = created_status res \<and>
          (case posted_create site rq of
             None \<Rightarrow> False
           | Some i \<Rightarrow> create_answer st key_of s (NormalizeCreateInput u i) res \<and>
               (cre_replay res \<or> pay_id (cre_payment res) = new_id_of rq))
      | _ \<Rightarrow> True)"

definition no_surprise ::
  "site \<Rightarrow> ('s \<Rightarrow> string \<Rightarrow> (string \<times> string) option) \<Rightarrow> 's \<Rightarrow> call_env http_request \<Rightarrow> response \<Rightarrow> bool" where
  "no_surprise site key_of s rq resp \<longleftrightarrow>
     (rs_status resp = 500 \<longrightarrow>
        (\<exists>i. posted_create site rq = Some i \<and>
          taken_elsewhere key_of (TrimSpace (ci_key i)) (new_id_of rq) s))"

type_synonym 's http_served = "('s service, call_env http_request \<times> response) prog"

definition http_serve :: "'s store_ops \<Rightarrow> case_tables \<Rightarrow> site \<Rightarrow> call_env http_request \<Rightarrow> 's http_served" where
  "http_serve st u site rq = bind_prog (handle (memory_backend st u) site rq) (\<lambda>resp. Ret (rq, resp))"

definition http_normal :: "'s store_ops \<Rightarrow> case_tables \<Rightarrow> site \<Rightarrow> 's http_served \<Rightarrow> bool" where
  "http_normal st u site p \<longleftrightarrow>
     (\<exists>rq. p = http_serve st u site rq \<and> route_of (rq_method rq) (rq_path rq) \<noteq> ResetDemo)"

definition http_ok ::
  "'s store_ops \<Rightarrow> case_tables \<Rightarrow> site \<Rightarrow> ('s \<Rightarrow> string \<Rightarrow> (string \<times> string) option) \<Rightarrow> 's service \<Rightarrow>
   call_env http_request \<times> response \<Rightarrow> bool" where
  "http_ok st u site key_of s a \<longleftrightarrow>
     created_ok st u site key_of (svc_store s) (fst a) (snd a) \<and> no_surprise site key_of (svc_store s) (fst a) (snd a)"

lemma answer_data_simps [simp]:
  "answer_data (writeData n d) = Some d" "answer_data (writeError n c m) = None"
  "answer_data (writeServiceError err) = None"
  by (simp_all add: answer_data_def writeData_def writeError_def writeJSON_def writeServiceError_def
      split: go_error.split)

lemma status_simps [simp]:
  "rs_status (writeData n d) = n" "rs_status (writeError n c m) = n"
  by (simp_all add: writeData_def writeError_def writeJSON_def)

lemma status_service_error [simp]: "rs_status (writeServiceError err) = 500 \<longleftrightarrow> \<not> expected err"
  by (simp add: expected_def)

subsection \<open>Every handler keeps the promise\<close>

context quiet_store begin

text \<open>The end of a handler: a quiet program whose data is not that of a Create.\<close>

lemma ens_reply:
  fixes p :: "('s service, go_error + 'a) prog" and s :: "'s service" and f :: "'a \<Rightarrow> response"
  assumes "quietly s p" and "\<And>a. rs_status (f a) \<noteq> 500"
    and "\<And>a res. answer_data (f a) \<noteq> Some (DataCreate res)"
  shows "ensures (on_store inv) (between grows) (\<lambda>t resp. http_ok st u site key_of t (rq, resp)) s
    (bind_prog p (reply f))"
proof (rule ensures_bind [OF assms(1)])
  fix t :: "'s service" and r :: "go_error + 'a"
  assume "calm r"
  then show "ensures (on_store inv) (between grows) (\<lambda>t resp. http_ok st u site key_of t (rq, resp)) t (reply f r)"
    using assms(2,3)
    by (auto simp: reply_def http_ok_def created_ok_def no_surprise_def split: sum.split option.split response_data.split)
qed

lemma ok_refused:
  "n \<noteq> 500 \<Longrightarrow> http_ok st u site key_of t (rq, writeError n c m)"
  by (simp add: http_ok_def created_ok_def no_surprise_def)

lemma ok_plain:
  "n \<noteq> 500 \<Longrightarrow> (\<And>res. d \<noteq> DataCreate res) \<Longrightarrow> http_ok st u site key_of t (rq, writeData n d)"
  by (auto simp: http_ok_def created_ok_def no_surprise_def split: response_data.split)

lemma ens_h_create:
  assumes "route_of (rq_method rq) (rq_path rq) = CreatePayment"
  shows "ensures (on_store inv) (between grows) (\<lambda>t resp. http_ok st u site key_of t (rq, resp)) s
    (h_createPayment (memory_backend st u) site (rq_env rq) (rq_key rq) (rq_body rq))"
proof (cases "decodeJSON zero_create_request (site_create site) (rq_body rq) False")
  case (Inl m)
  then show ?thesis by (simp add: h_createPayment_def ok_refused)
next
  case (Inr request)
  then have i: "posted_create site rq = Some (create_input_of (rq_key rq) request)"
    using assms by (simp add: posted_create_def)
  let ?i = "create_input_of (rq_key rq) request"
  show ?thesis
    unfolding h_createPayment_def Inr sum.case memory_backend_def backend.simps
  proof (rule ensures_bind [OF ensures_conj [OF ens_Create ensures_conj [OF ens_fresh_Create quiet_Create]]])
    fix t :: "'s service" and r
    assume "create_post st key_of (NormalizeCreateInput u ?i) t r \<and>
        fresh_post (NewID ''pay'' (env_random (rq_env rq)) (env_nano (rq_env rq))) r \<and>
        calm_or_taken (TrimSpace (ci_key ?i)) (NewID ''pay'' (env_random (rq_env rq)) (env_nano (rq_env rq))) t r"
    then show "ensures (on_store inv) (between grows) (\<lambda>t resp. http_ok st u site key_of t (rq, resp)) t
        (reply (\<lambda>res. writeData (created_status res) (DataCreate res)) r)"
      by (auto simp: reply_def http_ok_def created_ok_def no_surprise_def i new_id_of_def calm_or_taken_def
          fresh_post_def create_post_def created_status_def split: sum.split)
  qed
qed

lemma ens_handle:
  assumes "route_of (rq_method rq) (rq_path rq) \<noteq> ResetDemo" and "site_page site \<noteq> None"
  shows "ensures (on_store inv) (between grows) (\<lambda>t resp. http_ok st u site key_of t (rq, resp)) s
    (handle (memory_backend st u) site rq)"
proof (cases "route_of (rq_method rq) (rq_path rq)")
  case CreatePayment
  then show ?thesis by (simp add: handle_def ens_h_create)
next
  case (PostCallback pid)
  then show ?thesis
    by (auto simp: handle_def h_callback_def memory_backend_def intro!: ens_reply quiet_Callback ok_refused
        split: sum.split)
next
  case (ClosePayment pid)
  then show ?thesis
    by (auto simp: handle_def h_closePayment_def memory_backend_def intro!: ens_reply quiet_Close ok_refused
        split: sum.split)
next
  case Index
  obtain page where "site_page site = Some page" using assms(2) by blast
  with Index show ?thesis
    by (auto simp: handle_def h_index_def intro!: ok_refused)
      (simp add: http_ok_def created_ok_def no_surprise_def answer_data_def)
qed (use assms(1) in \<open>auto simp: handle_def notFound_def h_health_def h_listPayments_def
    h_createDistributedPayment_def h_getDistributedTransaction_def h_systemInfo_def h_getPayment_def
    h_getEvents_def h_getAccount_def h_getLedger_def h_getMetrics_def memory_backend_def Let_def
    intro!: ens_reply quiet_readers ok_refused ok_plain\<close>)

end

subsection \<open>Any number of requests\<close>

context quiet_store begin

lemma ens_http_serve:
  assumes "route_of (rq_method rq) (rq_path rq) \<noteq> ResetDemo" and "site_page site \<noteq> None"
  shows "ensures (on_store inv) (between grows) (http_ok st u site key_of) s (http_serve st u site rq)"
  unfolding http_serve_def by (rule ensures_bind [OF ens_handle [OF assms]]) simp

lemma created_ok_later:
  "created_ok st u site key_of s rq resp \<Longrightarrow> grows s t \<Longrightarrow> created_ok st u site key_of t rq resp"
  by (auto simp: created_ok_def create_answer_def split: option.splits response_data.splits
      intro: answered_later key_grows)

lemma no_surprise_later:
  "no_surprise site key_of s rq resp \<Longrightarrow> grows s t \<Longrightarrow> no_surprise site key_of t rq resp"
  unfolding no_surprise_def using taken_later by blast

lemma http_ok_stable: "stable (between grows) (http_ok st u site key_of)"
  unfolding stable_def http_ok_def using created_ok_later no_surprise_later by blast

lemma pool_http:
  assumes "pool_run (http_normal st u site) (s, []) (t, ps)" and "inv (svc_store s)"
    and "site_page site \<noteq> None"
  shows "inv (svc_store t)" and "Ret (rq, resp) \<in> set ps \<Longrightarrow> http_ok st u site key_of t (rq, resp)"
proof -
  have "pool_ok (on_store inv) (between grows) (http_ok st u site key_of) (t, ps)"
    using pool_run_ok [OF assms(1) _ between_reflp between_transp http_ok_stable, of "on_store inv" u site]
      ens_http_serve [OF _ assms(3)] assms(2) unfolding http_normal_def by fastforce
  then show "inv (svc_store t)" and "Ret (rq, resp) \<in> set ps \<Longrightarrow> http_ok st u site key_of t (rq, resp)"
    by (auto simp: pool_ok_def dest: bspec)
qed

end

text \<open>The errors of the in-memory store.\<close>

lemma memory_calm:
  "calm (snd (mem_StartPayment c pid s))" "calm (snd (mem_FailAndRelease c pid m s))"
  "calm (snd (mem_ClosePayment c pid m s))" "calm (snd (mem_RecordEvent c pid ty m md s))"
  "calm (snd (mem_GetPayment pid s))" "calm (snd (mem_ListPayments ks s))" "calm (snd (mem_Events pid s))"
  "calm (snd (mem_Account aid s))" "calm (snd (mem_Ledger s))" "calm (snd (mem_Snapshot ks s))"
  by (simp_all add: mem_StartPayment_def mem_FailAndRelease_def mem_ClosePayment_def mem_RecordEvent_def
      mem_read_defs Let_def split: option.split)

lemma memory_calm_callback:
  "cb_outcome cb = ''success'' \<or> cb_outcome cb = ''failed'' \<Longrightarrow> calm (snd (mem_ProcessCallback c pid cb s))"
  by (auto simp: mem_ProcessCallback_def applyCallback_def Let_def split: option.split)

lemma memory_calm_create:
  assumes "demo_inv s"
  shows "calm (snd (mem_CreatePayment c p key fp s)) \<or> taken_elsewhere memory_key key (pay_id p) s"
proof (cases "idempotency s key = None \<and> payments s (pay_id p) \<noteq> None")
  case True
  then obtain k r where "idempotency s k = Some r" "idem_payment r = pay_id p"
    using store_idem [OF demo_store [OF assms]] unfolding idem_inv_def by blast
  with True show ?thesis
    by (intro disjI2) (auto simp: taken_elsewhere_def memory_key_def intro!: exI [of _ k])
qed (auto simp: mem_CreatePayment_def split: option.split)

lemma memory_calm_freeze:
  "snd (mem_Freeze c pid s) = Inl err \<Longrightarrow> expected err \<or> err = ErrInsufficientFunds"
  by (auto simp: mem_Freeze_def Let_def split: option.splits if_splits)

interpretation memory_quiet: quiet_store memory_ops demo_inv store_grows memory_key
  by unfold_locales
    (use memory_calm_create in \<open>auto simp: memory_calm memory_calm_callback found_memory
      dest: memory_calm_freeze\<close>)

end
