(* ===== verification/Service_Runs.thy ===== *)
theory Service_Runs
  imports Service_Safety Store_Machine
begin

section \<open>Requests that run alone\<close>

text \<open>
  What the service's programs do when nothing interferes: the run of each building block, the
  course of a Create through the store's methods with what each of them leaves behind, and the
  locks, which a request that runs alone always gets and gives back.
\<close>

subsection \<open>The runs of the building blocks\<close>

lemma exec_call [simp]:
  "exec (call f k) s = (case f (svc_store s) of (t, r) \<Rightarrow> exec (k r) (s\<lparr>svc_store := t\<rparr>))"
  by (simp add: call_def split: prod.split)

lemma exec_count [simp]: "exec (count f p) s = exec p (s\<lparr>svc_metrics := f (svc_metrics s)\<rparr>)"
  by (simp add: count_def)

lemma exec_load [simp]: "exec (load f k) s = exec (k (f s)) s"
  by (simp add: load_def)

lemma exec_release [simp]:
  "exec (releaseKey key l p) s =
     exec p (s\<lparr>svc_locks := key_deregister key l (mutex_unlock l (svc_locks s))\<rparr>)"
  by (simp add: releaseKey_def)

text \<open>A key that nobody uses: the lock is free, and after the release the table is as before.\<close>

definition grabbed :: "string \<Rightarrow> key_locks \<Rightarrow> key_locks" where
  "grabbed key L =
     \<lparr>lk_keys = (lk_keys L)(key \<mapsto> lk_next L),
      lk_heap = (lk_heap L)(lk_next L := \<lparr>lk_held = True, lk_users = 1\<rparr>),
      lk_next = Suc (lk_next L)\<rparr>"

lemma exec_lock_free:
  assumes "lk_keys (svc_locks s) key = None"
  shows "exec (lockIdempotencyKey key k) s =
    exec (k (lk_next (svc_locks s))) (s\<lparr>svc_locks := grabbed key (svc_locks s)\<rparr>)"
proof -
  obtain t where t: "key_register key (svc_locks s) = (t, lk_next (svc_locks s))"
    "mutex_lock (lk_next (svc_locks s)) t = Some (grabbed key (svc_locks s))"
    using assms by (auto simp: key_register_def mutex_lock_def Let_def grabbed_def)
  then show ?thesis by (simp add: lockIdempotencyKey_def)
qed

lemma released_keys:
  assumes "lk_keys L key = None"
  shows "lk_keys (key_deregister key (lk_next L) (mutex_unlock (lk_next L) (grabbed key L))) = lk_keys L"
  using assms by (auto simp: grabbed_def key_deregister_def mutex_unlock_def Let_def)

text \<open>Programs that leave the lock table alone, and always return.\<close>

definition returns_locked :: "('s service, 'r) prog \<Rightarrow> bool" where
  "returns_locked p \<longleftrightarrow> (\<forall>s. \<exists>t r. exec p s = Some (t, r) \<and> svc_locks t = svc_locks s)"

lemma returns_Ret: "returns_locked (Ret r)"
  by (simp add: returns_locked_def)

lemma returns_call: "(\<And>r. returns_locked (k r)) \<Longrightarrow> returns_locked (call f k)"
  unfolding returns_locked_def by (auto split: prod.split) (metis service.select_convs(4) service.surjective service.update_convs(1))

lemma returns_count: "returns_locked p \<Longrightarrow> returns_locked (count f p)"
  unfolding returns_locked_def by (auto split: prod.split) (metis service.select_convs(4) service.surjective service.update_convs(3))

lemma returns_if: "returns_locked p \<Longrightarrow> returns_locked q \<Longrightarrow> returns_locked (if b then p else q)"
  by simp

lemma returns_bind: "returns_locked p \<Longrightarrow> (\<And>r. returns_locked (k r)) \<Longrightarrow> returns_locked (bind_prog p k)"
  unfolding returns_locked_def exec_bind by (metis (no_types, lifting) option.simps(5) prod.simps(2))

lemmas returns = returns_Ret returns_call returns_count returns_if returns_bind

lemma returns_Callback: "returns_locked (svc_Callback st u c pid i)"
  unfolding svc_Callback_def Let_def by (auto intro!: returns split: option.split sum.split)

lemma returns_fail: "returns_locked (fail_payment st c pid m)"
  unfolding fail_payment_def by (auto intro!: returns split: sum.split)

lemma returns_inject: "returns_locked (create_inject st c1 c2 pid m pt m')"
  unfolding create_inject_def by (auto intro!: returns returns_fail)

lemma returns_frozen: "returns_locked (create_frozen st u e i p)"
  unfolding create_frozen_def by (auto intro!: returns_inject returns_Callback returns split: sum.split)

lemma returns_started: "returns_locked (create_started st u e i q p)"
  unfolding create_started_def
  by (auto intro!: returns_inject returns_frozen returns_fail returns split: sum.split)

lemma returns_create_locked: "returns_locked (create_locked st u e i)"
  unfolding create_locked_def create_new_def
  by (auto intro!: returns_started returns split: sum.split prod.split)

text \<open>So a Create whose key is unused returns, with the lock table's keys as they were.\<close>

definition holding :: "string \<Rightarrow> 's service \<Rightarrow> 's service" where
  "holding key s = s\<lparr>svc_locks := grabbed key (svc_locks s)\<rparr>"

lemma holding_store [simp]: "svc_store (holding key s) = svc_store s"
  by (simp add: holding_def)

lemma exec_Create:
  assumes "valid_input (NormalizeCreateInput u i)"
    and free: "lk_keys (svc_locks s) (ci_key (NormalizeCreateInput u i)) = None"
    and run: "exec (create_locked st u e (NormalizeCreateInput u i))
      (holding (ci_key (NormalizeCreateInput u i)) s) = Some (t, r)"
  shows "\<exists>t'. exec (svc_Create st u e i) s = Some (t', r) \<and> svc_store t' = svc_store t \<and>
    lk_keys (svc_locks t') = lk_keys (svc_locks s)"
proof -
  let ?j = "NormalizeCreateInput u i" and ?l = "lk_next (svc_locks s)"
  have valid: "ValidateCreateInput ?j = None" using assms(1) by (simp add: validate_valid)
  have "svc_locks t = svc_locks (holding (ci_key ?j) s)"
    using returns_create_locked [of st u e ?j] run unfolding returns_locked_def by (metis option.inject prod.inject)
  then have keys: "lk_keys (key_deregister (ci_key ?j) ?l (mutex_unlock ?l (svc_locks t))) = lk_keys (svc_locks s)"
    using released_keys [OF free] by (simp add: holding_def)
  have "exec (svc_Create st u e i) s =
      Some (t\<lparr>svc_locks := key_deregister (ci_key ?j) ?l (mutex_unlock ?l (svc_locks t))\<rparr>, r)"
    unfolding svc_Create_def Let_def valid option.case exec_lock_free [OF free] holding_def [symmetric]
      exec_bind run by simp
  then show ?thesis using keys by simp
qed

lemma exec_Create_returns:
  assumes "lk_keys (svc_locks s) (ci_key (NormalizeCreateInput u i)) = None"
  shows "\<exists>t r. exec (svc_Create st u e i) s = Some (t, r) \<and> lk_keys (svc_locks t) = lk_keys (svc_locks s)"
proof (cases "ValidateCreateInput (NormalizeCreateInput u i)")
  case None
  then have "valid_input (NormalizeCreateInput u i)" by (simp add: validate_valid)
  moreover obtain t r where "exec (create_locked st u e (NormalizeCreateInput u i))
      (holding (ci_key (NormalizeCreateInput u i)) s) = Some (t, r)"
    using returns_create_locked unfolding returns_locked_def by blast
  ultimately show ?thesis using exec_Create [OF _ assms] by blast
next
  case (Some err)
  then show ?thesis by (simp add: svc_Create_def Let_def)
qed

subsection \<open>The course of a Create\<close>

text \<open>
  What the store knows of the new payment while its Create runs: the payment \<open>p\<close> itself, its
  reservation \<open>r\<close>, no callback seen; and the accounts and the ledger.
\<close>

definition course ::
  "mem_store \<Rightarrow> string \<Rightarrow> payment \<Rightarrow> reservation option \<Rightarrow> (string \<rightharpoonup> account) \<Rightarrow> ledger_entry list \<Rightarrow> bool" where
  "course m pid p r A L \<longleftrightarrow>
     payments m pid = Some p \<and> reservations m pid = r \<and> seen_of m pid = {} \<and> accounts m = A \<and> ledger m = L"

lemma course_create:
  assumes inv: "demo_inv m" and "idempotency m key = None" and fresh: "payments m (pay_id p) = None"
  shows "\<exists>m'. mem_CreatePayment c p key fp m = (m', Inr (p, True)) \<and>
    course m' (pay_id p) p None (accounts m) (ledger m)"
proof -
  have "reservations m (pay_id p) = None"
    using state_reservation [OF store_state [OF demo_store [OF inv]], of "pay_id p"] fresh
    by (cases "reservations m (pay_id p)") auto
  with assms demo_seen [OF inv fresh] show ?thesis
    by (simp add: mem_CreatePayment_def course_def)
qed

lemma course_start:
  assumes "course m pid p None A L" and "pay_status p = StatusInit"
  shows "\<exists>m'. mem_StartPayment c pid m = (m', Inr (p\<lparr>pay_status := StatusProcessing, pay_updated := c 0\<rparr>)) \<and>
    course m' pid (p\<lparr>pay_status := StatusProcessing, pay_updated := c 0\<rparr>) None A L"
  using assms by (simp add: mem_StartPayment_def course_def Let_def)

lemma course_record:
  assumes "course m pid p r A L"
  shows "\<exists>m' x. mem_RecordEvent c pid ty msg md m = (m', x) \<and> course m' pid p r A L"
  using assms by (simp add: mem_RecordEvent_def course_def)

lemma course_fail:
  assumes "course m pid p None A L" and "\<not> Terminal (pay_status p)"
  shows "\<exists>m' q. mem_FailAndRelease c pid reason m = (m', Inr q) \<and> course m' pid q None A L \<and>
    q = p\<lparr>pay_status := StatusFailed, pay_failure := reason, pay_updated := c 2\<rparr>"
  using assms by (simp add: mem_FailAndRelease_def course_def Let_def releaseLocked_def)

lemma course_freeze:
  assumes "course m pid p None A L" and "pay_status p = StatusProcessing"
  shows "\<exists>m'. mem_Freeze c pid m = (m', case A (pay_account p) of
        None \<Rightarrow> Inl ErrNotFound
      | Some a \<Rightarrow> if acc_available a <s pay_amount p then Inl ErrInsufficientFunds else Inr p) \<and>
    (case A (pay_account p) of
       None \<Rightarrow> course m' pid p None A L
     | Some a \<Rightarrow>
         if acc_available a <s pay_amount p then course m' pid p None A L
         else course m' pid p
           (Some \<lparr>res_payment = pid, res_account = acc_id a, res_amount = pay_amount p, res_state = FROZEN\<rparr>)
           (A(acc_id a \<mapsto> a\<lparr>acc_available := acc_available a - pay_amount p,
               acc_frozen := acc_frozen a + pay_amount p, acc_updated := c 0\<rparr>)) L)"
  using assms by (auto simp: mem_Freeze_def course_def Let_def split: option.split)

lemma course_cancel:
  assumes "course m pid p (Some r) A L" and "res_state r = FROZEN" and "A (res_account r) = Some a"
    and "acc_id a = res_account r" and "\<not> Terminal (pay_status p)"
  shows "\<exists>m' q. mem_FailAndRelease c pid reason m = (m', Inr q) \<and>
    q = p\<lparr>pay_status := StatusFailed, pay_failure := reason, pay_updated := c 2\<rparr> \<and>
    course m' pid q (Some (r\<lparr>res_state := CANCELLED\<rparr>))
      (A(res_account r \<mapsto> a\<lparr>acc_available := acc_available a + res_amount r,
          acc_frozen := acc_frozen a - res_amount r, acc_updated := c 0\<rparr>)) L"
  using assms by (simp add: mem_FailAndRelease_def course_def Let_def releaseLocked_def)

lemma course_confirm:
  assumes "course m pid p (Some r) A L" and "res_state r = FROZEN" and "A (res_account r) = Some a"
    and "acc_id a = res_account r" and "pay_status p = StatusProcessing"
    and "pay_callback_seq p <s cb_sequence cb" and "cb_outcome cb = ''success''"
  shows "\<exists>m' q e. mem_ProcessCallback c pid cb m =
      (m', Inr \<lparr>cr_payment = q, cr_disposition = CallbackApplied\<rparr>) \<and>
    payments m' pid = Some q \<and> ledger m' = L @ [e] \<and>
    accounts m' = A(res_account r \<mapsto> a\<lparr>acc_frozen := acc_frozen a - res_amount r, acc_updated := c 3\<rparr>) \<and>
    q = p\<lparr>pay_callback_seq := cb_sequence cb, pay_updated := c 3, pay_status := StatusSuccess\<rparr>"
  using assms by (simp add: mem_ProcessCallback_def applyCallback_def course_def Let_def word_sle_eq word_sless_alt)

text \<open>The abstract outcome of a new Create: what the README's table of fault points says.\<close>

definition create_outcome :: "string \<Rightarrow> bool option \<Rightarrow> bool \<Rightarrow> payment_status \<times> string" where
  "create_outcome fault enough auto =
     (if fault = ''before_freeze'' \<or> fault = ''freeze''
      then (StatusFailed, ''injected failure before funds freeze'')
      else case enough of
        None \<Rightarrow> (StatusFailed, ''account not found'')
      | Some False \<Rightarrow> (StatusFailed, ''insufficient funds'')
      | Some True \<Rightarrow>
          if fault = ''after_freeze''
          then (StatusFailed, ''injected failure after funds freeze; local Cancel completed'')
          else if auto then (StatusSuccess, '''') else (StatusProcessing, ''''))"

definition enough_funds :: "(string \<rightharpoonup> account) \<Rightarrow> create_input \<Rightarrow> bool option" where
  "enough_funds A i =
     map_option (\<lambda>a. sint (ci_amount i) \<le> sint (acc_available a)) (A (ci_account i))"

text \<open>How the money of the account has moved for a payment that ends in status \<open>st\<close>.\<close>

definition moved ::
  "(string \<rightharpoonup> account) \<Rightarrow> ledger_entry list \<Rightarrow> string \<Rightarrow> int \<Rightarrow> payment_status \<Rightarrow> mem_store \<Rightarrow> bool" where
  "moved A L k n st m \<longleftrightarrow>
     (case A k of
        None \<Rightarrow> accounts m k = None
      | Some a \<Rightarrow>
          (case accounts m k of
             None \<Rightarrow> False
           | Some b \<Rightarrow>
               sint (acc_available b) =
                 sint (acc_available a) - (if st = StatusSuccess \<or> st = StatusProcessing then n else 0) \<and>
               sint (acc_frozen b) = sint (acc_frozen a) + (if st = StatusProcessing then n else 0))) \<and>
     length (ledger m) = length L + (if st = StatusSuccess then 1 else 0)"

definition sane_accounts :: "(string \<rightharpoonup> account) \<Rightarrow> bool" where
  "sane_accounts A \<longleftrightarrow> (\<forall>k a. A k = Some a \<longrightarrow> acc_id a = k \<and> 0 \<le> sint (acc_available a) \<and>
     0 \<le> sint (acc_frozen a) \<and> sint (acc_available a) + sint (acc_frozen a) \<le> 1000000)"

lemma sane_demo: "demo_inv m \<Longrightarrow> sane_accounts (accounts m)"
  using account_bounds [OF store_money [OF demo_store]] money_owner_id [OF store_money [OF demo_store]]
  by (simp add: sane_accounts_def)

text \<open>The result of the rest of a Create: it returns a payment that is as \<open>create_outcome\<close> says.\<close>

definition ends_as ::
  "(mem_store, create_result) request \<Rightarrow> mem_store service \<Rightarrow> string \<Rightarrow> payment_status \<times> string \<Rightarrow>
   (string \<rightharpoonup> account) \<Rightarrow> ledger_entry list \<Rightarrow> string \<Rightarrow> int \<Rightarrow> bool" where
  "ends_as p s pid out A L k n \<longleftrightarrow>
     (\<exists>t q. exec p s = Some (t, Inr (created_result q)) \<and> payments (svc_store t) pid = Some q \<and>
        pay_id q = pid \<and> (pay_status q, pay_failure q) = out \<and> moved A L k n (fst out) (svc_store t))"

lemma ends_fail:
  assumes "course (svc_store s) pid p None A L" and "\<not> Terminal (pay_status p)" and "pay_id p = pid"
  shows "ends_as (fail_payment memory_ops c pid reason) s pid (StatusFailed, reason) A L k n"
proof -
  obtain m' q where "mem_FailAndRelease c pid reason (svc_store s) = (m', Inr q)" "course m' pid q None A L"
    "q = p\<lparr>pay_status := StatusFailed, pay_failure := reason, pay_updated := c 2\<rparr>"
    using course_fail [OF assms(1,2)] by blast
  with assms(3) show ?thesis
    by (simp add: ends_as_def fail_payment_def course_def moved_def split: option.split)
qed

lemma exec_inject:
  "exec (create_inject memory_ops c1 c2 pid msg point reason) s =
     exec (fail_payment memory_ops c2 pid reason)
       (s\<lparr>svc_metrics := (svc_metrics s)\<lparr>faultsInjected := faultsInjected (svc_metrics s) + 1\<rparr>,
          svc_store := fst (mem_RecordEvent c1 pid ''FAULT_INJECTED'' msg (Some [''point'' \<mapsto> point]) (svc_store s))\<rparr>)"
  by (simp add: create_inject_def split: prod.split)

lemma course_recorded:
  "course m pid p r A L \<Longrightarrow> course (fst (mem_RecordEvent c pid ty msg md m)) pid p r A L"
  using course_record [of m pid p r A L c ty msg md] by auto

lemma ends_inject:
  assumes "course (svc_store s) pid p None A L" and "\<not> Terminal (pay_status p)" and "pay_id p = pid"
  shows "ends_as (create_inject memory_ops c1 c2 pid msg point reason) s pid (StatusFailed, reason) A L k n"
proof -
  have "ends_as (fail_payment memory_ops c2 pid reason)
      (s\<lparr>svc_metrics := (svc_metrics s)\<lparr>faultsInjected := faultsInjected (svc_metrics s) + 1\<rparr>,
          svc_store := fst (mem_RecordEvent c1 pid ''FAULT_INJECTED'' msg (Some [''point'' \<mapsto> point]) (svc_store s))\<rparr>)
      pid (StatusFailed, reason) A L k n"
    using course_recorded [OF assms(1)] assms(2,3) by (intro ends_fail) auto
  then show ?thesis unfolding ends_as_def exec_inject .
qed

text \<open>The account after the freeze, and the reservation.\<close>

definition frozen_account_of :: "clock \<Rightarrow> int64 \<Rightarrow> account \<Rightarrow> account" where
  "frozen_account_of c n a =
     a\<lparr>acc_available := acc_available a - n, acc_frozen := acc_frozen a + n, acc_updated := c 0\<rparr>"

definition frozen_reservation :: "string \<Rightarrow> string \<Rightarrow> int64 \<Rightarrow> reservation" where
  "frozen_reservation pid k n =
     \<lparr>res_payment = pid, res_account = k, res_amount = n, res_state = FROZEN\<rparr>"

lemma frozen_sint:
  assumes "sane_accounts A" and "A k = Some a" and "0 < sint n" and "sint n \<le> sint (acc_available a)"
  shows "sint (acc_available a - n) = sint (acc_available a) - sint n"
    and "sint (acc_frozen a + n) = sint (acc_frozen a) + sint n"
    and "sint (acc_available a - n + n) = sint (acc_available a)"
    and "sint (acc_frozen a + n - n) = sint (acc_frozen a)"
proof -
  have "0 \<le> sint (acc_available a)" "0 \<le> sint (acc_frozen a)"
    "sint (acc_available a) + sint (acc_frozen a) \<le> 1000000"
    using assms(1,2) by (auto simp: sane_accounts_def)
  with assms(3,4) show "sint (acc_available a - n) = sint (acc_available a) - sint n"
    and "sint (acc_frozen a + n) = sint (acc_frozen a) + sint n"
    by (intro int64_arith; simp)+
qed simp_all

lemma ends_frozen_inject:
  assumes "course (svc_store s) pid p (Some (frozen_reservation pid k n))
      (A(k \<mapsto> frozen_account_of c n a)) L"
    and "\<not> Terminal (pay_status p)" and "pay_id p = pid" and "A k = Some a" and "acc_id a = k"
  shows "ends_as (create_inject memory_ops c1 c2 pid msg point reason) s pid (StatusFailed, reason) A L k m"
proof -
  let ?s = "s\<lparr>svc_metrics := (svc_metrics s)\<lparr>faultsInjected := faultsInjected (svc_metrics s) + 1\<rparr>,
      svc_store := fst (mem_RecordEvent c1 pid ''FAULT_INJECTED'' msg (Some [''point'' \<mapsto> point]) (svc_store s))\<rparr>"
  have "course (svc_store ?s) pid p (Some (frozen_reservation pid k n)) (A(k \<mapsto> frozen_account_of c n a)) L"
    using course_recorded [OF assms(1)] by simp
  from course_cancel [OF this, of "frozen_account_of c n a" c2 reason]
  obtain m' q where "mem_FailAndRelease c2 pid reason (svc_store ?s) = (m', Inr q)"
    "q = p\<lparr>pay_status := StatusFailed, pay_failure := reason, pay_updated := c2 2\<rparr>"
    "payments m' pid = Some q" "ledger m' = L"
    "accounts m' k = Some (a\<lparr>acc_available := acc_available a - n + n, acc_frozen := acc_frozen a + n - n,
       acc_updated := c2 0\<rparr>)"
    using assms(2,4,5) by (auto simp: course_def frozen_reservation_def frozen_account_of_def)
  with assms(3,4) show ?thesis
    unfolding ends_as_def exec_inject by (simp add: fail_payment_def moved_def)
qed

lemma ends_frozen_stay:
  assumes "course (svc_store s) pid p (Some (frozen_reservation pid k n))
      (A(k \<mapsto> frozen_account_of c n a)) L"
    and "pay_status p = StatusProcessing" and "pay_failure p = ''''" and "pay_id p = pid"
    and "sane_accounts A" and "A k = Some a" and "0 < sint n" and "sint n \<le> sint (acc_available a)"
  shows "ends_as (Ret (Inr (created_result p))) s pid (StatusProcessing, '''') A L k (sint n)"
  using assms frozen_sint [OF assms(5-8)]
  by (simp add: ends_as_def course_def moved_def frozen_account_of_def)

lemma TrimSpace_words: "TrimSpace ''success'' = ''success''" "TrimSpace ''auto_'' = ''auto_''"
  by code_simp+

lemma ToLower_success: "ToLower u ''success'' = ''success''"
  by code_simp

lemma auto_event_id:
  assumes "TrimSpace pid = pid" and "pid = NewID ''pay'' (Some buf) t" and "length buf = 12"
  shows "TrimSpace (''auto_'' @ pid) = ''auto_'' @ pid" and "length (''auto_'' @ pid) \<le> 128"
proof -
  have "printable (last (''auto_'' @ pid))"
  proof -
    have "buf \<noteq> []" using assms(3) by auto
    from hex_encode_last [OF this] assms(2) show ?thesis by (simp add: NewID_def)
  qed
  moreover have "printable (hd (''auto_'' @ pid))" by (simp add: printable_def)
  ultimately show "TrimSpace (''auto_'' @ pid) = ''auto_'' @ pid"
    by (intro TrimSpace_trimmed trimmed_printable) simp_all
  show "length (''auto_'' @ pid) \<le> 128" using assms(2,3) by (simp add: NewID_def)
qed

lemma exec_auto_Callback:
  assumes "TrimSpace pid = pid" and "pid \<noteq> ''''" and "TrimSpace eid = eid" and "eid \<noteq> ''''" and "length eid \<le> 128"
  shows "exec (svc_Callback st u c pid \<lparr>cbi_event_id = eid, cbi_sequence = 1, cbi_outcome = ''success'',
      cbi_reason = '''', cbi_fault = ''''\<rparr>) s =
    (let s1 = s\<lparr>svc_metrics := (svc_metrics s)\<lparr>callbacks := callbacks (svc_metrics s) + 1\<rparr>\<rparr> in
     case op_ProcessCallback st (c 1) pid \<lparr>cb_event_id = eid, cb_sequence = 1, cb_outcome = ''success'',
         cb_reason = ''''\<rparr> (svc_store s) of
       (m, Inl err) \<Rightarrow> Some (s1\<lparr>svc_store := m\<rparr>, Inl err)
     | (m, Inr res) \<Rightarrow> Some (s1\<lparr>svc_store := m,
         svc_metrics := count_disposition (cr_disposition res) (svc_metrics s1)\<rparr>, Inr res))"
  using assms
  by (simp add: svc_Callback_def Let_def normalize_callback_def validate_callback_def TrimSpace_words
      ToLower_success ToLower_faults isFault_def word_sle_eq split: prod.split sum.split)

lemma ends_frozen_auto:
  assumes "course (svc_store s) pid p (Some (frozen_reservation pid k n))
      (A(k \<mapsto> frozen_account_of c n a)) L"
    and "pay_status p = StatusProcessing" and "pay_failure p = ''''" and "pay_id p = pid"
    and "pay_callback_seq p = 0"
    and "sane_accounts A" and "A k = Some a" and "0 < sint n" and "sint n \<le> sint (acc_available a)"
    and "pid = NewID ''pay'' (Some buf) t" and "length buf = 12"
  shows "ends_as (bind_prog (svc_Callback memory_ops u cl pid
      \<lparr>cbi_event_id = ''auto_'' @ pid, cbi_sequence = 1, cbi_outcome = ''success'', cbi_reason = '''', cbi_fault = ''''\<rparr>)
      (\<lambda>r. case r of Inl err \<Rightarrow> Ret (Inl err) | Inr res \<Rightarrow> Ret (Inr (created_result (cr_payment res)))))
      s pid (StatusSuccess, '''') A L k (sint n)"
proof -
  have trim: "TrimSpace pid = pid" "pid \<noteq> ''''" using assms(10) by (simp_all add: TrimSpace_NewID) (simp add: NewID_def)
  define eid where "eid = ''auto_'' @ pid"
  have ev: "TrimSpace eid = eid" "eid \<noteq> ''''" "length eid \<le> 128"
    using auto_event_id [OF trim(1) assms(10,11)] by (simp_all add: eid_def)
  define cb where "cb = \<lparr>cb_event_id = eid, cb_sequence = 1, cb_outcome = ''success'', cb_reason = ''''\<rparr>"
  have id: "acc_id a = k" using assms(6,7) by (simp add: sane_accounts_def)
  from course_confirm [OF assms(1), of "frozen_account_of c n a" cb "cl 1"]
  obtain m' q e where run: "mem_ProcessCallback (cl 1) pid cb (svc_store s) =
      (m', Inr \<lparr>cr_payment = q, cr_disposition = CallbackApplied\<rparr>)"
    "payments m' pid = Some q" "ledger m' = L @ [e]"
    "accounts m' k = Some (a\<lparr>acc_available := acc_available a - n, acc_frozen := acc_frozen a + n - n, acc_updated := cl 1 3\<rparr>)"
    "q = p\<lparr>pay_callback_seq := 1, pay_updated := cl 1 3, pay_status := StatusSuccess\<rparr>"
    using assms(2,5) id
    by (auto simp: frozen_reservation_def frozen_account_of_def word_sless_alt cb_def)
  show ?thesis
    unfolding eid_def [symmetric]
    using run frozen_sint [OF assms(6-9)] assms(3,4,7)
    by (simp add: ends_as_def exec_bind exec_auto_Callback [OF trim ev] moved_def Let_def flip: cb_def)
qed

text \<open>The request and the new payment that \<open>Create\<close> has at hand.\<close>

definition fresh_course ::
  "mem_store service \<Rightarrow> create_input \<Rightarrow> string \<Rightarrow> payment \<Rightarrow> (string \<rightharpoonup> account) \<Rightarrow> ledger_entry list \<Rightarrow> bool" where
  "fresh_course s i pid p A L \<longleftrightarrow>
     course (svc_store s) pid p None A L \<and> pay_id p = pid \<and> pay_failure p = '''' \<and>
     pay_callback_seq p = 0 \<and> pay_account p = ci_account i \<and> pay_amount p = ci_amount i \<and>
     sane_accounts A \<and> valid_input i"

lemma fresh_course_store: "fresh_course (s\<lparr>svc_metrics := m\<rparr>) i pid p A L = fresh_course s i pid p A L"
  by (simp add: fresh_course_def)

lemma ends_frozen:
  assumes "course (svc_store s) pid p (Some (frozen_reservation pid k n)) (A(k \<mapsto> frozen_account_of c n a)) L"
    and "pay_status p = StatusProcessing" and "pay_failure p = ''''" and "pay_id p = pid"
    and "pay_callback_seq p = 0" and "sane_accounts A" and "A k = Some a" and "0 < sint n"
    and "sint n \<le> sint (acc_available a)" and "pid = NewID ''pay'' (Some buf) t" and "length buf = 12"
    and "ci_fault i \<noteq> ''before_freeze''" and "ci_fault i \<noteq> ''freeze''"
  shows "ends_as (create_frozen memory_ops u e i p) s pid
    (create_outcome (ci_fault i) (Some True) (ci_auto i)) A L k (sint n)"
proof -
  have "acc_id a = k" using assms(6,7) by (simp add: sane_accounts_def)
  then show ?thesis
    unfolding create_frozen_def assms(4)
    using ends_frozen_inject [OF assms(1) _ assms(4,7)] ends_frozen_stay [OF assms(1-4,6-9)]
      ends_frozen_auto [OF assms(1-11)] assms(2,12,13)
    by (simp add: isFault_def create_outcome_def)
qed

lemma ends_started:
  assumes "fresh_course s i pid p A L" and "pay_status p = StatusProcessing" and "pay_id q = pid"
    and "pid = NewID ''pay'' (Some buf) t" and "length buf = 12"
  shows "ends_as (create_started memory_ops u e i q p) s pid
    (create_outcome (ci_fault i) (enough_funds A i) (ci_auto i)) A L (ci_account i) (sint (ci_amount i))"
proof (cases "ci_fault i = ''before_freeze'' \<or> ci_fault i = ''freeze''")
  case True
  with assms ends_inject [of s pid p A L] show ?thesis
    by (auto simp: create_started_def isFault_def create_outcome_def fresh_course_def)
next
  case False
  have c: "course (svc_store s) pid p None A L" "pay_id p = pid" "pay_failure p = ''''"
    "pay_callback_seq p = 0" "pay_account p = ci_account i" "pay_amount p = ci_amount i"
    "sane_accounts A" "0 < sint (ci_amount i)"
    using assms(1) by (auto simp: fresh_course_def valid_input_def)
  define r where r: "r = (case A (ci_account i) of None \<Rightarrow> Inl ErrNotFound
      | Some a \<Rightarrow> if acc_available a <s ci_amount i then Inl ErrInsufficientFunds else Inr p)"
  from course_freeze [OF c(1) assms(2), of "env_clock e 4", unfolded c(5,6),
      folded frozen_reservation_def frozen_account_of_def]
  obtain m' where fr: "mem_Freeze (env_clock e 4) pid (svc_store s) = (m', r)"
    and m': "case A (ci_account i) of None \<Rightarrow> course m' pid p None A L
      | Some a \<Rightarrow> if acc_available a <s ci_amount i then course m' pid p None A L
          else course m' pid p (Some (frozen_reservation pid (acc_id a) (ci_amount i)))
            (A(acc_id a \<mapsto> frozen_account_of (env_clock e 4) (ci_amount i) a)) L"
    unfolding r by blast
  let ?s = "s\<lparr>svc_store := m'\<rparr>"
  note fail = ends_fail [of ?s pid p A L]
  have started: "exec (create_started memory_ops u e i q p) s =
      exec (case r of Inr q' \<Rightarrow> create_frozen memory_ops u e i q'
        | Inl err \<Rightarrow> if err = ErrInsufficientFunds \<or> err = ErrNotFound then
             fail_payment memory_ops (env_clock e 5) pid
               (if err = ErrInsufficientFunds then ''insufficient funds'' else ''account not found'')
           else Ret (Inl err)) ?s"
    using False c(2) assms(3) fr by (cases r) (simp_all add: create_started_def isFault_def)
  show ?thesis
  proof (cases "A (ci_account i)")
    case None
    with started r m' fail c(2) assms(2) False show ?thesis
      by (simp add: ends_as_def create_outcome_def enough_funds_def)
  next
    case (Some a)
    have id: "acc_id a = ci_account i" using c(7) Some by (simp add: sane_accounts_def)
    show ?thesis
    proof (cases "acc_available a <s ci_amount i")
      case True
      with started r m' fail c(2) assms(2) False Some show ?thesis
        by (simp add: ends_as_def create_outcome_def enough_funds_def word_sless_alt)
    next
      case covered: False
      then have le: "sint (ci_amount i) \<le> sint (acc_available a)" by (simp add: word_sless_alt)
      have "course (svc_store ?s) pid p (Some (frozen_reservation pid (ci_account i) (ci_amount i)))
          (A(ci_account i \<mapsto> frozen_account_of (env_clock e 4) (ci_amount i) a)) L"
        using m' Some covered id by simp
      from ends_frozen [OF this assms(2) c(3,2,4,7) Some c(8) le assms(4,5)] False started r Some covered le
      show ?thesis by (simp add: ends_as_def enough_funds_def)
    qed
  qed
qed

lemma ends_new:
  assumes "fresh_course s i pid p A L" and "pay_status p = StatusInit"
    and "pid = NewID ''pay'' (Some buf) t" and "length buf = 12"
  shows "ends_as (create_new memory_ops u e i p) s pid
    (create_outcome (ci_fault i) (enough_funds A i) (ci_auto i)) A L (ci_account i) (sint (ci_amount i))"
proof -
  let ?p = "p\<lparr>pay_status := StatusProcessing, pay_updated := env_clock e 1 0\<rparr>"
  have c: "course (svc_store s) pid p None A L" "pay_id p = pid"
    using assms(1) by (simp_all add: fresh_course_def)
  obtain m' where m': "mem_StartPayment (env_clock e 1) pid (svc_store s) = (m', Inr ?p)"
    "course m' pid ?p None A L"
    using course_start [OF c(1) assms(2)] by blast
  let ?s = "s\<lparr>svc_metrics := (svc_metrics s)\<lparr>paymentsCreated := paymentsCreated (svc_metrics s) + 1\<rparr>, svc_store := m'\<rparr>"
  have "fresh_course ?s i pid ?p A L"
    using assms(1) m'(2) by (simp add: fresh_course_def)
  from ends_started [OF this _ c(2) assms(3,4)] m'(1) c(2) show ?thesis
    by (simp add: ends_as_def create_new_def)
qed

lemma ends_locked:
  assumes inv: "demo_inv (svc_store s)" and valid: "valid_input i"
    and key: "memory_key (svc_store s) (ci_key i) = None"
    and rand: "env_random e = Some buf" "length buf = 12"
    and fresh: "payments (svc_store s) (NewID ''pay'' (Some buf) (env_nano e)) = None"
  shows "ends_as (create_locked memory_ops u e i) s (NewID ''pay'' (Some buf) (env_nano e))
    (create_outcome (ci_fault i) (enough_funds (accounts (svc_store s)) i) (ci_auto i))
    (accounts (svc_store s)) (ledger (svc_store s)) (ci_account i) (sint (ci_amount i))"
proof -
  let ?p = "initial_payment e i" and ?pid = "NewID ''pay'' (Some buf) (env_nano e)"
  have id: "pay_id ?p = ?pid" by (simp add: initial_payment_def rand)
  obtain m' where m': "mem_CreatePayment (env_clock e 0) ?p (ci_key i) (Fingerprint i) (svc_store s) = (m', Inr (?p, True))"
    "course m' ?pid ?p None (accounts (svc_store s)) (ledger (svc_store s))"
    using course_create [OF inv, of "ci_key i" ?p] key fresh id by (auto simp: memory_key_def)
  let ?s = "s\<lparr>svc_store := m'\<rparr>"
  have "fresh_course ?s i ?pid ?p (accounts (svc_store s)) (ledger (svc_store s))"
    using m'(2) id valid sane_demo [OF inv]
    by (simp add: fresh_course_def) (simp add: initial_payment_def zero_payment_def)
  moreover have "pay_status ?p = StatusInit" by (simp add: initial_payment_def)
  ultimately have "ends_as (create_new memory_ops u e i ?p) ?s ?pid
      (create_outcome (ci_fault i) (enough_funds (accounts (svc_store s)) i) (ci_auto i))
      (accounts (svc_store s)) (ledger (svc_store s)) (ci_account i) (sint (ci_amount i))"
    using rand(2) by (intro ends_new) simp_all
  with m'(1) show ?thesis by (simp add: ends_as_def create_locked_def)
qed

end
