(* ===== verification/Service_Properties.thy ===== *)
theory Service_Properties
  imports Service_Runs
begin

section \<open>Properties of the service on the in-memory store\<close>

text \<open>
  What holds in every interleaving of requests, and what a request does when it runs alone.
  \<open>fresh_service\<close> is the service that the server starts with.
\<close>

definition fresh_service :: "time \<Rightarrow> time \<Rightarrow> mem_store service" where
  "fresh_service t0 t1 = NewPaymentService t1 (NewMemoryStore t0)"

lemma fresh_inv [simp]: "demo_inv (svc_store (fresh_service t0 t1))"
  by (simp add: fresh_service_def NewPaymentService_def NewMemoryStore_def demo_inv_reset)

lemma fresh_locks [simp]: "lk_keys (svc_locks (fresh_service t0 t1)) = Map.empty"
  by (simp add: fresh_service_def NewPaymentService_def no_locks_def)

lemma fresh_store [simp]:
  "payments (svc_store (fresh_service t0 t1)) = Map.empty"
  "memory_key (svc_store (fresh_service t0 t1)) k = None"
  "ledger (svc_store (fresh_service t0 t1)) = []"
  "accounts (svc_store (fresh_service t0 t1)) = [''demo-user'' \<mapsto>
     \<lparr>acc_id = ''demo-user'', acc_available = 1000000, acc_frozen = 0, acc_currency = ''CNY'', acc_updated = t0\<rparr>]"
  by (simp_all add: fresh_service_def NewPaymentService_def NewMemoryStore_def resetLocked_def
      memory_key_def demoBalanceCents_def)

subsection \<open>A request as a witness\<close>

definition ex_tables :: case_tables where
  "ex_tables = \<lparr>tab_lower = id, tab_upper = id\<rparr>"

definition ex_env :: "string \<Rightarrow> call_env" where
  "ex_env r = \<lparr>env_clock = (\<lambda>n k. int (10 * n + k)), env_now = 7, env_random = Some r,
     env_nano = 0, env_order = []\<rparr>"

definition ex_input :: create_input where
  "ex_input = \<lparr>ci_order = ''o1'', ci_account = ''demo-user'', ci_amount = 2500, ci_currency = ''CNY'',
     ci_key = ''k1'', ci_auto = True, ci_fault = ''''\<rparr>"

lemma ex_normal: "NormalizeCreateInput ex_tables ex_input = ex_input"
proof -
  have "TrimSpace ''o1'' = ''o1''" "TrimSpace ''demo-user'' = ''demo-user''" "TrimSpace ''k1'' = ''k1''"
    by code_simp+
  then show ?thesis
    by (simp add: NormalizeCreateInput_def ex_input_def Let_def TrimSpace_CNY ToUpper_CNY ToLower_faults)
qed

lemma ex_key: "TrimSpace (ci_key ex_input) = ''k1''"
proof -
  have "TrimSpace ''k1'' = ''k1''" by code_simp
  then show ?thesis by (simp add: ex_input_def)
qed

lemma ex_valid: "valid_input ex_input"
  by (simp add: valid_input_def ex_input_def)

abbreviation ex_pid :: string where
  "ex_pid \<equiv> NewID ''pay'' (Some ''ABCDEFGHIJKL'') 0"

subsection \<open>Create alone\<close>

lemma outcome_of_create:
  assumes "demo_inv (svc_store s)" and "i = NormalizeCreateInput u i0" and "valid_input i"
    and "memory_key (svc_store s) (ci_key i) = None" and "lk_keys (svc_locks s) (ci_key i) = None"
    and "env_random e = Some buf" and "length buf = 12"
    and "pid = NewID ''pay'' (Some buf) (env_nano e)" and "payments (svc_store s) pid = None"
  shows "\<exists>t res. exec (svc_Create memory_ops u e i0) s = Some (t, Inr res) \<and> \<not> cre_replay res \<and>
    pay_id (cre_payment res) = pid \<and> payments (svc_store t) pid = Some (cre_payment res) \<and>
    (pay_status (cre_payment res), pay_failure (cre_payment res)) =
      create_outcome (ci_fault i) (enough_funds (accounts (svc_store s)) i) (ci_auto i) \<and>
    moved (accounts (svc_store s)) (ledger (svc_store s)) (ci_account i) (sint (ci_amount i))
      (pay_status (cre_payment res)) (svc_store t) \<and>
    lk_keys (svc_locks t) = lk_keys (svc_locks s)"
proof -
  let ?s = "holding (ci_key i) s"
  have "ends_as (create_locked memory_ops u e i) ?s pid
      (create_outcome (ci_fault i) (enough_funds (accounts (svc_store s)) i) (ci_auto i))
      (accounts (svc_store s)) (ledger (svc_store s)) (ci_account i) (sint (ci_amount i))"
    using ends_locked [of ?s i e buf u] assms by simp
  then obtain t q where run: "exec (create_locked memory_ops u e i) ?s = Some (t, Inr (created_result q))"
    and q: "payments (svc_store t) pid = Some q" "pay_id q = pid"
      "(pay_status q, pay_failure q) =
         create_outcome (ci_fault i) (enough_funds (accounts (svc_store s)) i) (ci_auto i)"
    and m: "moved (accounts (svc_store s)) (ledger (svc_store s)) (ci_account i) (sint (ci_amount i))
      (pay_status q) (svc_store t)"
    unfolding ends_as_def by (metis fst_conv)
  have "\<exists>t'. exec (svc_Create memory_ops u e i0) s = Some (t', Inr (created_result q)) \<and>
      svc_store t' = svc_store t \<and> lk_keys (svc_locks t') = lk_keys (svc_locks s)"
    using assms(2,3,5) run by (intro exec_Create) simp_all
  with q m show ?thesis by (auto simp: created_result_def)
qed

text \<open>A request that was answered under the key: a repetition finds its payment again.\<close>

lemma replay_of_create:
  assumes inv: "demo_inv (svc_store s)" and i: "i = NormalizeCreateInput u i0" "valid_input i"
    and key: "memory_key (svc_store s) (ci_key i) = Some (pid, fp)"
    and pay: "payments (svc_store s) pid = Some q"
    and free: "lk_keys (svc_locks s) (ci_key i) = None"
  shows "\<exists>t. exec (svc_Create memory_ops u e i0) s =
      Some (t, if Fingerprint i = fp then Inr \<lparr>cre_payment = q, cre_replay = True\<rparr>
        else Inl ErrIdempotencyConflict) \<and>
    svc_store t = svc_store s \<and> lk_keys (svc_locks t) = lk_keys (svc_locks s)"
proof -
  let ?s = "holding (ci_key i) s"
  obtain t where "exec (create_locked memory_ops u e i) ?s =
      Some (t, if Fingerprint i = fp then Inr \<lparr>cre_payment = q, cre_replay = True\<rparr>
        else Inl ErrIdempotencyConflict)" "svc_store t = svc_store s"
    using memory_create_replay [OF key pay] memory_create_conflict [OF key]
    by (cases "Fingerprint i = fp") (simp_all add: create_locked_def)
  then show ?thesis using exec_Create [of u i0 s memory_ops e] i free by (metis i(1))
qed

text \<open>C9. A new Create that runs alone has the outcome that the fault point, the account's balance and
  the auto-confirm flag call for: it returns the stored payment, not as a replay, in the status and
  with the failure reason of \<open>create_outcome\<close>; a FAILED payment has moved no money, a PROCESSING one
  has its amount frozen, a SUCCESS one has paid it and has one more ledger entry; and the key's lock
  is free again.\<close>

theorem create_has_outcome:
  assumes "demo_inv (svc_store s)" and "i = NormalizeCreateInput u i0" and "valid_input i"
    and "memory_key (svc_store s) (ci_key i) = None" and "lk_keys (svc_locks s) (ci_key i) = None"
    and "env_random e = Some buf" and "length buf = 12"
    and "pid = NewID ''pay'' (Some buf) (env_nano e)" and "payments (svc_store s) pid = None"
  shows "\<exists>t res. exec (svc_Create memory_ops u e i0) s = Some (t, Inr res) \<and> \<not> cre_replay res \<and>
    pay_id (cre_payment res) = pid \<and> payments (svc_store t) pid = Some (cre_payment res) \<and>
    (pay_status (cre_payment res), pay_failure (cre_payment res)) =
      create_outcome (ci_fault i) (enough_funds (accounts (svc_store s)) i) (ci_auto i) \<and>
    moved (accounts (svc_store s)) (ledger (svc_store s)) (ci_account i) (sint (ci_amount i))
      (pay_status (cre_payment res)) (svc_store t) \<and>
    lk_keys (svc_locks t) = lk_keys (svc_locks s)"
  using assms by (rule outcome_of_create)

theorem create_has_outcome_witness:
  "\<exists>t res. exec (svc_Create memory_ops ex_tables (ex_env ''ABCDEFGHIJKL'') ex_input) (fresh_service 0 0) =
      Some (t, Inr res) \<and> pay_status (cre_payment res) = StatusSuccess \<and> length (ledger (svc_store t)) = 1"
proof -
  let ?s = "fresh_service 0 0" and ?e = "ex_env ''ABCDEFGHIJKL''"
  have out: "create_outcome (ci_fault ex_input) (enough_funds (accounts (svc_store ?s)) ex_input) (ci_auto ex_input)
      = (StatusSuccess, '''')"
    by (simp add: enough_funds_def create_outcome_def ex_input_def)
  have "\<exists>t res. exec (svc_Create memory_ops ex_tables ?e ex_input) ?s = Some (t, Inr res) \<and>
      (pay_status (cre_payment res), pay_failure (cre_payment res)) = (StatusSuccess, '''') \<and>
      moved (accounts (svc_store ?s)) (ledger (svc_store ?s)) (ci_account ex_input) (sint (ci_amount ex_input))
        (pay_status (cre_payment res)) (svc_store t)"
    using create_has_outcome [of ?s ex_input ex_tables ex_input ?e "''ABCDEFGHIJKL''" ex_pid]
    unfolding out by (simp add: ex_normal ex_valid ex_env_def) blast
  then show ?thesis by (force simp: moved_def)
qed

text \<open>C30. Create checks its request before it does anything: it answers with a validation error,
  without taking a lock, touching the store or a counter, exactly when the normalised request
  breaks one of the documented bounds.\<close>

theorem create_validates:
  "(\<exists>m. svc_Create memory_ops u e i = Ret (Inl (ValidationError m))) \<longleftrightarrow> \<not> valid_input (NormalizeCreateInput u i)"
proof (cases "ValidateCreateInput (NormalizeCreateInput u i)")
  case None
  then show ?thesis
    by (simp add: svc_Create_def Let_def lockIdempotencyKey_def act_def flip: validate_valid)
next
  case (Some err)
  then have "\<not> valid_input (NormalizeCreateInput u i)" by (simp flip: validate_valid)
  with validate_error [OF Some] Some show ?thesis by (auto simp: svc_Create_def Let_def)
qed

text \<open>What the channel's callback must be.\<close>

definition valid_callback :: "string \<Rightarrow> callback_input \<Rightarrow> bool" where
  "valid_callback pid i \<longleftrightarrow>
     pid \<noteq> '''' \<and> cbi_event_id i \<noteq> '''' \<and> length (cbi_event_id i) \<le> 128 \<and> 0 < sint (cbi_sequence i) \<and>
     cbi_outcome i \<in> {''success'', ''failed''} \<and> cbi_fault i \<in> {'''', ''before_confirm'', ''confirm''}"

lemma validate_callback_valid:
  "validate_callback pid i = None \<longleftrightarrow> valid_callback pid i"
  by (auto simp: validate_callback_def valid_callback_def isFault_def word_sle_eq)

lemma validate_callback_error: "validate_callback pid i = Some e \<Longrightarrow> \<exists>m. e = ValidationError m"
  by (auto simp: validate_callback_def split: if_splits)

text \<open>Callback checks its request before it does anything, in the same way.\<close>

theorem callback_validates:
  "(\<exists>m. svc_Callback memory_ops u c pid i = Ret (Inl (ValidationError m))) \<longleftrightarrow>
   \<not> valid_callback (TrimSpace pid) (normalize_callback u i)"
proof (cases "validate_callback (TrimSpace pid) (normalize_callback u i)")
  case None
  then show ?thesis
    by (simp add: svc_Callback_def Let_def count_def act_def flip: validate_callback_valid)
next
  case (Some err)
  then have "\<not> valid_callback (TrimSpace pid) (normalize_callback u i)" by (simp flip: validate_callback_valid)
  with validate_callback_error [OF Some] Some show ?thesis by (auto simp: svc_Callback_def Let_def)
qed

text \<open>C27. A Create whose key nobody uses returns, whatever the store does, and leaves the table of
  key locks as it found it.\<close>

theorem create_returns:
  assumes "lk_keys (svc_locks s) (TrimSpace (ci_key i)) = None"
  shows "\<exists>t r. exec (svc_Create memory_ops u e i) s = Some (t, r) \<and> lk_keys (svc_locks t) = lk_keys (svc_locks s)"
  using assms by (intro exec_Create_returns) simp

theorem create_returns_witness:
  "\<exists>t r. exec (svc_Create memory_ops ex_tables (ex_env ''ABCDEFGHIJKL'') ex_input) (fresh_service 0 0) = Some (t, r) \<and>
    lk_keys (svc_locks t) = Map.empty"
  using create_returns [of "fresh_service 0 0" ex_input ex_tables "ex_env ''ABCDEFGHIJKL''"] by simp

subsection \<open>Two runs\<close>

text \<open>One Create that is answered, and then its repetition.\<close>

lemma exec_answer:
  "exec p s = Some (t, r) \<Longrightarrow> exec (answer c f p) s = Some (t, (c, f r))"
  by (simp add: answer_def exec_bind)

lemma normal_serve: "\<not> is_reset c \<Longrightarrow> normal_call st u (serve st u c)"
  by (auto simp: normal_call_def)

abbreviation ex_call :: "string \<Rightarrow> api_call" where
  "ex_call r \<equiv> CallCreate (ex_env r) ex_input"

lemma ex_exec:
  "\<exists>t res. exec (svc_Create memory_ops ex_tables (ex_env ''ABCDEFGHIJKL'') ex_input) (fresh_service 0 0) =
      Some (t, Inr res) \<and> \<not> cre_replay res \<and>
    payments (svc_store t) ex_pid = Some (cre_payment res) \<and> pay_id (cre_payment res) = ex_pid \<and>
    pay_status (cre_payment res) = StatusSuccess \<and> lk_keys (svc_locks t) = Map.empty"
proof -
  let ?s = "fresh_service 0 0" and ?e = "ex_env ''ABCDEFGHIJKL''"
  have out: "create_outcome (ci_fault ex_input) (enough_funds (accounts (svc_store ?s)) ex_input) (ci_auto ex_input)
      = (StatusSuccess, '''')"
    by (simp add: enough_funds_def create_outcome_def ex_input_def)
  show ?thesis
    using outcome_of_create [of ?s ex_input ex_tables ex_input ?e "''ABCDEFGHIJKL''" ex_pid]
    unfolding out by (simp add: ex_normal ex_valid ex_env_def) blast
qed

lemma ex_run:
  "\<exists>t res. pool_run (normal_call memory_ops ex_tables) (fresh_service 0 0, [])
      (t, [Ret (ex_call ''ABCDEFGHIJKL'', GotCreate (Inr res))]) \<and>
    payments (svc_store t) ex_pid = Some (cre_payment res) \<and> pay_id (cre_payment res) = ex_pid \<and>
    pay_status (cre_payment res) = StatusSuccess \<and> lk_keys (svc_locks t) = Map.empty"
proof -
  let ?s = "fresh_service 0 0"
  obtain t res where t: "exec (svc_Create memory_ops ex_tables (ex_env ''ABCDEFGHIJKL'') ex_input) ?s = Some (t, Inr res)"
    "payments (svc_store t) ex_pid = Some (cre_payment res)" "pay_id (cre_payment res) = ex_pid"
    "pay_status (cre_payment res) = StatusSuccess" "lk_keys (svc_locks t) = Map.empty"
    using ex_exec by blast
  have "pool_run (normal_call memory_ops ex_tables) (?s, []) (t, [] @ [Ret (ex_call ''ABCDEFGHIJKL'', GotCreate (Inr res))])"
    using normal_serve [of "ex_call ''ABCDEFGHIJKL''" memory_ops ex_tables] exec_answer [OF t(1)]
    by (intro exec_arrive [of _ "serve memory_ops ex_tables (ex_call ''ABCDEFGHIJKL'')"]) simp_all
  with t show ?thesis by auto
qed

lemma ex_run_again:
  "\<exists>t v r1 r2. pool_run (normal_call memory_ops ex_tables) (fresh_service 0 0, [])
      (t, [Ret (ex_call ''ABCDEFGHIJKL'', GotCreate (Inr r1))]) \<and>
    payments (svc_store t) ex_pid = Some (cre_payment r1) \<and> pay_status (cre_payment r1) = StatusSuccess \<and>
    pool_run (normal_call memory_ops ex_tables) (t, [Ret (ex_call ''ABCDEFGHIJKL'', GotCreate (Inr r1))])
      (v, [Ret (ex_call ''ABCDEFGHIJKL'', GotCreate (Inr r1)), Ret (ex_call ''abcdefghijkl'', GotCreate (Inr r2))])"
proof -
  obtain t r1 where t: "pool_run (normal_call memory_ops ex_tables) (fresh_service 0 0, [])
      (t, [Ret (ex_call ''ABCDEFGHIJKL'', GotCreate (Inr r1))])"
    "payments (svc_store t) ex_pid = Some (cre_payment r1)" "pay_id (cre_payment r1) = ex_pid"
    "lk_keys (svc_locks t) = Map.empty" "pay_status (cre_payment r1) = StatusSuccess"
    using ex_run by blast
  have inv: "demo_inv (svc_store t)" using memory.pool_normal(1) [OF t(1)] by simp
  have "answer_ok memory_ops ex_tables memory_key (svc_store t) (ex_call ''ABCDEFGHIJKL'', GotCreate (Inr r1))"
    using memory.pool_normal(3) [OF t(1)] by simp
  then have key: "memory_key (svc_store t) (ci_key ex_input) = Some (ex_pid, Fingerprint ex_input)"
    using t(3) by (simp add: create_answer_def ex_normal)
  from replay_of_create [OF inv _ ex_valid key t(2), of ex_tables ex_input "ex_env ''abcdefghijkl''"]
  obtain v r2 where v: "exec (svc_Create memory_ops ex_tables (ex_env ''abcdefghijkl'') ex_input) t = Some (v, Inr r2)"
    by (auto simp: ex_normal t(4))
  have "pool_run (normal_call memory_ops ex_tables) (t, [Ret (ex_call ''ABCDEFGHIJKL'', GotCreate (Inr r1))])
      (v, [Ret (ex_call ''ABCDEFGHIJKL'', GotCreate (Inr r1))] @ [Ret (ex_call ''abcdefghijkl'', GotCreate (Inr r2))])"
    using normal_serve [of "ex_call ''abcdefghijkl''" memory_ops ex_tables] exec_answer [OF v]
    by (intro exec_arrive [of _ "serve memory_ops ex_tables (ex_call ''abcdefghijkl'')"]) simp_all
  with t show ?thesis by auto
qed

subsection \<open>Requests in any interleaving\<close>

text \<open>C4. Whatever requests arrive and however their steps interleave, resets included, the books are
  right at every moment: the demo account's balances are not negative and add up, with the ledger,
  to the balance it started with, and every payment's status agrees with its reservation.\<close>

theorem interleaved_books:
  assumes "pool_run (any_call memory_ops u) (fresh_service t0 t1, []) (s, ps)"
    and "accounts (svc_store s) k = Some a"
  shows "k = ''demo-user'' \<and> 0 \<le> sint (acc_available a) \<and> 0 \<le> sint (acc_frozen a) \<and>
    sint (acc_available a) + sint (acc_frozen a) + ledger_total (svc_store s) k = 1000000 \<and>
    (\<forall>pid p. payments (svc_store s) pid = Some p \<longrightarrow> agree (pay_status p) (res_state_of (svc_store s) pid))"
proof -
  have inv: "demo_inv (svc_store s)" using memory_any.pool_any [OF assms(1)] by simp
  note st = demo_store [OF inv]
  show ?thesis
    using books [OF st assms(2)] account_bounds [OF store_money [OF st] assms(2)]
      demo_accounts_only [OF inv assms(2)] state_agree [OF store_state [OF st]] by blast
qed

theorem interleaved_books_witness:
  "\<exists>s ps a. pool_run (any_call memory_ops ex_tables) (fresh_service 0 0, []) (s, ps) \<and> length ps = 1 \<and>
    length (ledger (svc_store s)) = 1 \<and> accounts (svc_store s) ''demo-user'' = Some a \<and>
    sint (acc_available a) + sint (acc_frozen a) + ledger_total (svc_store s) ''demo-user'' = 1000000"
proof -
  let ?s = "fresh_service 0 0" and ?e = "ex_env ''ABCDEFGHIJKL''" and ?c = "ex_call ''ABCDEFGHIJKL''"
  have out: "create_outcome (ci_fault ex_input) (enough_funds (accounts (svc_store ?s)) ex_input) (ci_auto ex_input)
      = (StatusSuccess, '''')"
    by (simp add: enough_funds_def create_outcome_def ex_input_def)
  obtain t res where t: "exec (svc_Create memory_ops ex_tables ?e ex_input) ?s = Some (t, Inr res)"
    and moved: "moved (accounts (svc_store ?s)) (ledger (svc_store ?s)) (ci_account ex_input)
      (sint (ci_amount ex_input)) StatusSuccess (svc_store t)"
    using outcome_of_create [of ?s ex_input ex_tables ex_input ?e "''ABCDEFGHIJKL''" ex_pid]
    unfolding out by (auto simp: ex_normal ex_valid ex_env_def)
  have "pool_run (any_call memory_ops ex_tables) (?s, []) (t, [] @ [Ret (?c, GotCreate (Inr res))])"
  proof (rule exec_arrive)
    show "any_call memory_ops ex_tables (serve memory_ops ex_tables ?c)" unfolding any_call_def by blast
  qed (simp add: exec_answer [OF t])
  then have run: "pool_run (any_call memory_ops ex_tables) (?s, []) (t, [Ret (?c, GotCreate (Inr res))])" by simp
  obtain a where a: "accounts (svc_store t) ''demo-user'' = Some a" "length (ledger (svc_store t)) = 1"
    using moved by (cases "accounts (svc_store t) ''demo-user''") (auto simp: moved_def ex_input_def)
  from interleaved_books [OF run a(1)] run a show ?thesis by fastforce
qed

text \<open>C18. Whatever requests are in flight, a payment that has reached a terminal status stays exactly
  as it is, until a reset.\<close>

theorem terminal_is_final:
  assumes "demo_inv (svc_store s0)" and "pool_run (normal_call memory_ops u) (s0, []) (s, ps)"
    and "pool_run (normal_call memory_ops u) (s, ps) (t, qs)"
    and "payments (svc_store s) pid = Some p" and "Terminal (pay_status p)"
  shows "payments (svc_store t) pid = Some p"
  using memory.terminal_found [OF memory.pool_normal_later [OF assms(2,1,3)], of pid p] assms(4,5)
  by (simp add: found_memory)

theorem terminal_is_final_witness:
  "\<exists>v qs p. pool_run (normal_call memory_ops ex_tables) (fresh_service 0 0, []) (v, qs) \<and> length qs = 2 \<and>
    payments (svc_store v) ex_pid = Some p \<and> pay_status p = StatusSuccess"
proof -
  obtain t v r1 r2 where run: "pool_run (normal_call memory_ops ex_tables) (fresh_service 0 0, [])
      (t, [Ret (ex_call ''ABCDEFGHIJKL'', GotCreate (Inr r1))])"
    "pool_run (normal_call memory_ops ex_tables) (t, [Ret (ex_call ''ABCDEFGHIJKL'', GotCreate (Inr r1))])
      (v, [Ret (ex_call ''ABCDEFGHIJKL'', GotCreate (Inr r1)), Ret (ex_call ''abcdefghijkl'', GotCreate (Inr r2))])"
    and p: "payments (svc_store t) ex_pid = Some (cre_payment r1)" "pay_status (cre_payment r1) = StatusSuccess"
    using ex_run_again by blast
  have "payments (svc_store v) ex_pid = Some (cre_payment r1)"
    using terminal_is_final [OF _ run p(1)] p(2) by simp
  with p(2) pool_run_trans [OF run(2,1)] show ?thesis by fastforce
qed

text \<open>What an answer says holds: the payment that a Create returns, in any interleaving, is in the
  store, in the status the answer gives or further on, its key is bound to it with the request's
  fingerprint, and an answer that is not a replay never shows the short-lived status INIT.\<close>

theorem create_answer_holds:
  assumes "demo_inv (svc_store s)" and "pool_run (normal_call memory_ops u) (s, []) (t, ps)"
    and "Ret (CallCreate e i, GotCreate (Inr res)) \<in> set ps"
  shows "\<exists>q. payments (svc_store t) (pay_id (cre_payment res)) = Some q \<and> payment_grows (cre_payment res) q \<and>
    memory_key (svc_store t) (TrimSpace (ci_key i)) =
      Some (pay_id (cre_payment res), Fingerprint (NormalizeCreateInput u i)) \<and>
    (cre_replay res \<or> pay_status (cre_payment res) \<noteq> StatusInit)"
  using memory.pool_normal(3) [OF assms(2,1,3)]
  by (auto simp: create_answer_def answered_def found_memory split: option.splits)

theorem create_answer_holds_witness:
  "\<exists>m q. payments m ex_pid = Some q \<and> memory_key m ''k1'' = Some (ex_pid, Fingerprint ex_input)"
proof -
  obtain t res where t: "pool_run (normal_call memory_ops ex_tables) (fresh_service 0 0, [])
      (t, [Ret (ex_call ''ABCDEFGHIJKL'', GotCreate (Inr res))])" "pay_id (cre_payment res) = ex_pid"
    using ex_run by blast
  have "\<exists>q. payments (svc_store t) (pay_id (cre_payment res)) = Some q \<and>
      memory_key (svc_store t) ''k1'' = Some (pay_id (cre_payment res), Fingerprint ex_input)"
    using create_answer_holds [OF _ t(1), of "ex_env ''ABCDEFGHIJKL''" ex_input res]
    by (auto simp: ex_normal ex_key)
  then show ?thesis unfolding t(2) by blast
qed

text \<open>C5. Idempotency under concurrency: if two Create requests with the same idempotency key both get
  a payment, in any interleaving of any requests without a reset, they get the same payment, and
  the requests have the same fingerprint.\<close>

theorem same_key_same_payment:
  assumes "demo_inv (svc_store s)" and "pool_run (normal_call memory_ops u) (s, []) (t, ps)"
    and "Ret (CallCreate e1 i1, GotCreate (Inr r1)) \<in> set ps"
    and "Ret (CallCreate e2 i2, GotCreate (Inr r2)) \<in> set ps"
    and "TrimSpace (ci_key i1) = TrimSpace (ci_key i2)"
  shows "pay_id (cre_payment r1) = pay_id (cre_payment r2) \<and>
    Fingerprint (NormalizeCreateInput u i1) = Fingerprint (NormalizeCreateInput u i2)"
  using memory.pool_normal(3) [OF assms(2,1,3)] memory.pool_normal(3) [OF assms(2,1,4)] assms(5)
  by (simp add: create_answer_def)

theorem same_key_same_payment_witness:
  "\<exists>t r1 r2. pool_run (normal_call memory_ops ex_tables) (fresh_service 0 0, [])
      (t, [Ret (ex_call ''ABCDEFGHIJKL'', GotCreate (Inr r1)), Ret (ex_call ''abcdefghijkl'', GotCreate (Inr r2))]) \<and>
    pay_id (cre_payment r1) = pay_id (cre_payment r2)"
proof -
  obtain t v r1 r2 where run: "pool_run (normal_call memory_ops ex_tables) (fresh_service 0 0, [])
      (t, [Ret (ex_call ''ABCDEFGHIJKL'', GotCreate (Inr r1))])"
    "pool_run (normal_call memory_ops ex_tables) (t, [Ret (ex_call ''ABCDEFGHIJKL'', GotCreate (Inr r1))])
      (v, [Ret (ex_call ''ABCDEFGHIJKL'', GotCreate (Inr r1)), Ret (ex_call ''abcdefghijkl'', GotCreate (Inr r2))])"
    using ex_run_again by blast
  note t = pool_run_trans [OF run(2,1)]
  from same_key_same_payment [OF _ t, of "ex_env ''ABCDEFGHIJKL''" ex_input r1 "ex_env ''abcdefghijkl''" ex_input r2] t
  show ?thesis by auto
qed

text \<open>C19. Repeating a Create that has been answered: after any further requests, a Create with its key
  that runs alone returns the same payment as a replay when it is the same request, and
  ErrIdempotencyConflict when the fingerprint differs; either way the store stays as it is.\<close>

theorem answered_create_replays:
  assumes "demo_inv (svc_store s)" and "pool_run (normal_call memory_ops u) (s, []) (t, ps)"
    and "Ret (CallCreate e1 i1, GotCreate (Inr r1)) \<in> set ps"
    and "valid_input (NormalizeCreateInput u i2)" and "TrimSpace (ci_key i2) = TrimSpace (ci_key i1)"
    and "lk_keys (svc_locks t) (TrimSpace (ci_key i2)) = None"
  shows "\<exists>v r. exec (svc_Create memory_ops u e2 i2) t = Some (v, r) \<and> svc_store v = svc_store t \<and>
    (if Fingerprint (NormalizeCreateInput u i2) = Fingerprint (NormalizeCreateInput u i1)
     then \<exists>q. r = Inr \<lparr>cre_payment = q, cre_replay = True\<rparr> \<and> pay_id q = pay_id (cre_payment r1) \<and>
       payment_grows (cre_payment r1) q
     else r = Inl ErrIdempotencyConflict)"
proof -
  let ?j = "NormalizeCreateInput u i2" and ?fp = "Fingerprint (NormalizeCreateInput u i1)"
  have inv: "demo_inv (svc_store t)" using memory.pool_normal(1) [OF assms(2,1)] .
  obtain q where q: "payments (svc_store t) (pay_id (cre_payment r1)) = Some q" "payment_grows (cre_payment r1) q"
    and key: "memory_key (svc_store t) (ci_key ?j) = Some (pay_id (cre_payment r1), ?fp)"
    using memory.pool_normal(3) [OF assms(2,1,3)] assms(5)
    by (auto simp: create_answer_def answered_def found_memory split: option.splits)
  have id: "pay_id q = pay_id (cre_payment r1)" using memory_found_id [OF inv q(1)] .
  have "lk_keys (svc_locks t) (ci_key ?j) = None" using assms(6) by simp
  from replay_of_create [OF inv refl assms(4) key q(1) this, of e2]
  obtain v where v: "exec (svc_Create memory_ops u e2 i2) t = Some (v, if Fingerprint ?j = ?fp
      then Inr \<lparr>cre_payment = q, cre_replay = True\<rparr> else Inl ErrIdempotencyConflict)"
    "svc_store v = svc_store t" by blast
  then show ?thesis using q(2) id by (intro exI [of _ v] exI conjI) auto
qed

theorem answered_create_replays_witness:
  "\<exists>t v q. exec (svc_Create memory_ops ex_tables (ex_env ''abcdefghijkl'') ex_input) t =
      Some (v, Inr \<lparr>cre_payment = q, cre_replay = True\<rparr>) \<and> pay_id q = ex_pid"
proof -
  obtain t res where t: "pool_run (normal_call memory_ops ex_tables) (fresh_service 0 0, [])
      (t, [Ret (ex_call ''ABCDEFGHIJKL'', GotCreate (Inr res))])" "pay_id (cre_payment res) = ex_pid"
    "lk_keys (svc_locks t) = Map.empty"
    using ex_run by blast
  with answered_create_replays [OF _ t(1), of "ex_env ''ABCDEFGHIJKL''" ex_input res ex_input "ex_env ''abcdefghijkl''"]
  show ?thesis by (force simp: ex_normal ex_valid)
qed

subsection \<open>Other requests\<close>

text \<open>C40. The requests treat white space around a payment id differently: Callback and Details trim it
  and act on the payment, Close only checks that something is left and then looks for the
  untrimmed id, so it answers that the payment does not exist.\<close>

theorem close_keeps_white_space:
  assumes "TrimSpace q = pid" and "q \<noteq> pid" and "pid \<noteq> ''''" and "payments (svc_store s) q = None"
    and "payments (svc_store s) pid = Some p"
  shows "exec (svc_Close memory_ops e q reason) s = Some (s, Inl ErrNotFound) \<and>
    svc_Callback memory_ops u c q i = svc_Callback memory_ops u c pid i \<and>
    svc_Details memory_ops q = svc_Details memory_ops pid"
  using assms TrimSpace_idem [of q]
  by (simp add: svc_Close_def mem_ClosePayment_def svc_Callback_def svc_Details_def)

text \<open>The service while one payment is in progress.\<close>

definition ex_service :: "mem_store service" where
  "ex_service = (fresh_service 0 0)\<lparr>svc_store := fst (mem_CreatePayment (\<lambda>_. 0)
     (zero_payment\<lparr>pay_id := ''p1'', pay_account := ''demo-user'', pay_amount := 1, pay_status := StatusInit\<rparr>)
     ''k1'' ''f1'' (svc_store (fresh_service 0 0)))\<rparr>"

theorem close_keeps_white_space_witness:
  "exec (svc_Close memory_ops (ex_env ''ABCDEFGHIJKL'') '' p1'' '''') ex_service = Some (ex_service, Inl ErrNotFound)"
proof -
  have trim: "TrimSpace '' p1'' = ''p1''" by code_simp
  have "idempotency (svc_store (fresh_service 0 0)) = Map.empty"
    by (simp add: fresh_service_def NewPaymentService_def NewMemoryStore_def resetLocked_def)
  then have "payments (svc_store ex_service) = [''p1'' \<mapsto>
      zero_payment\<lparr>pay_id := ''p1'', pay_account := ''demo-user'', pay_amount := 1, pay_status := StatusInit\<rparr>]"
    by (simp add: ex_service_def mem_CreatePayment_def)
  with close_keeps_white_space [OF trim, of ex_service] show ?thesis by simp
qed

text \<open>Reset, alone, makes the service a new one: the store is that of a start at the time of the
  reset, all counters are zero and the uptime starts again; the key locks in use stay.\<close>

theorem reset_is_restart:
  "\<exists>t. exec (svc_Reset memory_ops e) s = Some (t, Inr ()) \<and>
    svc_store t = NewMemoryStore (env_clock e 0 0) \<and> svc_metrics t = zero_counters \<and>
    svc_started t = unix_seconds (env_now e) \<and> svc_locks t = svc_locks s"
  by (simp add: svc_Reset_def mem_Reset_def NewMemoryStore_def zero_counters_def)

end
