(* ===== verification/Http_Properties.thy ===== *)
theory Http_Properties
  imports Http_Safety Service_Properties
begin

section \<open>Properties of the HTTP API in memory mode\<close>

text \<open>
  The responses of the API, whatever requests are in flight, and what reaches the backend.
\<close>

subsection \<open>Requests as witnesses\<close>

text \<open>A site whose decoder finds the same create request in every body.\<close>

definition ex_site :: site where
  "ex_site =
     \<lparr>site_create = (\<lambda>_. (Inr \<lparr>crq_order = ''o1'', crq_account = ''demo-user'', crq_amount = 2500,
        crq_currency = ''CNY'', crq_key = '''', crq_auto = True, crq_fault = ''''\<rparr>, True)),
      site_callback = (\<lambda>_. (Inl EOF, True)), site_close = (\<lambda>_. (Inl (SyntaxError 1), True)),
      site_page = Some ''page''\<rparr>"

definition ex_request :: "string \<Rightarrow> string \<Rightarrow> string list \<Rightarrow> call_env http_request" where
  "ex_request r m path =
     \<lparr>rq_method = m, rq_path = path, rq_key = ''k1'', rq_body = ''{}'', rq_env = ex_env r, rq_now = 0\<rparr>"

abbreviation ex_post :: "string \<Rightarrow> call_env http_request" where
  "ex_post r \<equiv> ex_request r ''POST'' [''api'', ''v1'', ''payments'']"

lemma ex_post_route [simp]: "route_of (rq_method (ex_post r)) (rq_path (ex_post r)) = CreatePayment"
  by (simp add: ex_request_def route_of_def post_route_def)

lemma ex_site_decodes:
  "decodeJSON zero_create_request (site_create ex_site) body False =
     Inr \<lparr>crq_order = ''o1'', crq_account = ''demo-user'', crq_amount = 2500, crq_currency = ''CNY'',
       crq_key = '''', crq_auto = True, crq_fault = ''''\<rparr>"
  by (simp add: decodeJSON_def ex_site_def)

lemma ex_posted [simp]: "posted_create ex_site (ex_post r) = Some ex_input"
proof -
  have "TrimSpace ''k1'' = ''k1''" by code_simp
  then show ?thesis
    by (simp add: posted_create_def ex_site_decodes create_input_of_def ex_input_def)
      (simp add: ex_request_def)
qed

lemma exec_http_create:
  assumes "route_of (rq_method rq) (rq_path rq) = CreatePayment" and "posted_create site rq = Some i"
    and "exec (svc_Create st u (rq_env rq) i) s = Some (t, r)"
  shows "exec (http_serve st u site rq) s = Some (t, rq, case r of
      Inl err \<Rightarrow> writeServiceError err | Inr res \<Rightarrow> writeData (created_status res) (DataCreate res))"
proof -
  obtain request where d: "decodeJSON zero_create_request (site_create site) (rq_body rq) False = Inr request"
    and i: "i = create_input_of (rq_key rq) request"
    using assms(1,2) by (auto simp: posted_create_def split: sum.splits)
  show ?thesis
    using assms(1,3)
    by (simp add: http_serve_def handle_def h_createPayment_def d i memory_backend_def exec_bind reply_def)
qed

lemma arrive_http_create:
  assumes "route_of (rq_method rq) (rq_path rq) = CreatePayment" and "posted_create site rq = Some i"
    and "exec (svc_Create st u (rq_env rq) i) s = Some (t, Inr res)"
  shows "pool_run (http_normal st u site) (s, ps)
    (t, ps @ [Ret (rq, writeData (created_status res) (DataCreate res))])"
  using exec_http_create [OF assms] assms(1)
  by (intro exec_arrive [of _ "http_serve st u site rq"]) (auto simp: http_normal_def)

lemma ex_http_runs:
  "\<exists>t v r1 r2. pool_run (http_normal memory_ops ex_tables ex_site) (fresh_service 0 0, [])
      (v, [Ret (ex_post ''ABCDEFGHIJKL'', writeData 201 (DataCreate r1)),
           Ret (ex_post ''abcdefghijkl'', writeData 200 (DataCreate r2))]) \<and>
    pool_run (http_normal memory_ops ex_tables ex_site) (fresh_service 0 0, [])
      (t, [Ret (ex_post ''ABCDEFGHIJKL'', writeData 201 (DataCreate r1))]) \<and>
    payments (svc_store t) ex_pid = Some (cre_payment r1) \<and> pay_id (cre_payment r1) = ex_pid"
proof -
  let ?s = "fresh_service 0 0"
  obtain t r1 where t: "exec (svc_Create memory_ops ex_tables (ex_env ''ABCDEFGHIJKL'') ex_input) ?s = Some (t, Inr r1)"
    "\<not> cre_replay r1" "payments (svc_store t) ex_pid = Some (cre_payment r1)" "pay_id (cre_payment r1) = ex_pid"
    "lk_keys (svc_locks t) = Map.empty"
    using ex_exec by blast
  have run: "pool_run (http_normal memory_ops ex_tables ex_site) (?s, [])
      (t, [Ret (ex_post ''ABCDEFGHIJKL'', writeData 201 (DataCreate r1))])"
    using arrive_http_create [OF ex_post_route ex_posted, of memory_ops ex_tables "''ABCDEFGHIJKL''" ?s t r1 "[]"] t(1,2)
    by (simp add: ex_request_def created_status_def)
  have page: "site_page ex_site \<noteq> None" by (simp add: ex_site_def)
  have inv: "demo_inv (svc_store t)" using memory_quiet.pool_http(1) [OF run _ page] by simp
  have "http_ok memory_ops ex_tables ex_site memory_key t
      (ex_post ''ABCDEFGHIJKL'', writeData 201 (DataCreate r1))"
    using memory_quiet.pool_http(2) [OF run _ page] by simp
  then have key: "memory_key (svc_store t) (ci_key ex_input) = Some (ex_pid, Fingerprint ex_input)"
    using t(4) by (simp add: http_ok_def created_ok_def create_answer_def ex_normal)
  obtain v r2 where v: "exec (svc_Create memory_ops ex_tables (ex_env ''abcdefghijkl'') ex_input) t = Some (v, Inr r2)"
    "cre_replay r2"
    using replay_of_create [OF inv _ ex_valid key t(3), of ex_tables ex_input "ex_env ''abcdefghijkl''"]
    by (auto simp: ex_normal t(5))
  have "pool_run (http_normal memory_ops ex_tables ex_site) (t, [Ret (ex_post ''ABCDEFGHIJKL'', writeData 201 (DataCreate r1))])
      (v, [Ret (ex_post ''ABCDEFGHIJKL'', writeData 201 (DataCreate r1)),
           Ret (ex_post ''abcdefghijkl'', writeData 200 (DataCreate r2))])"
    using arrive_http_create [OF ex_post_route ex_posted, of memory_ops ex_tables "''abcdefghijkl''" t v r2
        "[Ret (ex_post ''ABCDEFGHIJKL'', writeData 201 (DataCreate r1))]"] v
    by (simp add: ex_request_def created_status_def)
  from pool_run_trans [OF this run] run t(3,4) show ?thesis by blast
qed

subsection \<open>Create over HTTP\<close>

text \<open>C8. Over HTTP an idempotency key creates one payment, until a reset: in any run without the route
  that resets the demo, whatever other requests are interleaved, all POSTs of payments with one key
  that get a payment get the same one, and their requests have the same fingerprint; of two that drew
  different random ids at most one is answered 201. The header's key counts before the one in the
  body, and the payment answered is in the store, there or further on. (With a reset between them two
  POSTs with one key create two payments.)\<close>

theorem http_one_created:
  assumes "demo_inv (svc_store s)" and "site_page site \<noteq> None"
    and "pool_run (http_normal memory_ops u site) (s, []) (t, ps)"
    and "Ret (rq1, resp1) \<in> set ps" and "Ret (rq2, resp2) \<in> set ps"
    and "posted_create site rq1 = Some i1" and "posted_create site rq2 = Some i2"
    and "answer_data resp1 = Some (DataCreate r1)" and "answer_data resp2 = Some (DataCreate r2)"
    and "TrimSpace (ci_key i1) = TrimSpace (ci_key i2)"
  shows "pay_id (cre_payment r1) = pay_id (cre_payment r2) \<and>
    Fingerprint (NormalizeCreateInput u i1) = Fingerprint (NormalizeCreateInput u i2) \<and>
    \<not> (new_id_of rq1 \<noteq> new_id_of rq2 \<and> rs_status resp1 = 201 \<and> rs_status resp2 = 201) \<and>
    (\<exists>q. payments (svc_store t) (pay_id (cre_payment r1)) = Some q \<and> payment_grows (cre_payment r1) q)"
proof -
  have ok: "created_ok memory_ops u site memory_key (svc_store t) rq1 resp1"
    "created_ok memory_ops u site memory_key (svc_store t) rq2 resp2"
    using memory_quiet.pool_http(2) [OF assms(3,1,2)] assms(4,5) by (force simp: http_ok_def)+
  then show ?thesis
    using assms(6-10)
    by (auto simp: created_ok_def create_answer_def created_status_def answered_def found_memory
        split: if_splits option.splits)
qed

theorem http_one_created_witness:
  "\<exists>v r1 r2. pool_run (http_normal memory_ops ex_tables ex_site) (fresh_service 0 0, [])
      (v, [Ret (ex_post ''ABCDEFGHIJKL'', writeData 201 (DataCreate r1)),
           Ret (ex_post ''abcdefghijkl'', writeData 200 (DataCreate r2))]) \<and>
    pay_id (cre_payment r1) = pay_id (cre_payment r2) \<and>
    new_id_of (ex_post ''ABCDEFGHIJKL'') \<noteq> new_id_of (ex_post ''abcdefghijkl'')"
proof -
  obtain v r1 r2 where v: "pool_run (http_normal memory_ops ex_tables ex_site) (fresh_service 0 0, [])
      (v, [Ret (ex_post ''ABCDEFGHIJKL'', writeData 201 (DataCreate r1)),
           Ret (ex_post ''abcdefghijkl'', writeData 200 (DataCreate r2))])"
    using ex_http_runs by blast
  have new: "new_id_of (ex_post ''ABCDEFGHIJKL'') \<noteq> new_id_of (ex_post ''abcdefghijkl'')"
    by (simp add: new_id_of_def ex_request_def ex_env_def NewID_def) code_simp
  have page: "site_page ex_site \<noteq> None" by (simp add: ex_site_def)
  have "pay_id (cre_payment r1) = pay_id (cre_payment r2)"
    using http_one_created [OF _ page v _ _ ex_posted [of "''ABCDEFGHIJKL''"]
          ex_posted [of "''abcdefghijkl''"] _ _ refl,
        of "writeData 201 (DataCreate r1)" "writeData 200 (DataCreate r2)" r1 r2] by simp
  with v new show ?thesis by blast
qed

text \<open>C28. No request to the service in memory mode is answered with status 500, in any interleaving
  without a reset, but a Create whose random id was that of a payment created under another key: every
  error that the store or the service returns has a response of its own. (The demo page is embedded in
  the binary.)\<close>

theorem http_no_internal_error:
  assumes "demo_inv (svc_store s)" and "site_page site \<noteq> None"
    and "pool_run (http_normal memory_ops u site) (s, []) (t, ps)" and "Ret (rq, resp) \<in> set ps"
    and "rs_status resp = 500"
  shows "\<exists>i k fp. posted_create site rq = Some i \<and> k \<noteq> TrimSpace (ci_key i) \<and>
    memory_key (svc_store t) k = Some (new_id_of rq, fp) \<and> payments (svc_store t) (new_id_of rq) \<noteq> None"
proof -
  obtain i k fp where k: "posted_create site rq = Some i" "k \<noteq> TrimSpace (ci_key i)"
      "memory_key (svc_store t) k = Some (new_id_of rq, fp)"
    using memory_quiet.pool_http(2) [OF assms(3,1,2,4)] assms(5)
    by (auto simp: http_ok_def no_surprise_def taken_elsewhere_def)
  moreover have "payments (svc_store t) (new_id_of rq) \<noteq> None"
    using memory.key_found [OF memory_quiet.pool_http(1) [OF assms(3,1,2)] k(3)] by (auto simp: found_memory)
  ultimately show ?thesis by blast
qed

text \<open>A Create whose random bytes repeat those of a payment under another key.\<close>

definition ex_taken :: "mem_store service" where
  "ex_taken = (fresh_service 0 0)\<lparr>svc_store := fst (mem_CreatePayment (\<lambda>_. 0)
     (initial_payment (ex_env ''ABCDEFGHIJKL'') ex_input) ''k2'' ''f'' (svc_store (fresh_service 0 0)))\<rparr>"

lemma ex_taken_store:
  "demo_inv (svc_store ex_taken)" "payments (svc_store ex_taken) ex_pid \<noteq> None"
  "idempotency (svc_store ex_taken) ''k1'' = None" "lk_keys (svc_locks ex_taken) = Map.empty"
proof -
  have "new_payment (initial_payment (ex_env ''ABCDEFGHIJKL'') ex_input)"
    using memory.new_initial_payment [OF ex_valid] .
  then show "demo_inv (svc_store ex_taken)"
    using memory.create_law [of "svc_store (fresh_service 0 0)"] by (simp add: ex_taken_def)
  have "idempotency (svc_store (fresh_service 0 0)) = Map.empty"
    by (simp add: fresh_service_def NewPaymentService_def NewMemoryStore_def resetLocked_def)
  then show "payments (svc_store ex_taken) ex_pid \<noteq> None" "idempotency (svc_store ex_taken) ''k1'' = None"
    by (simp_all add: ex_taken_def mem_CreatePayment_def initial_payment_def ex_env_def)
qed (simp add: ex_taken_def)

theorem http_no_internal_error_witness:
  "\<exists>t resp. pool_run (http_normal memory_ops ex_tables ex_site) (ex_taken, [])
      (t, [Ret (ex_post ''ABCDEFGHIJKL'', resp)]) \<and>
    rs_status resp = 500 \<and> (\<exists>k fp. k \<noteq> ''k1'' \<and> memory_key (svc_store t) k = Some (ex_pid, fp))"
proof -
  let ?e = "ex_env ''ABCDEFGHIJKL''" and ?rq = "ex_post ''ABCDEFGHIJKL''"
  have key: "ci_key ex_input = ''k1''" by (simp add: ex_input_def)
  have env: "rq_env ?rq = ?e" "new_id_of ?rq = ex_pid"
    by (simp_all add: ex_request_def new_id_of_def ex_env_def)
  have "pay_id (initial_payment ?e ex_input) = ex_pid" by (simp add: initial_payment_def ex_env_def)
  then have "exec (create_locked memory_ops ex_tables ?e ex_input) (holding ''k1'' ex_taken) =
      Some (holding ''k1'' ex_taken, Inl (OtherError (''payment id collision: '' @ ex_pid)))"
    using ex_taken_store(2,3)
    by (simp add: create_locked_def mem_CreatePayment_def key)
  then obtain t where t: "exec (svc_Create memory_ops ex_tables ?e ex_input) ex_taken =
      Some (t, Inl (OtherError (''payment id collision: '' @ ex_pid)))"
    using exec_Create [of ex_tables ex_input ex_taken memory_ops ?e] ex_taken_store(4)
    by (auto simp: ex_normal ex_valid key)
  have "exec (http_serve memory_ops ex_tables ex_site ?rq) ex_taken =
      Some (t, ?rq, writeServiceError (OtherError (''payment id collision: '' @ ex_pid)))"
    using exec_http_create [OF ex_post_route ex_posted, of memory_ops ex_tables "''ABCDEFGHIJKL''"] t env(1) by simp
  moreover have "http_normal memory_ops ex_tables ex_site (http_serve memory_ops ex_tables ex_site ?rq)"
    unfolding http_normal_def by (intro exI [of _ ?rq]) simp
  ultimately have run: "pool_run (http_normal memory_ops ex_tables ex_site) (ex_taken, [])
      (t, [Ret (?rq, writeServiceError (OtherError (''payment id collision: '' @ ex_pid)))])"
    using exec_arrive [of "http_normal memory_ops ex_tables ex_site" _ ex_taken t _ "[]"] by simp
  have page: "site_page ex_site \<noteq> None" by (simp add: ex_site_def)
  have "TrimSpace ''k1'' = ''k1''" by code_simp
  moreover obtain k fp where "k \<noteq> TrimSpace (ci_key ex_input)" "memory_key (svc_store t) k = Some (ex_pid, fp)"
    using http_no_internal_error [OF ex_taken_store(1) page run] by (auto simp: env(2))
  ultimately have "rs_status (writeServiceError (OtherError (''payment id collision: '' @ ex_pid))) = 500 \<and>
      (\<exists>k fp. k \<noteq> ''k1'' \<and> memory_key (svc_store t) k = Some (ex_pid, fp))"
    unfolding key by auto
  with run show ?thesis by blast
qed

subsection \<open>What reaches the backend\<close>

lemma decode_refuses:
  assumes "\<forall>v. dec body \<noteq> (Inr v, True)" and "\<not> allowEmpty \<or> fst (dec body) \<noteq> Inl EOF"
  shows "\<exists>m. decodeJSON zero dec body allowEmpty = Inl m"
proof (cases "dec body")
  case (Pair r e)
  with assms show ?thesis by (cases r) (auto simp: decodeJSON_def)
qed

text \<open>C29. A POST whose body is not exactly one JSON value of the expected form is answered 400, with the
  code \<open>invalid_json\<close>, before the backend is called, whatever the backend, and so is a distributed
  Create in the distributed mode; only Close also takes an empty body. Both routes of the distributed
  mode are refused with 409 by a backend without it: the Create when the mode is not distributed,
  whatever its body, the query for a transaction when the backend has no transactions.\<close>

theorem http_refuses_before_backend:
  "(route_of (rq_method rq) (rq_path rq) = CreatePayment \<and>
      (\<forall>v. site_create site (rq_body rq) \<noteq> (Inr v, True)) \<longrightarrow>
      (\<exists>m. handle bk site rq = Ret (writeError 400 ''invalid_json'' m))) \<and>
    (route_of (rq_method rq) (rq_path rq) = PostCallback pid \<and>
      (\<forall>v. site_callback site (rq_body rq) \<noteq> (Inr v, True)) \<longrightarrow>
      (\<exists>m. handle bk site rq = Ret (writeError 400 ''invalid_json'' m))) \<and>
    (route_of (rq_method rq) (rq_path rq) = ClosePayment pid \<and>
      (\<forall>v. site_close site (rq_body rq) \<noteq> (Inr v, True)) \<and> fst (site_close site (rq_body rq)) \<noteq> Inl EOF \<longrightarrow>
      (\<exists>m. handle bk site rq = Ret (writeError 400 ''invalid_json'' m))) \<and>
    (route_of (rq_method rq) (rq_path rq) = CreateDistributedPayment \<and> bk_Mode bk = Some ''distributed'' \<and>
      (\<forall>v. site_create site (rq_body rq) \<noteq> (Inr v, True)) \<longrightarrow>
      (\<exists>m. handle bk site rq = Ret (writeError 400 ''invalid_json'' m))) \<and>
    (route_of (rq_method rq) (rq_path rq) = CreateDistributedPayment \<and> bk_Mode bk \<noteq> Some ''distributed'' \<longrightarrow>
      (\<exists>m. handle bk site rq = Ret (writeError 409 ''distributed_mode_required'' m))) \<and>
    (route_of (rq_method rq) (rq_path rq) = GetDistributedTransaction gid \<and> bk_Transaction bk = None \<longrightarrow>
      (\<exists>m. handle bk site rq = Ret (writeError 409 ''distributed_mode_required'' m)))"
proof (intro conjI impI)
  assume "route_of (rq_method rq) (rq_path rq) = CreatePayment \<and>
    (\<forall>v. site_create site (rq_body rq) \<noteq> (Inr v, True))"
  with decode_refuses [of "site_create site" "rq_body rq" False zero_create_request]
  show "\<exists>m. handle bk site rq = Ret (writeError 400 ''invalid_json'' m)"
    by (auto simp: handle_def h_createPayment_def)
next
  assume "route_of (rq_method rq) (rq_path rq) = PostCallback pid \<and>
    (\<forall>v. site_callback site (rq_body rq) \<noteq> (Inr v, True))"
  with decode_refuses [of "site_callback site" "rq_body rq" False "\<lparr>cbq_event_id = '''', cbq_sequence = 0,
      cbq_outcome = '''', cbq_reason = '''', cbq_fault = ''''\<rparr>"]
  show "\<exists>m. handle bk site rq = Ret (writeError 400 ''invalid_json'' m)"
    by (auto simp: handle_def h_callback_def)
next
  assume "route_of (rq_method rq) (rq_path rq) = ClosePayment pid \<and>
    (\<forall>v. site_close site (rq_body rq) \<noteq> (Inr v, True)) \<and> fst (site_close site (rq_body rq)) \<noteq> Inl EOF"
  with decode_refuses [of "site_close site" "rq_body rq" True "\<lparr>clq_reason = ''''\<rparr>"]
  show "\<exists>m. handle bk site rq = Ret (writeError 400 ''invalid_json'' m)"
    by (auto simp: handle_def h_closePayment_def)
next
  assume "route_of (rq_method rq) (rq_path rq) = CreateDistributedPayment \<and> bk_Mode bk = Some ''distributed'' \<and>
    (\<forall>v. site_create site (rq_body rq) \<noteq> (Inr v, True))"
  with decode_refuses [of "site_create site" "rq_body rq" False zero_create_request]
  show "\<exists>m. handle bk site rq = Ret (writeError 400 ''invalid_json'' m)"
    by (auto simp: handle_def h_createDistributedPayment_def h_createPayment_def)
qed (auto simp: handle_def h_createDistributedPayment_def h_getDistributedTransaction_def)

theorem http_refuses_before_backend_witness:
  "(\<exists>m. handle (memory_backend memory_ops ex_tables) ex_site
      (ex_request ''ABCDEFGHIJKL'' ''POST'' [''api'', ''v1'', ''payments'', ''p1'', ''close'']) =
      Ret (writeError 400 ''invalid_json'' m)) \<and>
    (\<exists>m. handle (memory_backend memory_ops ex_tables) ex_site
      (ex_request ''ABCDEFGHIJKL'' ''GET'' [''api'', ''v1'', ''distributed'', ''transactions'', ''g1'']) =
      Ret (writeError 409 ''distributed_mode_required'' m))"
  using http_refuses_before_backend [of
      "ex_request ''ABCDEFGHIJKL'' ''POST'' [''api'', ''v1'', ''payments'', ''p1'', ''close'']"
      ex_site "memory_backend memory_ops ex_tables" "''p1''"]
    http_refuses_before_backend [of
      "ex_request ''ABCDEFGHIJKL'' ''GET'' [''api'', ''v1'', ''distributed'', ''transactions'', ''g1'']"
      ex_site "memory_backend memory_ops ex_tables" _ "''g1''"]
  by (simp add: ex_request_def route_of_def post_route_def get_route_def ex_site_def memory_backend_def)

end
