(* ===== verification/Database.thy ===== *)
theory Database
  imports Transaction_Views Memory_Store
begin

section \<open>The MySQL database\<close>

text \<open>
  The tables of \<open>infra/mysql/002-payflow.sql\<close>, with the two tables of DTM and the barrier table of
  \<open>003-dtm.sql\<close> that the Go code reads, and the SQL statements of \<open>internal/participant\<close> and
  \<open>internal/distributed\<close> as functions on lists of rows. A statement fails as the schema says (a
  duplicate key, a missing foreign key, a CHECK constraint, a BIGINT out of range) or, at any time,
  for a reason of the driver that the environment chooses (\<open>sq_fault\<close>). Text columns are compared
  by the collation key \<open>ck\<close>: the tables are \<open>utf8mb4_0900_ai_ci\<close>, so neither case nor accents count.
\<close>

subsection \<open>Rows\<close>

datatype ledger_state = PREPARED | POSTED | VOIDED

record reservation_row =
  rr_gid :: string
  rr_payment :: string
  rr_account :: string
  rr_amount :: int64
  rr_status :: reservation_state
  rr_created :: time
  rr_updated :: time

record ledger_row =
  lr_id :: int
  lr_gid :: string
  lr_payment :: string
  lr_account :: string
  lr_amount :: int64
  lr_direction :: string
  lr_status :: ledger_state
  lr_created :: time
  lr_updated :: time

text \<open>\<open>pr_gid\<close> is NULL, that is \<open>None\<close>, until the global transaction begins.\<close>

record payment_row =
  pr_id :: string
  pr_gid :: "string option"
  pr_mode :: string
  pr_order :: string
  pr_account :: string
  pr_amount :: int64
  pr_currency :: string
  pr_status :: payment_status
  pr_failure :: string
  pr_callback_seq :: int64
  pr_key :: string
  pr_fingerprint :: string
  pr_created :: time
  pr_updated :: time

text \<open>The JSON column \<open>metadata\<close> holds the map itself.\<close>

record event_row =
  er_payment :: string
  er_event :: payment_event

record trans_row =
  tg_gid :: string
  tg_status :: string
  tg_rollback_reason :: string

record barrier_row =
  br_gid :: string
  br_branch :: string
  br_op :: string
  br_barrier_id :: string
  br_reason :: string
  br_created :: time

record db =
  db_accounts :: "account list"
  db_reservations :: "reservation_row list"
  db_ledger :: "ledger_row list"
  db_payments :: "payment_row list"
  db_events :: "event_row list"
  db_trans :: "trans_row list"
  db_branch_ops :: "string list"
  db_barriers :: "barrier_row list"

subsection \<open>Statements\<close>

datatype sql_error = NoRows | Duplicate | SqlError string

type_synonym collation = "string \<Rightarrow> string"

text \<open>
  What one method finds in its environment: the k-th statement of its text fails with the text
  \<open>sq_fault k\<close>, its \<open>UTC_TIMESTAMP(6)\<close> is \<open>sq_now k\<close>, its AUTO_INCREMENT is \<open>sq_auto k\<close>. A time given to
  a statement is stored as \<open>sq_store\<close> rounds it to the precision of a DATETIME(6) column. A commit whose
  answer is lost may have been carried out all the same: \<open>sq_lost\<close>.
\<close>

record sql_env =
  sq_fault :: "nat \<Rightarrow> string option"
  sq_now :: "nat \<Rightarrow> time"
  sq_store :: "time \<Rightarrow> time"
  sq_auto :: "nat \<Rightarrow> int"
  sq_lost :: bool

definition stmt :: "string option \<Rightarrow> sql_error + 'a \<Rightarrow> sql_error + 'a" where
  "stmt fault r = (case fault of Some m \<Rightarrow> Inl (SqlError m) | None \<Rightarrow> r)"

text \<open>\<open>QueryRow(...).Scan\<close>: the first row, or \<open>sql.ErrNoRows\<close>.\<close>

definition query_row :: "string option \<Rightarrow> ('r \<Rightarrow> bool) \<Rightarrow> 'r list \<Rightarrow> sql_error + 'r" where
  "query_row fault P rows =
     stmt fault (case filter P rows of [] \<Rightarrow> Inl NoRows | r # _ \<Rightarrow> Inr r)"

text \<open>
  \<open>UPDATE\<close>: \<open>f r\<close> is the new row, or \<open>None\<close> where it breaks a CHECK constraint or a column's range;
  then the whole statement fails. The second result is the number of rows affected.
\<close>

definition sql_update ::
  "('r \<Rightarrow> bool) \<Rightarrow> ('r \<Rightarrow> 'r option) \<Rightarrow> 'r list \<Rightarrow> sql_error + 'r list \<times> nat" where
  "sql_update P f rows =
     (if list_ex (\<lambda>r. P r \<and> f r = None) rows then Inl (SqlError ''constraint violated'')
      else Inr (map (\<lambda>r. if P r then the (f r) else r) rows, length (filter P rows)))"

text \<open>The columns \<open>available_cents\<close> and \<open>frozen_cents\<close>: BIGINT, and not negative.\<close>

definition cents_ok :: "int \<Rightarrow> bool" where
  "cents_ok i \<longleftrightarrow> 0 \<le> i \<and> i < 2 ^ 63"

definition set_cents :: "int \<Rightarrow> int \<Rightarrow> time \<Rightarrow> account \<Rightarrow> account option" where
  "set_cents available frozen now a =
     (if cents_ok available \<and> cents_ok frozen
      then Some (a\<lparr>acc_available := word_of_int available, acc_frozen := word_of_int frozen,
                   acc_updated := now\<rparr>)
      else None)"

text \<open>\<open>INSERT\<close>, with the unique keys, foreign keys and CHECK constraints of the table.\<close>

definition insert_reservation :: "collation \<Rightarrow> reservation_row \<Rightarrow> db \<Rightarrow> sql_error + db" where
  "insert_reservation ck r d =
     (if list_ex (\<lambda>x. ck (rr_gid x) = ck (rr_gid r) \<or> ck (rr_payment x) = ck (rr_payment r)) (db_reservations d)
      then Inl Duplicate
      else if \<not> list_ex (\<lambda>p. ck (pr_id p) = ck (rr_payment r)) (db_payments d) \<or>
        \<not> list_ex (\<lambda>a. ck (acc_id a) = ck (rr_account r)) (db_accounts d)
      then Inl (SqlError ''foreign key'')
      else Inr (d\<lparr>db_reservations := db_reservations d @ [r]\<rparr>))"

definition insert_ledger :: "collation \<Rightarrow> ledger_row \<Rightarrow> db \<Rightarrow> sql_error + db" where
  "insert_ledger ck r d =
     (if list_ex (\<lambda>x. lr_id x = lr_id r \<or> ck (lr_gid x) = ck (lr_gid r) \<or>
          (ck (lr_payment x) = ck (lr_payment r) \<and> ck (lr_direction x) = ck (lr_direction r))) (db_ledger d)
      then Inl Duplicate
      else if \<not> list_ex (\<lambda>p. ck (pr_id p) = ck (lr_payment r)) (db_payments d)
      then Inl (SqlError ''foreign key'')
      else Inr (d\<lparr>db_ledger := db_ledger d @ [r]\<rparr>))"

definition insert_payment :: "collation \<Rightarrow> payment_row \<Rightarrow> db \<Rightarrow> sql_error + db" where
  "insert_payment ck r d =
     (if list_ex (\<lambda>x. ck (pr_id x) = ck (pr_id r) \<or> ck (pr_key x) = ck (pr_key r) \<or>
          (pr_gid x \<noteq> None \<and> map_option ck (pr_gid x) = map_option ck (pr_gid r))) (db_payments d)
      then Inl Duplicate
      else if pr_amount r <=s 0 then Inl (SqlError ''amount'')
      else Inr (d\<lparr>db_payments := db_payments d @ [r]\<rparr>))"

definition insert_event :: "collation \<Rightarrow> event_row \<Rightarrow> db \<Rightarrow> sql_error + db" where
  "insert_event ck r d =
     (if list_ex (\<lambda>x. ck (er_payment x) = ck (er_payment r) \<and> ev_seq (er_event x) = ev_seq (er_event r)) (db_events d)
      then Inl Duplicate
      else if \<not> list_ex (\<lambda>p. ck (pr_id p) = ck (er_payment r)) (db_payments d)
      then Inl (SqlError ''foreign key'')
      else Inr (d\<lparr>db_events := db_events d @ [r]\<rparr>))"

subsection \<open>What a statement tells\<close>

lemma stmt_simps [simp]:
  "stmt fault r = Inr a \<longleftrightarrow> fault = None \<and> r = Inr a"
  "stmt None r = r"
  by (auto simp: stmt_def split: option.split)

lemma query_row_Inr:
  "query_row fault P rows = Inr r \<Longrightarrow> r \<in> set rows \<and> P r"
  by (auto simp: query_row_def dest: filter_eq_ConsD split: list.splits)

lemma query_row_NoRows:
  "query_row fault P rows = Inl NoRows \<Longrightarrow> r \<in> set rows \<Longrightarrow> \<not> P r"
  by (auto simp: query_row_def stmt_def filter_empty_conv split: list.splits option.splits)

lemma sql_update_Inr:
  "sql_update P f rows = Inr (rows', n) \<longleftrightarrow>
     (\<forall>r\<in>set rows. P r \<longrightarrow> f r \<noteq> None) \<and> rows' = map (\<lambda>r. if P r then the (f r) else r) rows \<and>
     n = length (filter P rows)"
  by (auto simp: sql_update_def list_ex_iff)

text \<open>An update that hits nothing changes nothing.\<close>

lemma sql_update_none:
  "\<forall>r\<in>set rows. \<not> P r \<Longrightarrow> map (\<lambda>r. if P r then g r else r) rows = rows"
  by (simp add: map_idI)

end
