(* ===== verification/Repository.thy ===== *)
theory Repository
  imports Database Payment_Service
begin

section \<open>The MySQL repository of the distributed mode\<close>

text \<open>
  \<open>internal/distributed/repository.go\<close> and the queries of \<open>diagnostics.go\<close>. A transaction is one
  atomic step: it locks the rows it works on (\<open>FOR UPDATE\<close>, unique keys), and what it wrote is rolled
  back with an error. A query outside a transaction is a step of its own, so a method that makes
  several sees several moments. \<open>ck\<close> is the collation, \<open>e\<close> the environment of the method's statements.
\<close>

subsection \<open>The shared state\<close>

text \<open>
  The coordinator process with what it works on: the database, Redis as a map from keys to the bytes
  stored under them, and the atomic counters of \<open>Service\<close>.
\<close>

record dist =
  ds_db :: db
  ds_redis :: "string \<rightharpoonup> string"
  ds_started :: int64
  ds_cacheHits :: uint64
  ds_idempotentReplays :: uint64
  ds_faultsInjected :: uint64

definition db_act :: "(db \<Rightarrow> db \<times> 'a) \<Rightarrow> (dist, 'a) prog" where
  "db_act f = act (\<lambda>s. case f (ds_db s) of (d, a) \<Rightarrow> (s\<lparr>ds_db := d\<rparr>, a)) Ret"

definition db_query :: "(db \<Rightarrow> 'a) \<Rightarrow> (dist, 'a) prog" where
  "db_query f = db_act (\<lambda>d. (d, f d))"

text \<open>\<open>if err != nil { return ..., err }\<close>\<close>

definition and_then ::
  "('s, go_error + 'a) prog \<Rightarrow> ('a \<Rightarrow> ('s, go_error + 'b) prog) \<Rightarrow> ('s, go_error + 'b) prog" where
  "and_then p k = bind_prog p (\<lambda>r. case r of Inl err \<Rightarrow> Ret (Inl err) | Inr a \<Rightarrow> k a)"

subsection \<open>Errors, rows and transactions\<close>

fun sql_go :: "sql_error \<Rightarrow> go_error" where
  "sql_go NoRows = OtherError ''sql: no rows in result set''"
| "sql_go Duplicate = OtherError ''Error 1062''"
| "sql_go (SqlError m) = OtherError m"

definition mapSQLError :: "sql_error \<Rightarrow> go_error" where
  "mapSQLError err = (if err = NoRows then ErrNotFound else sql_go err)"

text \<open>\<open>scanPayment\<close> on a row of \<open>paymentSelect\<close>, which turns a NULL gid into the empty text.\<close>

definition scanPayment :: "payment_row \<Rightarrow> payment \<times> string" where
  "scanPayment r =
     (\<lparr>pay_id = pr_id r, pay_gid = (case pr_gid r of None \<Rightarrow> '''' | Some g \<Rightarrow> g), pay_mode = pr_mode r,
       pay_order = pr_order r, pay_account = pr_account r, pay_amount = pr_amount r,
       pay_currency = pr_currency r, pay_status = pr_status r, pay_failure = pr_failure r,
       pay_callback_seq = pr_callback_seq r, pay_created = pr_created r, pay_updated = pr_updated r\<rparr>,
      pr_fingerprint r)"

definition select_payment :: "string option \<Rightarrow> (payment_row \<Rightarrow> bool) \<Rightarrow> db \<Rightarrow> go_error + payment \<times> string" where
  "select_payment fault P d =
     (case query_row fault P (db_payments d) of
        Inl err \<Rightarrow> Inl (mapSQLError err) | Inr r \<Rightarrow> Inr (scanPayment r))"

text \<open>
  \<open>BeginTx\<close>, the body, \<open>Commit\<close>, with the deferred \<open>Rollback\<close>: statement \<open>b\<close> is the begin, \<open>c\<close> the
  commit, \<open>fail\<close> makes an error of the method's type of a driver error.
\<close>

definition in_tx ::
  "(string \<Rightarrow> 'e) \<Rightarrow> sql_env \<Rightarrow> nat \<Rightarrow> nat \<Rightarrow> (db, 'e, 'a) op \<Rightarrow> (db, 'e, 'a) op" where
  "in_tx fail e b c body d =
     (case sq_fault e b of
        Some m \<Rightarrow> (d, Inl (fail m))
      | None \<Rightarrow>
          (case body d of
             (_, Inl err) \<Rightarrow> (d, Inl err)
           | (d1, Inr a) \<Rightarrow>
               (case sq_fault e c of
                  None \<Rightarrow> (d1, Inr a)
                | Some m \<Rightarrow> (if sq_lost e then d1 else d, Inl (fail m)))))"

definition next_sequence :: "collation \<Rightarrow> string \<Rightarrow> db \<Rightarrow> int" where
  "next_sequence ck pid d =
     foldr (\<lambda>r m. max (sint (ev_seq (er_event r))) m)
       (filter (\<lambda>r. ck (er_payment r) = ck pid) (db_events d)) 0 + 1"

definition appendEventTx ::
  "collation \<Rightarrow> sql_env \<Rightarrow> nat \<Rightarrow> string \<Rightarrow> string \<Rightarrow> payment_status \<Rightarrow> payment_status \<Rightarrow> string \<Rightarrow>
   metadata \<Rightarrow> (db, go_error, unit) op" where
  "appendEventTx ck e k pid ty from to message md d =
     (let n = next_sequence ck pid d in
      case stmt (sq_fault e k) (if n < 2 ^ 63 then Inr n else Inl (SqlError ''out of range'')) of
        Inl err \<Rightarrow> (d, Inl (sql_go err))
      | Inr n \<Rightarrow>
          (case stmt (sq_fault e (Suc k)) (insert_event ck
                  \<lparr>er_payment = pid, er_event = \<lparr>ev_seq = word_of_int n, ev_type = ty, ev_from = from,
                     ev_to = to, ev_message = message, ev_metadata = md, ev_at = sq_now e (Suc k)\<rparr>\<rparr> d) of
             Inl err \<Rightarrow> (d, Inl (sql_go err))
           | Inr d1 \<Rightarrow> (d1, Inr ())))"

definition getPaymentTxForUpdate :: "collation \<Rightarrow> string option \<Rightarrow> string \<Rightarrow> db \<Rightarrow> go_error + payment" where
  "getPaymentTxForUpdate ck fault pid d =
     (case select_payment fault (\<lambda>r. ck (pr_id r) = ck pid) d of
        Inl err \<Rightarrow> Inl err | Inr (p, _) \<Rightarrow> Inr p)"

subsection \<open>Methods that write\<close>

text \<open>
  The transaction of \<open>CreatePayment\<close>; the times of the Go value are stored as the columns keep them
  (\<open>sq_store\<close>, DATETIME(6) drops the nanoseconds). Its error says whether the INSERT met a duplicate key (1062).
\<close>

definition new_payment_row :: "sql_env \<Rightarrow> payment \<Rightarrow> string \<Rightarrow> string \<Rightarrow> payment_row" where
  "new_payment_row e p key fingerprint =
     \<lparr>pr_id = pay_id p, pr_gid = None, pr_mode = ''distributed'', pr_order = pay_order p,
      pr_account = pay_account p, pr_amount = pay_amount p, pr_currency = pay_currency p,
      pr_status = StatusInit, pr_failure = '''', pr_callback_seq = 0, pr_key = key,
      pr_fingerprint = fingerprint, pr_created = sq_store e (pay_created p),
      pr_updated = sq_store e (pay_updated p)\<rparr>"

definition create_tx ::
  "collation \<Rightarrow> sql_env \<Rightarrow> payment \<Rightarrow> string \<Rightarrow> string \<Rightarrow> (db, bool \<times> go_error, unit) op" where
  "create_tx ck e p key fingerprint =
     in_tx (\<lambda>m. (False, OtherError m)) e 0 4 (\<lambda>d.
       case stmt (sq_fault e 1) (insert_payment ck (new_payment_row e p key fingerprint) d) of
         Inl err \<Rightarrow> (d, Inl (err = Duplicate, sql_go err))
       | Inr d1 \<Rightarrow>
           (case appendEventTx ck e 2 (pay_id p) ''PAYMENT_CREATED'' StatusNone StatusInit
                   ''distributed payment persisted with a MySQL idempotency key'' None d1 of
              (d2, Inl err) \<Rightarrow> (d2, Inl (False, err))
            | (d2, Inr _) \<Rightarrow> (d2, Inr ())))"

definition findByIdempotencyKey ::
  "collation \<Rightarrow> string option \<Rightarrow> string \<Rightarrow> (dist, go_error + payment \<times> string) prog" where
  "findByIdempotencyKey ck fault key = db_query (select_payment fault (\<lambda>r. ck (pr_key r) = ck key))"

definition repo_CreatePayment ::
  "collation \<Rightarrow> sql_env \<Rightarrow> payment \<Rightarrow> string \<Rightarrow> string \<Rightarrow> (dist, go_error + payment \<times> bool) prog" where
  "repo_CreatePayment ck e p key fingerprint =
     bind_prog (db_act (create_tx ck e p key fingerprint)) (\<lambda>r. case r of
       Inr _ \<Rightarrow> Ret (Inr (p\<lparr>pay_mode := ''distributed''\<rparr>, True))
     | Inl (duplicate, err) \<Rightarrow>
         if duplicate then
           and_then (findByIdempotencyKey ck (sq_fault e 5) key) (\<lambda>(existing, existingFingerprint).
             Ret (if existingFingerprint \<noteq> fingerprint then Inl ErrIdempotencyConflict
                  else Inr (existing, False)))
         else Ret (Inl err))"

definition repo_GetPayment :: "collation \<Rightarrow> string option \<Rightarrow> string \<Rightarrow> (dist, go_error + payment) prog" where
  "repo_GetPayment ck fault pid = db_query (getPaymentTxForUpdate ck fault pid)"

text \<open>
  \<open>UPDATE payments SET gid=?\<close> fails when another row has the gid; the WHERE clause then names one row.
\<close>

definition begin_tx :: "collation \<Rightarrow> sql_env \<Rightarrow> string \<Rightarrow> string \<Rightarrow> (db, go_error, unit) op" where
  "begin_tx ck e pid gid =
     in_tx OtherError e 0 5 (\<lambda>d.
       case getPaymentTxForUpdate ck (sq_fault e 1) pid d of
         Inl err \<Rightarrow> (d, Inl err)
       | Inr p \<Rightarrow>
           if pay_status p \<noteq> StatusInit then (d, Inl ErrInvalidTransition)
           else
             (let hit = (\<lambda>r. ck (pr_id r) = ck pid \<and> pr_status r = StatusInit) in
              case stmt (sq_fault e 2)
                (if list_ex (\<lambda>r. \<not> hit r \<and> map_option ck (pr_gid r) = Some (ck gid)) (db_payments d)
                 then Inl Duplicate
                 else sql_update hit (\<lambda>r. Some (r\<lparr>pr_gid := Some gid, pr_status := StatusProcessing,
                   pr_updated := sq_now e 2\<rparr>)) (db_payments d)) of
                Inl err \<Rightarrow> (d, Inl (sql_go err))
              | Inr (rows, affected) \<Rightarrow>
                  let d1 = d\<lparr>db_payments := rows\<rparr> in
                  if affected \<noteq> 1 then (d1, Inl ErrInvalidTransition)
                  else appendEventTx ck e 3 pid ''DTM_TCC_STARTED'' StatusInit StatusProcessing
                    ''DTM global TCC transaction prepared'' (Some [''gid'' \<mapsto> gid]) d1))"

definition repo_BeginTCC :: "collation \<Rightarrow> sql_env \<Rightarrow> string \<Rightarrow> string \<Rightarrow> (dist, go_error + payment) prog" where
  "repo_BeginTCC ck e pid gid =
     and_then (db_act (begin_tx ck e pid gid)) (\<lambda>_. repo_GetPayment ck (sq_fault e 6) pid)"

text \<open>
  \<open>finalize_tx\<close> returns the payment when it was already in the status asked for, and nothing when
  the method still has to read it.
\<close>

definition finalize_tx ::
  "collation \<Rightarrow> sql_env \<Rightarrow> string \<Rightarrow> payment_status \<Rightarrow> string \<Rightarrow> string \<Rightarrow> (db, go_error, payment option) op" where
  "finalize_tx ck e pid status reason message0 =
     in_tx OtherError e 0 5 (\<lambda>d.
       case getPaymentTxForUpdate ck (sq_fault e 1) pid d of
         Inl err \<Rightarrow> (d, Inl err)
       | Inr p \<Rightarrow>
           if Terminal (pay_status p) then
             (d, if pay_status p = status then Inr (Some p) else Inl ErrInvalidTransition)
           else if pay_status p \<noteq> StatusProcessing then (d, Inl ErrInvalidTransition)
           else
             (case stmt (sq_fault e 2) (sql_update
                     (\<lambda>r. ck (pr_id r) = ck pid \<and> pr_status r = StatusProcessing)
                     (\<lambda>r. Some (r\<lparr>pr_status := status, pr_failure := reason, pr_updated := sq_now e 2\<rparr>))
                     (db_payments d)) of
                Inl err \<Rightarrow> (d, Inl (sql_go err))
              | Inr (rows, _) \<Rightarrow>
                  (case appendEventTx ck e 3 pid ''STATUS_CHANGED'' (pay_status p) status
                          (if message0 = '''' then ''DTM TCC transaction finalized'' else message0) None
                          (d\<lparr>db_payments := rows\<rparr>) of
                     (d2, Inl err) \<Rightarrow> (d2, Inl err)
                   | (d2, Inr _) \<Rightarrow> (d2, Inr None))))"

definition repo_Finalize ::
  "collation \<Rightarrow> sql_env \<Rightarrow> string \<Rightarrow> payment_status \<Rightarrow> string \<Rightarrow> string \<Rightarrow> (dist, go_error + payment) prog" where
  "repo_Finalize ck e pid status reason message =
     (if status \<noteq> StatusSuccess \<and> status \<noteq> StatusFailed \<and> status \<noteq> StatusClosed
      then Ret (Inl (OtherError (''unsupported final status '' @ status_text status)))
      else
        and_then (db_act (finalize_tx ck e pid status reason message)) (\<lambda>r. case r of
          Some p \<Rightarrow> Ret (Inr p)
        | None \<Rightarrow> repo_GetPayment ck (sq_fault e 6) pid))"

definition repo_RecordEvent ::
  "collation \<Rightarrow> sql_env \<Rightarrow> string \<Rightarrow> string \<Rightarrow> string \<Rightarrow> metadata \<Rightarrow> (dist, go_error + unit) prog" where
  "repo_RecordEvent ck e pid ty message md =
     db_act (in_tx OtherError e 0 4 (\<lambda>d.
       case getPaymentTxForUpdate ck (sq_fault e 1) pid d of
         Inl err \<Rightarrow> (d, Inl err)
       | Inr p \<Rightarrow> appendEventTx ck e 2 pid ty StatusNone StatusNone message md d))"

text \<open>
  \<open>Reset\<close>: eight statements in one transaction. The DTM tables lose the rows of payments that have a
  gid; the account of the demo gets its balance back.
\<close>

definition reset_statements :: "collation \<Rightarrow> time \<Rightarrow> (db \<Rightarrow> db) list" where
  "reset_statements ck now =
     (let ours = (\<lambda>d g. list_ex (\<lambda>p. map_option ck (pr_gid p) = Some (ck g)) (db_payments d)) in
      [\<lambda>d. d\<lparr>db_events := []\<rparr>,
       \<lambda>d. d\<lparr>db_ledger := []\<rparr>,
       \<lambda>d. d\<lparr>db_reservations := []\<rparr>,
       \<lambda>d. d\<lparr>db_barriers := filter (\<lambda>b. \<not> ours d (br_gid b)) (db_barriers d)\<rparr>,
       \<lambda>d. d\<lparr>db_branch_ops := filter (\<lambda>g. \<not> ours d g) (db_branch_ops d)\<rparr>,
       \<lambda>d. d\<lparr>db_trans := filter (\<lambda>t. \<not> ours d (tg_gid t)) (db_trans d)\<rparr>,
       \<lambda>d. d\<lparr>db_payments := []\<rparr>,
       \<lambda>d. d\<lparr>db_accounts := map (\<lambda>a. if ck (acc_id a) = ck ''demo-user''
         then a\<lparr>acc_available := 1000000, acc_frozen := 0, acc_updated := now\<rparr> else a) (db_accounts d)\<rparr>])"

fun run_statements :: "(nat \<Rightarrow> string option) \<Rightarrow> nat \<Rightarrow> (db \<Rightarrow> db) list \<Rightarrow> (db, go_error, unit) op" where
  "run_statements fault k [] d = (d, Inr ())"
| "run_statements fault k (f # fs) d =
     (case fault k of Some m \<Rightarrow> (d, Inl (OtherError m)) | None \<Rightarrow> run_statements fault (Suc k) fs (f d))"

definition repo_Reset :: "collation \<Rightarrow> sql_env \<Rightarrow> (dist, go_error + unit) prog" where
  "repo_Reset ck e =
     db_act (in_tx OtherError e 0 9 (run_statements (sq_fault e) 1 (reset_statements ck (sq_now e 8))))"

subsection \<open>Methods that read\<close>

definition repo_ListPayments ::
  "string option \<Rightarrow> (payment_row \<Rightarrow> nat) \<Rightarrow> (dist, go_error + payment list) prog" where
  "repo_ListPayments fault tie =
     db_query (\<lambda>d. case fault of
       Some m \<Rightarrow> Inl (OtherError m)
     | None \<Rightarrow> Inr (map (fst \<circ> scanPayment)
         (take 200 (sort_key (\<lambda>r. - pr_created r) (sort_key tie (db_payments d))))))"

definition repo_Events :: "collation \<Rightarrow> sql_env \<Rightarrow> string \<Rightarrow> (dist, go_error + payment_event list) prog" where
  "repo_Events ck e pid =
     and_then (repo_GetPayment ck (sq_fault e 0) pid) (\<lambda>_.
       db_query (\<lambda>d. case sq_fault e 1 of
         Some m \<Rightarrow> Inl (OtherError m)
       | None \<Rightarrow> Inr (sort_key (\<lambda>ev. sint (ev_seq ev))
           (map er_event (filter (\<lambda>r. ck (er_payment r) = ck pid) (db_events d))))))"

definition repo_Account :: "collation \<Rightarrow> string option \<Rightarrow> string \<Rightarrow> (dist, go_error + account) prog" where
  "repo_Account ck fault aid =
     db_query (\<lambda>d. case query_row fault (\<lambda>a. ck (acc_id a) = ck aid) (db_accounts d) of
       Inl err \<Rightarrow> Inl (mapSQLError err) | Inr a \<Rightarrow> Inr a)"

definition ledger_text :: "ledger_state \<Rightarrow> string" where
  "ledger_text s = (case s of PREPARED \<Rightarrow> ''PREPARED'' | POSTED \<Rightarrow> ''POSTED'' | VOIDED \<Rightarrow> ''CANCELLED'')"

definition ledger_entry_of :: "ledger_row \<Rightarrow> ledger_entry" where
  "ledger_entry_of r =
     \<lparr>le_id = show_int (lr_id r), le_gid = lr_gid r, le_payment = lr_payment r, le_account = lr_account r,
      le_amount = lr_amount r, le_direction = lr_direction r, le_status = ledger_text (lr_status r),
      le_created = lr_created r\<rparr>"

definition repo_Ledger :: "string option \<Rightarrow> (dist, go_error + ledger_entry list) prog" where
  "repo_Ledger fault =
     db_query (\<lambda>d. case fault of
       Some m \<Rightarrow> Inl (OtherError m)
     | None \<Rightarrow> Inr (map ledger_entry_of
         (take 200 (rev (sort_key lr_id (filter (\<lambda>r. lr_status r = POSTED) (db_ledger d)))))))"

text \<open>Three queries: the payments by status, the accounts, the posted entries.\<close>

definition status_counts :: "payment_row list \<Rightarrow> payment_status \<rightharpoonup> nat" where
  "status_counts rows st =
     (let n = length (filter (\<lambda>r. pr_status r = st) rows) in if n = 0 then None else Some n)"

definition repo_Snapshot :: "sql_env \<Rightarrow> (dist, go_error + store_snapshot) prog" where
  "repo_Snapshot e =
     and_then (db_query (\<lambda>d. case sq_fault e 0 of
       Some m \<Rightarrow> Inl (OtherError m) | None \<Rightarrow> Inr (status_counts (db_payments d), length (db_payments d))))
     (\<lambda>(counts, total). and_then (db_query (\<lambda>d. case sq_fault e 1 of
         Some m \<Rightarrow> Inl (OtherError m) | None \<Rightarrow> Inr (length (db_accounts d))))
     (\<lambda>accounts. and_then (db_query (\<lambda>d. case sq_fault e 2 of
         Some m \<Rightarrow> Inl (OtherError m)
       | None \<Rightarrow> Inr (length (filter (\<lambda>r. lr_status r = POSTED) (db_ledger d)))))
     (\<lambda>posted. Ret (Inr \<lparr>snap_payments = total, snap_status_counts = counts, snap_accounts = accounts,
         snap_ledger = posted\<rparr>))))"

subsection \<open>\<open>diagnostics.go\<close>\<close>

definition repo_VerifyCachedIdempotency ::
  "collation \<Rightarrow> string option \<Rightarrow> string \<Rightarrow> string \<Rightarrow> string \<Rightarrow> (dist, payment option) prog" where
  "repo_VerifyCachedIdempotency ck fault pid key fingerprint =
     db_query (\<lambda>d.
       case select_payment fault (\<lambda>r. ck (pr_id r) = ck pid \<and> ck (pr_key r) = ck key \<and>
              ck (pr_fingerprint r) = ck fingerprint) d of
         Inl _ \<Rightarrow> None | Inr (p, _) \<Rightarrow> Some p)"

text \<open>A query for one column of a row that may be missing: \<open>sql.ErrNoRows\<close> counts as no value.\<close>

definition query_optional ::
  "string option \<Rightarrow> ('r \<Rightarrow> bool) \<Rightarrow> (db \<Rightarrow> 'r list) \<Rightarrow> (dist, go_error + 'r option) prog" where
  "query_optional fault P table =
     db_query (\<lambda>d. case query_row fault P (table d) of
       Inr r \<Rightarrow> Inr (Some r)
     | Inl err \<Rightarrow> if err = NoRows then Inr None else Inl (sql_go err))"

text \<open>The empty text of a missing row is \<open>None\<close>, for DTM's status the empty text itself.\<close>

definition repo_ParticipantStates ::
  "collation \<Rightarrow> sql_env \<Rightarrow> string \<Rightarrow> string \<Rightarrow>
   (dist, go_error + reservation_state option \<times> ledger_state option \<times> string) prog" where
  "repo_ParticipantStates ck e gid pid =
     and_then (query_optional (sq_fault e 0)
       (\<lambda>r. ck (rr_gid r) = ck gid \<and> ck (rr_payment r) = ck pid) db_reservations) (\<lambda>reservation.
     and_then (query_optional (sq_fault e 1)
       (\<lambda>r. ck (lr_gid r) = ck gid \<and> ck (lr_payment r) = ck pid) db_ledger) (\<lambda>ledger.
     and_then (query_optional (sq_fault e 2) (\<lambda>t. ck (tg_gid t) = ck gid) db_trans) (\<lambda>trans.
       Ret (Inr (map_option rr_status reservation, map_option lr_status ledger,
         case trans of None \<Rightarrow> '''' | Some t \<Rightarrow> tg_status t)))))"

definition reservation_text :: "reservation_state \<Rightarrow> string" where
  "reservation_text s = (case s of FROZEN \<Rightarrow> ''FROZEN'' | CONFIRMED \<Rightarrow> ''CONFIRMED'' | CANCELLED \<Rightarrow> ''CANCELLED'')"

definition reservation_view_of :: "reservation_row \<Rightarrow> reservation_view" where
  "reservation_view_of r =
     \<lparr>rv_gid = rr_gid r, rv_payment = rr_payment r, rv_account = rr_account r, rv_amount = rr_amount r,
      rv_status = reservation_text (rr_status r), rv_updated = rr_updated r\<rparr>"

definition ledger_view_of :: "ledger_row \<Rightarrow> ledger_view" where
  "ledger_view_of r =
     \<lparr>lv_gid = lr_gid r, lv_payment = lr_payment r, lv_account = lr_account r, lv_amount = lr_amount r,
      lv_status = ledger_text (lr_status r), lv_updated = lr_updated r\<rparr>"

definition barrier_view_of :: "barrier_row \<Rightarrow> barrier_view" where
  "barrier_view_of b =
     \<lparr>bv_branch = br_branch b, bv_op = br_op b, bv_reason = br_reason b, bv_created = br_created b\<rparr>"

definition repo_PaymentByGID :: "collation \<Rightarrow> string option \<Rightarrow> string \<Rightarrow> (dist, go_error + payment) prog" where
  "repo_PaymentByGID ck fault gid =
     db_query (\<lambda>d. case select_payment fault (\<lambda>r. map_option ck (pr_gid r) = Some (ck gid)) d of
       Inl err \<Rightarrow> Inl err | Inr (p, _) \<Rightarrow> Inr p)"

definition repo_Transaction ::
  "collation \<Rightarrow> sql_env \<Rightarrow> string \<Rightarrow> (dist, go_error + transaction_view) prog" where
  "repo_Transaction ck e gid =
     and_then (repo_PaymentByGID ck (sq_fault e 0) gid) (\<lambda>p.
     and_then (query_optional (sq_fault e 1) (\<lambda>t. ck (tg_gid t) = ck gid) db_trans) (\<lambda>trans.
     and_then (query_optional (sq_fault e 2) (\<lambda>r. ck (rr_gid r) = ck gid) db_reservations) (\<lambda>reservation.
     and_then (query_optional (sq_fault e 3) (\<lambda>r. ck (lr_gid r) = ck gid) db_ledger) (\<lambda>ledger.
     and_then (db_query (\<lambda>d. case sq_fault e 4 of
         Some m \<Rightarrow> Inl (OtherError m)
       | None \<Rightarrow> Inr (filter (\<lambda>b. ck (br_gid b) = ck gid) (db_barriers d)))) (\<lambda>barriers.
     Ret (Inr
       \<lparr>tv_gid = gid,
        tv_dtm_status = (case trans of None \<Rightarrow> '''' | Some t \<Rightarrow> tg_status t),
        tv_rollback_reason = (case trans of None \<Rightarrow> '''' | Some t \<Rightarrow> tg_rollback_reason t),
        tv_payment = p, tv_reservation = map_option reservation_view_of reservation,
        tv_ledger = map_option ledger_view_of ledger, tv_barriers = map barrier_view_of barriers\<rparr>))))))"

definition repo_EnsureNoActiveTransactions :: "string option \<Rightarrow> (dist, go_error + unit) prog" where
  "repo_EnsureNoActiveTransactions fault =
     db_query (\<lambda>d. case fault of
       Some m \<Rightarrow> Inl (OtherError m)
     | None \<Rightarrow>
         if list_ex (\<lambda>r. pr_status r = StatusProcessing) (db_payments d) then Inl ErrInvalidTransition
         else Inr ())"

end
