(* ===== verification/Cache.thy ===== *)
theory Cache
  imports Repository
begin

section \<open>The Redis cache\<close>

text \<open>
  \<open>internal/distributed/cache.go\<close>. A cache is \<open>None\<close> for the nil pointer of a server without Redis, or
  its key prefix with the JSON text that \<open>json.Marshal\<close> makes of a record, what \<open>json.Unmarshal\<close> reads
  from a text (\<open>None\<close> for an error) and the patterns of SCAN. Redis holds texts by key, whatever their
  origin. A command may fail whenever the environment says so (\<open>fault\<close>); records expire when the
  environment takes them away. The hash of a key is \<open>sha256.Sum256\<close>.
\<close>

record idempotencyCacheRecord =
  icr_payment :: string
  icr_fingerprint :: string

record redis_cache =
  cc_prefix :: string
  cc_marshal :: "idempotencyCacheRecord \<Rightarrow> string"
  cc_unmarshal :: "string \<Rightarrow> idempotencyCacheRecord option"
  cc_match :: "string \<Rightarrow> string \<Rightarrow> bool"

type_synonym cache = "redis_cache option"

text \<open>
  \<open>OpenRedis\<close>: \<open>c\<close> are the codec and patterns of the client, \<open>ping\<close> the error of its first command.
\<close>

definition OpenRedis :: "redis_cache \<Rightarrow> string option \<Rightarrow> string \<Rightarrow> string \<Rightarrow> go_error + cache" where
  "OpenRedis c ping address pre =
     (if TrimSpace address = '''' then Inr None
      else
        (case ping of
           Some m \<Rightarrow> Inl (OtherError m)
         | None \<Rightarrow> Inr (Some (c\<lparr>cc_prefix := (if pre = '''' then ''payflow:'' else pre)\<rparr>))))"

definition idempotencyKey :: "string \<Rightarrow> string \<Rightarrow> string" where
  "idempotencyKey pre key = pre @ ''idempotency:'' @ hex_encode (Sum256 key)"

definition redis_act :: "(dist \<Rightarrow> dist \<times> 'a) \<Rightarrow> (dist, 'a) prog" where
  "redis_act f = act f Ret"

definition GetIdempotency :: "cache \<Rightarrow> bool \<Rightarrow> string \<Rightarrow> (dist, (string \<times> string) option) prog" where
  "GetIdempotency c fault key =
     (case c of
        None \<Rightarrow> Ret None
      | Some rc \<Rightarrow>
          redis_act (\<lambda>s. (s,
            if fault then None
            else
              (case ds_redis s (idempotencyKey (cc_prefix rc) key) of
                 None \<Rightarrow> None
               | Some raw \<Rightarrow>
                   (case cc_unmarshal rc raw of
                      None \<Rightarrow> None
                    | Some record \<Rightarrow>
                        if icr_payment record = '''' \<or> icr_fingerprint record = '''' then None
                        else Some (icr_payment record, icr_fingerprint record))))))"

definition SetIdempotency :: "cache \<Rightarrow> bool \<Rightarrow> string \<Rightarrow> string \<Rightarrow> string \<Rightarrow> (dist, unit) prog" where
  "SetIdempotency c fault key pid fingerprint =
     (case c of
        None \<Rightarrow> Ret ()
      | Some rc \<Rightarrow>
          redis_act (\<lambda>s.
            (if fault then s
             else s\<lparr>ds_redis := (ds_redis s)(idempotencyKey (cc_prefix rc) key \<mapsto>
               cc_marshal rc \<lparr>icr_payment = pid, icr_fingerprint = fingerprint\<rparr>)\<rparr>, ())))"

definition cache_Ping :: "cache \<Rightarrow> string option \<Rightarrow> go_error option" where
  "cache_Ping c fault = (case c of None \<Rightarrow> None | Some _ \<Rightarrow> map_option OtherError fault)"

text \<open>
  \<open>Clear\<close>: the answers of the SCAN commands come from the environment, page by page, each an error or
  the keys Redis looked at, of which the command answers those that match \<open>prefix*\<close>; with each page
  comes the error of the DEL that follows. The last page has cursor 0.
\<close>

fun clear_pages ::
  "redis_cache \<Rightarrow> ((string + string list) \<times> string option) list \<Rightarrow> (dist, go_error + unit) prog" where
  "clear_pages rc [] = Ret (Inr ())"
| "clear_pages rc ((Inl m, _) # pages) = Ret (Inl (OtherError m))"
| "clear_pages rc ((Inr scanned, del) # pages) =
     (let keys = filter (cc_match rc (cc_prefix rc @ ''*'')) scanned in
      if keys = [] then clear_pages rc pages
      else
        (case del of
           Some m \<Rightarrow> Ret (Inl (OtherError m))
         | None \<Rightarrow>
             bind_prog (redis_act (\<lambda>s. (s\<lparr>ds_redis := (ds_redis s) |` (- set keys)\<rparr>, ()))) (\<lambda>_.
               clear_pages rc pages)))"

definition cache_Clear ::
  "cache \<Rightarrow> ((string + string list) \<times> string option) list \<Rightarrow> (dist, go_error + unit) prog" where
  "cache_Clear c pages = (case c of None \<Rightarrow> Ret (Inr ()) | Some rc \<Rightarrow> clear_pages rc pages)"

end
