(* ===== verification/Participant.thy ===== *)
theory Participant
  imports Database
begin

section \<open>The TCC participants\<close>

text \<open>
  \<open>internal/participant\<close>: the account and the ledger service, each with a Try, a Confirm and a
  Cancel that run inside a MySQL transaction of the DTM client, and the HTTP handler around them. A
  business function works on the tables as they are inside its transaction; what it returns with an
  error is rolled back by the barrier, which is a parameter of \<open>branchHandler\<close>.
\<close>

subsection \<open>Requests and errors\<close>

record TCCRequest =
  tr_payment :: string
  tr_gid :: string
  tr_account :: string
  tr_amount :: int64
  tr_fail_try :: bool

text \<open>\<open>ErrFailure\<close> is \<open>dtmcli.ErrFailure\<close>: DTM gives up the global transaction.\<close>

datatype branch_error = ErrFailure | BranchSql sql_error | BranchError string

type_synonym business = "(db, branch_error, unit) op"

subsection \<open>\<open>account.go\<close>\<close>

definition bad_request :: "TCCRequest \<Rightarrow> bool" where
  "bad_request rq \<longleftrightarrow>
     tr_payment rq = '''' \<or> tr_gid rq = '''' \<or> tr_account rq = '''' \<or> tr_amount rq <=s 0"

definition accountTry :: "collation \<Rightarrow> sql_env \<Rightarrow> TCCRequest \<Rightarrow> business" where
  "accountTry ck e rq d =
     (if bad_request rq then (d, Inl ErrFailure)
      else
        (case query_row (sq_fault e 0) (\<lambda>a. ck (acc_id a) = ck (tr_account rq)) (db_accounts d) of
           Inl err \<Rightarrow> (d, Inl (if err = NoRows then ErrFailure else BranchSql err))
         | Inr a \<Rightarrow>
             if acc_available a <s tr_amount rq then (d, Inl ErrFailure)
             else
               (case stmt (sq_fault e 1) (insert_reservation ck
                       \<lparr>rr_gid = tr_gid rq, rr_payment = tr_payment rq, rr_account = tr_account rq,
                        rr_amount = tr_amount rq, rr_status = FROZEN, rr_created = sq_now e 1,
                        rr_updated = sq_now e 1\<rparr> d) of
                  Inl err \<Rightarrow> (d, Inl (BranchSql err))
                | Inr d1 \<Rightarrow>
                    (case stmt (sq_fault e 2) (sql_update
                            (\<lambda>a. ck (acc_id a) = ck (tr_account rq) \<and> \<not> acc_available a <s tr_amount rq)
                            (\<lambda>a. set_cents (sint (acc_available a) - sint (tr_amount rq))
                                   (sint (acc_frozen a) + sint (tr_amount rq)) (sq_now e 2) a)
                            (db_accounts d1)) of
                       Inl err \<Rightarrow> (d1, Inl (BranchSql err))
                     | Inr (rows, affected) \<Rightarrow>
                         if affected \<noteq> 1 then (d1\<lparr>db_accounts := rows\<rparr>, Inl ErrFailure)
                         else (d1\<lparr>db_accounts := rows\<rparr>, Inr ())))))"

text \<open>
  \<open>accountConfirm\<close> and \<open>accountCancel\<close> start with the same two statements; \<open>settle\<close> updates the
  account that the reservation names, \<open>mark\<close> then moves the reservation on.
\<close>

definition reservation_of :: "collation \<Rightarrow> TCCRequest \<Rightarrow> reservation_row \<Rightarrow> bool" where
  "reservation_of ck rq r \<longleftrightarrow> ck (rr_gid r) = ck (tr_gid rq) \<and> ck (rr_payment r) = ck (tr_payment rq)"

definition settle_reservation ::
  "collation \<Rightarrow> sql_env \<Rightarrow> TCCRequest \<Rightarrow> reservation_row \<Rightarrow> (int64 \<Rightarrow> account \<Rightarrow> int) \<Rightarrow> reservation_state \<Rightarrow> business" where
  "settle_reservation ck e rq r avail status d =
     (let amount = rr_amount r in
      case stmt (sq_fault e 1) (sql_update
             (\<lambda>a. ck (acc_id a) = ck (rr_account r) \<and> \<not> acc_frozen a <s amount)
             (\<lambda>a. set_cents (avail amount a) (sint (acc_frozen a) - sint amount) (sq_now e 1) a)
             (db_accounts d)) of
        Inl err \<Rightarrow> (d, Inl (BranchSql err))
      | Inr (rows, affected) \<Rightarrow>
          let d1 = d\<lparr>db_accounts := rows\<rparr> in
          if affected \<noteq> 1 then (d1, Inl (BranchError ''account frozen balance invariant violated''))
          else
            (case stmt (sq_fault e 2) (sql_update
                    (\<lambda>x. reservation_of ck rq x \<and> rr_status x = FROZEN)
                    (\<lambda>x. Some (x\<lparr>rr_status := status, rr_updated := sq_now e 2\<rparr>))
                    (db_reservations d1)) of
               Inl err \<Rightarrow> (d1, Inl (BranchSql err))
             | Inr (rrows, _) \<Rightarrow> (d1\<lparr>db_reservations := rrows\<rparr>, Inr ())))"

definition accountConfirm :: "collation \<Rightarrow> sql_env \<Rightarrow> TCCRequest \<Rightarrow> business" where
  "accountConfirm ck e rq d =
     (case query_row (sq_fault e 0) (reservation_of ck rq) (db_reservations d) of
        Inl err \<Rightarrow> (d, if err = NoRows then Inr () else Inl (BranchSql err))
      | Inr r \<Rightarrow>
          if rr_status r = CONFIRMED then (d, Inr ())
          else if rr_status r \<noteq> FROZEN then (d, Inr ())
          else settle_reservation ck e rq r (\<lambda>amount a. sint (acc_available a)) CONFIRMED d)"

definition accountCancel :: "collation \<Rightarrow> sql_env \<Rightarrow> TCCRequest \<Rightarrow> business" where
  "accountCancel ck e rq d =
     (case query_row (sq_fault e 0) (reservation_of ck rq) (db_reservations d) of
        Inl err \<Rightarrow> (d, if err = NoRows then Inr () else Inl (BranchSql err))
      | Inr r \<Rightarrow>
          if rr_status r = CANCELLED \<or> rr_status r \<noteq> FROZEN then (d, Inr ())
          else settle_reservation ck e rq r (\<lambda>amount a. sint (acc_available a) + sint amount) CANCELLED d)"

subsection \<open>\<open>ledger.go\<close>\<close>

definition ledger_of :: "collation \<Rightarrow> TCCRequest \<Rightarrow> ledger_row \<Rightarrow> bool" where
  "ledger_of ck rq r \<longleftrightarrow> ck (lr_gid r) = ck (tr_gid rq) \<and> ck (lr_payment r) = ck (tr_payment rq)"

definition ledgerTry :: "collation \<Rightarrow> sql_env \<Rightarrow> TCCRequest \<Rightarrow> business" where
  "ledgerTry ck e rq d =
     (if tr_fail_try rq then (d, Inl ErrFailure)
      else if bad_request rq then (d, Inl ErrFailure)
      else
        (case stmt (sq_fault e 0) (insert_ledger ck
                \<lparr>lr_id = sq_auto e 0, lr_gid = tr_gid rq, lr_payment = tr_payment rq,
                 lr_account = tr_account rq, lr_amount = tr_amount rq, lr_direction = ''DEBIT'',
                 lr_status = PREPARED, lr_created = sq_now e 0, lr_updated = sq_now e 0\<rparr> d) of
           Inl err \<Rightarrow> (d, Inl (BranchSql err))
         | Inr d1 \<Rightarrow> (d1, Inr ())))"

definition move_ledger ::
  "collation \<Rightarrow> TCCRequest \<Rightarrow> ledger_state \<Rightarrow> time \<Rightarrow> db \<Rightarrow> sql_error + ledger_row list \<times> nat" where
  "move_ledger ck rq status now d =
     sql_update (\<lambda>r. ledger_of ck rq r \<and> lr_status r = PREPARED)
       (\<lambda>r. Some (r\<lparr>lr_status := status, lr_updated := now\<rparr>)) (db_ledger d)"

text \<open>
  A row that is still PREPARED after an update that hit no row makes the last test of the source
  fail; then \<open>err\<close> is nil and Confirm succeeds all the same.
\<close>

definition ledgerConfirm :: "collation \<Rightarrow> sql_env \<Rightarrow> TCCRequest \<Rightarrow> business" where
  "ledgerConfirm ck e rq d =
     (case stmt (sq_fault e 0) (move_ledger ck rq POSTED (sq_now e 0) d) of
        Inl err \<Rightarrow> (d, Inl (BranchSql err))
      | Inr (rows, affected) \<Rightarrow>
          let d1 = d\<lparr>db_ledger := rows\<rparr> in
          if affected = 1 then (d1, Inr ())
          else
            (case query_row (sq_fault e 1) (ledger_of ck rq) (db_ledger d1) of
               Inl err \<Rightarrow> (d1, if err = NoRows then Inr () else Inl (BranchSql err))
             | Inr r \<Rightarrow> (d1, Inr ())))"

definition ledgerCancel :: "collation \<Rightarrow> sql_env \<Rightarrow> TCCRequest \<Rightarrow> business" where
  "ledgerCancel ck e rq d =
     (case stmt (sq_fault e 0) (move_ledger ck rq VOIDED (sq_now e 0) d) of
        Inl err \<Rightarrow> (d, Inl (BranchSql err))
      | Inr (rows, affected) \<Rightarrow> (d\<lparr>db_ledger := rows\<rparr>, Inr ()))"

subsection \<open>\<open>handler.go\<close>\<close>

text \<open>
  The six business functions by service and operation, as \<open>NewAccountHandler\<close> and
  \<open>NewLedgerHandler\<close> register them under \<open>POST /internal/tcc/<service>/<operation>\<close>.
\<close>

datatype branch_service = AccountService | LedgerService
datatype branch_op = OpTry | OpConfirm | OpCancel

fun op_text :: "branch_op \<Rightarrow> string" where
  "op_text OpTry = ''try''"
| "op_text OpConfirm = ''confirm''"
| "op_text OpCancel = ''cancel''"

fun business_of ::
  "branch_service \<Rightarrow> branch_op \<Rightarrow> collation \<Rightarrow> sql_env \<Rightarrow> TCCRequest \<Rightarrow> business" where
  "business_of AccountService OpTry = accountTry"
| "business_of AccountService OpConfirm = accountConfirm"
| "business_of AccountService OpCancel = accountCancel"
| "business_of LedgerService OpTry = ledgerTry"
| "business_of LedgerService OpConfirm = ledgerConfirm"
| "business_of LedgerService OpCancel = ledgerCancel"

text \<open>
  What the handler reads of a request: the result of the two \<open>Decode\<close> calls on the body and of
  \<open>dtmcli.BarrierFromQuery\<close> on the query, each with the text of its error.
\<close>

record barrier =
  bar_trans_type :: string
  bar_gid :: string
  bar_branch :: string
  bar_op :: string

record branch_request =
  brq_body :: "string + TCCRequest"
  brq_at_end :: bool
  brq_barrier :: "string + barrier"

datatype branch_response = BadRequest string | BranchSuccess | BranchFailed branch_error

text \<open>
  \<open>call_with_db\<close> is the DTM client's \<open>BranchBarrier.CallWithDB\<close>: it gets the barrier and the business
  function, opens the transaction and decides whether to run it. \<open>BranchSuccess\<close> is status 200 with
  \<open>dtmcli.MapSuccess\<close>, \<open>BranchFailed\<close> what \<open>dtmcli.Result2HttpJSON\<close> makes of the error.
\<close>

definition branchHandler ::
  "(barrier \<Rightarrow> business \<Rightarrow> business) \<Rightarrow> branch_op \<Rightarrow> (TCCRequest \<Rightarrow> business) \<Rightarrow> branch_request \<Rightarrow>
   db \<Rightarrow> db \<times> branch_response" where
  "branchHandler call_with_db expectedOp business rq d =
     (case brq_body rq of
        Inl m \<Rightarrow> (d, BadRequest (''invalid branch request: '' @ m))
      | Inr request \<Rightarrow>
          if \<not> brq_at_end rq then (d, BadRequest ''branch request must contain one JSON object'')
          else
            (case brq_barrier rq of
               Inl m \<Rightarrow> (d, BadRequest m)
             | Inr b \<Rightarrow>
                 if bar_op b \<noteq> op_text expectedOp then (d, BadRequest ''DTM op does not match branch route'')
                 else if tr_gid request \<noteq> bar_gid b
                 then (d, BadRequest ''request gid does not match DTM barrier gid'')
                 else
                   (case call_with_db b (business request) d of
                      (d', Inr _) \<Rightarrow> (d', BranchSuccess)
                    | (d', Inl err) \<Rightarrow> (d', BranchFailed err))))"

definition handle_branch ::
  "(barrier \<Rightarrow> business \<Rightarrow> business) \<Rightarrow> collation \<Rightarrow> branch_service \<Rightarrow> branch_op \<Rightarrow> sql_env \<Rightarrow>
   branch_request \<Rightarrow> db \<Rightarrow> db \<times> branch_response" where
  "handle_branch call_with_db ck service bop e =
     branchHandler call_with_db bop (business_of service bop ck e)"

end
