(* ===== verification/Dist_Service.thy ===== *)
theory Dist_Service
  imports Cache Participant
begin

section \<open>The coordinator of the distributed mode\<close>

text \<open>
  \<open>Service\<close> of \<open>internal/distributed/service.go\<close>. Its methods are programs of atomic steps on the
  database, Redis and the counters, like those of the payment service. The DTM client library is a
  parameter: \<open>tcc_global\<close> stands for \<open>dtmcli.TccGlobalTransaction2\<close>, which gets the server, the gid, the
  options and the function that registers and calls the branches, and returns the text of an error.
\<close>

subsection \<open>Configuration and environment\<close>

record ServiceConfig =
  cf_dtm :: string
  cf_account :: string
  cf_ledger :: string

text \<open>The arguments of \<open>tcc.CallBranch\<close>, and the options that the code sets on the \<open>Tcc\<close>.\<close>

record branch_args =
  ba_request :: TCCRequest
  ba_try :: string
  ba_confirm :: string
  ba_cancel :: string

record tcc_options =
  to_wait_result :: bool
  to_request_timeout :: nat
  to_timeout_to_fail :: nat
  to_retry_interval :: nat

type_synonym branch_caller = "branch_args \<Rightarrow> (dist, string option) prog"

type_synonym tcc_global =
  "string \<Rightarrow> string \<Rightarrow> tcc_options \<Rightarrow> (branch_caller \<Rightarrow> (dist, string option) prog) \<Rightarrow> (dist, string option) prog"

record dist_params =
  dp_ck :: collation
  dp_cache :: cache
  dp_tables :: case_tables
  dp_config :: ServiceConfig
  dp_tcc :: tcc_global

text \<open>
  The answers of the health checks: the errors of MySQL and Redis, whether the GET of a dependency
  answers 200, and the order of the range over the map of the three HTTP checks.
\<close>

record health_env =
  he_mysql :: "string option"
  he_redis :: "string option"
  he_http :: "string \<Rightarrow> bool"
  he_order :: "string list"
  he_now :: time

text \<open>
  What one request reads from its environment: \<open>de_sql k\<close> for the k-th repository call and \<open>de_redis k\<close>
  for the k-th Redis command in the text of the method, \<open>de_gid\<close> what \<open>dtmcli.MustGenGid\<close> returns or
  panics with, \<open>de_polls\<close> the polls of \<open>waitForOutcome\<close> that fit before its deadline, each with whether
  the context is done after it.
\<close>

record dist_env =
  de_sql :: "nat \<Rightarrow> sql_env"
  de_redis :: "nat \<Rightarrow> bool"
  de_gid :: "string + string"
  de_now :: time
  de_random :: "string option"
  de_nano :: time
  de_polls :: "(sql_env \<times> bool) list"
  de_tie :: "payment_row \<Rightarrow> nat"
  de_pages :: "((string + string list) \<times> string option) list"
  de_health :: health_env

fun trim_slashes :: "string \<Rightarrow> string" where
  "trim_slashes [] = []"
| "trim_slashes (c # s) = (if c = CHR ''/'' then trim_slashes s else c # s)"

definition TrimRight_slash :: "string \<Rightarrow> string" where
  "TrimRight_slash s = rev (trim_slashes (rev s))"

definition normalize_config :: "ServiceConfig \<Rightarrow> ServiceConfig" where
  "normalize_config c =
     \<lparr>cf_dtm = TrimRight_slash (TrimSpace (cf_dtm c)),
      cf_account = TrimRight_slash (TrimSpace (cf_account c)),
      cf_ledger = TrimRight_slash (TrimSpace (cf_ledger c))\<rparr>"

text \<open>\<open>NewService\<close>: the configuration in use, or an error; the counters start at zero.\<close>

definition NewService ::
  "time \<Rightarrow> db \<Rightarrow> (string \<rightharpoonup> string) \<Rightarrow> ServiceConfig \<Rightarrow> string + ServiceConfig \<times> dist" where
  "NewService now d redis c0 =
     (let c = normalize_config c0 in
      if cf_dtm c = '''' \<or> cf_account c = '''' \<or> cf_ledger c = ''''
      then Inl ''DTM, account participant, and ledger participant URLs are required''
      else Inr (c, \<lparr>ds_db = d, ds_redis = redis, ds_started = unix_seconds now, ds_cacheHits = 0,
        ds_idempotentReplays = 0, ds_faultsInjected = 0\<rparr>))"

subsection \<open>Evidence of the outcome\<close>

definition success_evidence :: "reservation_state option \<times> ledger_state option \<times> string \<Rightarrow> bool" where
  "success_evidence = (\<lambda>(reservation, ledger, dtm).
     reservation = Some CONFIRMED \<and> ledger = Some POSTED \<and> dtm = ''succeed'')"

definition failure_evidence :: "reservation_state option \<times> ledger_state option \<times> string \<Rightarrow> bool" where
  "failure_evidence = (\<lambda>(reservation, ledger, dtm).
     dtm = ''failed'' \<and> reservation \<noteq> Some FROZEN \<and> ledger \<noteq> Some POSTED)"

text \<open>\<open>if updated, err := s.repository.Finalize(...); err == nil { return updated }\<close>, or what comes next.\<close>

definition finalize_or ::
  "(dist, go_error + payment) prog \<Rightarrow> (dist, payment) prog \<Rightarrow> (dist, payment) prog" where
  "finalize_or p next = bind_prog p (\<lambda>r. case r of Inr updated \<Rightarrow> Ret updated | Inl _ \<Rightarrow> next)"

definition reconcile :: "collation \<Rightarrow> (nat \<Rightarrow> sql_env) \<Rightarrow> payment \<Rightarrow> (dist, payment) prog" where
  "reconcile ck e p =
     (if pay_status p \<noteq> StatusProcessing \<or> pay_gid p = '''' then Ret p
      else
        bind_prog (repo_ParticipantStates ck (e 0) (pay_gid p) (pay_id p)) (\<lambda>r. case r of
          Inl _ \<Rightarrow> Ret p
        | Inr states \<Rightarrow>
            let failed =
              (if failure_evidence states then
                 finalize_or (repo_Finalize ck (e 2) (pay_id p) StatusFailed ''DTM global transaction failed''
                   ''reconciler observed DTM Cancel completion'') (Ret p)
               else Ret p)
            in if success_evidence states then
                 finalize_or (repo_Finalize ck (e 1) (pay_id p) StatusSuccess ''''
                   ''reconciler observed all DTM Confirm branches'') failed
               else failed))"

fun waitForOutcome ::
  "collation \<Rightarrow> string \<Rightarrow> string \<Rightarrow> bool \<Rightarrow> (sql_env \<times> bool) list \<Rightarrow> (dist, bool) prog" where
  "waitForOutcome ck pid gid success [] = Ret False"
| "waitForOutcome ck pid gid success ((e, ctx_done) # polls) =
     bind_prog (repo_ParticipantStates ck e gid pid) (\<lambda>r.
       if (case r of Inl _ \<Rightarrow> False
           | Inr states \<Rightarrow> (success \<and> success_evidence states) \<or> (\<not> success \<and> failure_evidence states))
       then Ret True
       else if ctx_done then Ret False
       else waitForOutcome ck pid gid success polls)"

definition truncate_text :: "string \<Rightarrow> nat \<Rightarrow> string" where
  "truncate_text value limit = (if length value \<le> limit then value else take limit value)"

text \<open>A panic of \<open>MustGenGid\<close>, here \<open>Inl\<close>, becomes an error with its text.\<close>

definition safeGenerateGID :: "string + string \<Rightarrow> go_error + string" where
  "safeGenerateGID r = (case r of Inl m \<Rightarrow> Inl (OtherError m) | Inr gid \<Rightarrow> Inr gid)"

subsection \<open>Create\<close>

definition dcount :: "(dist \<Rightarrow> dist) \<Rightarrow> (dist, 'r) prog \<Rightarrow> (dist, 'r) prog" where
  "dcount f p = act (\<lambda>s. (f s, ())) (\<lambda>_. p)"

abbreviation count_replay :: "dist \<Rightarrow> dist" where
  "count_replay \<equiv> \<lambda>s. s\<lparr>ds_idempotentReplays := ds_idempotentReplays s + 1\<rparr>"

text \<open>A replay: the counter, then the reconciled payment.\<close>

definition replayed ::
  "dist_params \<Rightarrow> (nat \<Rightarrow> sql_env) \<Rightarrow> payment \<Rightarrow> (dist, go_error + create_result) prog" where
  "replayed q e p =
     dcount count_replay (bind_prog (reconcile (dp_ck q) e p) (\<lambda>p'.
       Ret (Inr \<lparr>cre_payment = p', cre_replay = True\<rparr>)))"

text \<open>\<open>payment, _ = s.repository.GetPayment(...)\<close>: an error leaves the zero value.\<close>

definition read_payment :: "dist_params \<Rightarrow> sql_env \<Rightarrow> string \<Rightarrow> (dist, go_error + create_result) prog" where
  "read_payment q e pid =
     bind_prog (repo_GetPayment (dp_ck q) (sq_fault e 0) pid) (\<lambda>r.
       Ret (Inr (created_result (case r of Inl _ \<Rightarrow> zero_payment | Inr p \<Rightarrow> p))))"

text \<open>
  \<open>payment, err = s.repository.Finalize(...)\<close>: an error overwrites the payment with the zero value that
  \<open>Finalize\<close> returns, so the read after \<open>ErrInvalidTransition\<close> asks for the empty id.
\<close>

definition finish ::
  "dist_params \<Rightarrow> sql_env \<Rightarrow> sql_env \<Rightarrow> string \<Rightarrow> payment_status \<Rightarrow> string \<Rightarrow> string \<Rightarrow>
   (dist, go_error + create_result) prog" where
  "finish q e e' pid status reason message =
     bind_prog (repo_Finalize (dp_ck q) e pid status reason message) (\<lambda>r. case r of
       Inr p \<Rightarrow> Ret (Inr (created_result p))
     | Inl err \<Rightarrow>
         if err \<noteq> ErrInvalidTransition then Ret (Inl err) else read_payment q e' (pay_id zero_payment))"

definition pending ::
  "dist_params \<Rightarrow> sql_env \<Rightarrow> sql_env \<Rightarrow> string \<Rightarrow> string \<Rightarrow> string \<Rightarrow> (dist, go_error + create_result) prog" where
  "pending q e e' pid gid message =
     bind_prog (repo_RecordEvent (dp_ck q) e pid ''DTM_RECONCILE_PENDING'' message (Some [''gid'' \<mapsto> gid]))
       (\<lambda>_. read_payment q e' pid)"

text \<open>The function passed to \<open>TccGlobalTransaction2\<close>: the account branch, the fault point, the ledger.\<close>

definition tcc_body ::
  "ServiceConfig \<Rightarrow> TCCRequest \<Rightarrow> string \<Rightarrow> branch_caller \<Rightarrow> (dist, string option) prog" where
  "tcc_body c request fault callBranch =
     bind_prog (callBranch
       \<lparr>ba_request = request, ba_try = cf_account c @ ''/internal/tcc/account/try'',
        ba_confirm = cf_account c @ ''/internal/tcc/account/confirm'',
        ba_cancel = cf_account c @ ''/internal/tcc/account/cancel''\<rparr>) (\<lambda>branchErr.
     case branchErr of
       Some m \<Rightarrow> Ret (Some m)
     | None \<Rightarrow>
         if fault = ''after_account_try'' then Ret (Some ''FAILURE'')
         else callBranch
           \<lparr>ba_request = request\<lparr>tr_fail_try := (fault = ''ledger_try'')\<rparr>,
            ba_try = cf_ledger c @ ''/internal/tcc/ledger/try'',
            ba_confirm = cf_ledger c @ ''/internal/tcc/ledger/confirm'',
            ba_cancel = cf_ledger c @ ''/internal/tcc/ledger/cancel''\<rparr>)"

definition tcc_opts :: tcc_options where
  "tcc_opts = \<lparr>to_wait_result = True, to_request_timeout = 5, to_timeout_to_fail = 15, to_retry_interval = 10\<rparr>"

text \<open>What follows the global transaction.\<close>

definition create_outcome_of ::
  "dist_params \<Rightarrow> dist_env \<Rightarrow> string \<Rightarrow> string \<Rightarrow> string \<Rightarrow> string option \<Rightarrow> (dist, go_error + create_result) prog" where
  "create_outcome_of q e pid gid fault tccErr =
     (case tccErr of
        Some m \<Rightarrow>
          bind_prog (repo_RecordEvent (dp_ck q) (de_sql e 8) pid ''DTM_TCC_ABORTED''
              ''DTM aborted the global transaction and requested Cancel''
              (Some [''gid'' \<mapsto> gid, ''reason'' \<mapsto> truncate_text m 300, ''fault'' \<mapsto> fault])) (\<lambda>_.
          bind_prog (waitForOutcome (dp_ck q) pid gid False (de_polls e)) (\<lambda>proven.
            if proven then
              finish q (de_sql e 9) (de_sql e 10) pid StatusFailed
                (truncate_text (''DTM TCC cancelled: '' @ m) 500)
                ''DTM TCC Cancel completed; no POSTED ledger entry is valid''
            else
              pending q (de_sql e 11) (de_sql e 12) pid gid
                ''DTM abort was accepted, but Cancel completion is not yet proven; payment remains PROCESSING''))
      | None \<Rightarrow>
          bind_prog (waitForOutcome (dp_ck q) pid gid True (de_polls e)) (\<lambda>proven.
            if proven then
              finish q (de_sql e 13) (de_sql e 14) pid StatusSuccess ''''
                ''DTM confirmed account and ledger branches through BranchBarrier''
            else
              pending q (de_sql e 15) (de_sql e 16) pid gid
                ''DTM accepted submit; participant confirmation is still being reconciled''))"

text \<open>From \<open>BeginTCC\<close> on.\<close>

definition create_begin ::
  "dist_params \<Rightarrow> dist_env \<Rightarrow> create_input \<Rightarrow> string \<Rightarrow> string \<Rightarrow> string \<Rightarrow> string \<Rightarrow> (dist, go_error + create_result) prog" where
  "create_begin q e input fault fingerprint pid0 gid =
     and_then (repo_BeginTCC (dp_ck q) (de_sql e 7) pid0 gid) (\<lambda>p.
     bind_prog (SetIdempotency (dp_cache q) (de_redis e 3) (ci_key input) (pay_id p) fingerprint) (\<lambda>_.
     let request = \<lparr>tr_payment = pay_id p, tr_gid = gid, tr_account = pay_account p,
                    tr_amount = pay_amount p, tr_fail_try = False\<rparr>
     in bind_prog (dp_tcc q (cf_dtm (dp_config q)) gid tcc_opts (tcc_body (dp_config q) request fault))
          (create_outcome_of q e (pay_id p) gid fault)))"

definition dist_payment :: "dist_env \<Rightarrow> create_input \<Rightarrow> string \<Rightarrow> payment" where
  "dist_payment e input gid =
     zero_payment\<lparr>pay_id := NewID ''pay'' (de_random e) (de_nano e), pay_gid := gid,
       pay_mode := ''distributed'', pay_order := ci_order input, pay_account := ci_account input,
       pay_amount := ci_amount input, pay_currency := ci_currency input, pay_status := StatusInit,
       pay_created := de_now e, pay_updated := de_now e\<rparr>"

definition create_fresh ::
  "dist_params \<Rightarrow> dist_env \<Rightarrow> create_input \<Rightarrow> string \<Rightarrow> string \<Rightarrow> (dist, go_error + create_result) prog" where
  "create_fresh q e input fault fingerprint =
     (case safeGenerateGID (de_gid e) of
        Inl err \<Rightarrow> Ret (Inl (OtherError (''generate DTM gid: '' @ error_text err)))
      | Inr gid \<Rightarrow>
          and_then (repo_CreatePayment (dp_ck q) (de_sql e 5) (dist_payment e input gid) (ci_key input) fingerprint)
            (\<lambda>(p, created).
               if \<not> created then
                 bind_prog (SetIdempotency (dp_cache q) (de_redis e 2) (ci_key input) (pay_id p) fingerprint)
                   (\<lambda>_. replayed q (\<lambda>k. de_sql e (20 + k)) p)
               else create_begin q e input fault fingerprint (pay_id p) gid))"

text \<open>The look-up in MySQL, when the cache has not answered.\<close>

definition create_lookup ::
  "dist_params \<Rightarrow> dist_env \<Rightarrow> create_input \<Rightarrow> string \<Rightarrow> string \<Rightarrow> (dist, go_error + create_result) prog" where
  "create_lookup q e input fault fingerprint =
     bind_prog (findByIdempotencyKey (dp_ck q) (sq_fault (de_sql e 4) 0) (ci_key input)) (\<lambda>r. case r of
       Inr (existing, existingFingerprint) \<Rightarrow>
         if existingFingerprint \<noteq> fingerprint then Ret (Inl ErrIdempotencyConflict)
         else
           bind_prog (SetIdempotency (dp_cache q) (de_redis e 1) (ci_key input) (pay_id existing) fingerprint)
             (\<lambda>_. replayed q (\<lambda>k. de_sql e (30 + k)) existing)
     | Inl err \<Rightarrow>
         if err \<noteq> ErrNotFound then Ret (Inl err) else create_fresh q e input fault fingerprint)"

definition create_cached ::
  "dist_params \<Rightarrow> dist_env \<Rightarrow> create_input \<Rightarrow> string \<Rightarrow> string \<Rightarrow> (dist, go_error + create_result) prog" where
  "create_cached q e input fault fingerprint =
     bind_prog (GetIdempotency (dp_cache q) (de_redis e 0) (ci_key input)) (\<lambda>hit.
       case hit of
         None \<Rightarrow> create_lookup q e input fault fingerprint
       | Some (pid, cachedFingerprint) \<Rightarrow>
           if cachedFingerprint \<noteq> fingerprint then create_lookup q e input fault fingerprint
           else
             bind_prog (repo_VerifyCachedIdempotency (dp_ck q) (sq_fault (de_sql e 0) 0) pid (ci_key input) fingerprint)
               (\<lambda>verified. case verified of
                  None \<Rightarrow> create_lookup q e input fault fingerprint
                | Some p \<Rightarrow>
                    dcount (\<lambda>s. s\<lparr>ds_cacheHits := ds_cacheHits s + 1\<rparr>)
                      (replayed q (\<lambda>k. de_sql e (1 + k)) p)))"

definition dist_Create ::
  "dist_params \<Rightarrow> dist_env \<Rightarrow> create_input \<Rightarrow> (dist, go_error + create_result) prog" where
  "dist_Create q e input0 =
     (let input1 = NormalizeCreateInput (dp_tables q) input0;
          fault = ci_fault input1;
          input = input1\<lparr>ci_fault := ''''\<rparr> in
      case ValidateCreateInput input of
        Some err \<Rightarrow> Ret (Inl err)
      | None \<Rightarrow>
          if fault \<noteq> '''' \<and> fault \<noteq> ''after_account_try'' \<and> fault \<noteq> ''ledger_try''
          then Ret (Inl (ValidationError ''distributed fault must be after_account_try or ledger_try''))
          else
            (let go = create_cached q e input fault (Fingerprint input)
             in if fault \<noteq> '''' then dcount (\<lambda>s. s\<lparr>ds_faultsInjected := ds_faultsInjected s + 1\<rparr>) go
                else go))"

subsection \<open>The other methods\<close>

definition dist_Callback ::
  "dist_params \<Rightarrow> dist_env \<Rightarrow> string \<Rightarrow> callback_input \<Rightarrow> (dist, go_error + callback_result) prog" where
  "dist_Callback q e pid i =
     (if TrimSpace (cbi_event_id i) = '''' \<or> cbi_sequence i <=s 0
      then Ret (Inl (ValidationError ''event_id and a positive sequence are required''))
      else
        and_then (repo_GetPayment (dp_ck q) (sq_fault (de_sql e 0) 0) (TrimSpace pid)) (\<lambda>p0.
        bind_prog (reconcile (dp_ck q) (\<lambda>k. de_sql e (1 + k)) p0) (\<lambda>p.
        if Terminal (pay_status p) then
          bind_prog (repo_RecordEvent (dp_ck q) (de_sql e 4) (pay_id p) ''CALLBACK_TERMINAL_IGNORED''
              ''external callback ignored because DTM payment is terminal''
              (Some [''event_id'' \<mapsto> cbi_event_id i,
                     ''callback_sequence'' \<mapsto> show_int (sint (cbi_sequence i)),
                     ''outcome'' \<mapsto> cbi_outcome i]))
            (\<lambda>_. Ret (Inr \<lparr>cr_payment = p, cr_disposition = CallbackTerminalIgnored\<rparr>))
        else Ret (Inl ErrInvalidTransition))))"

definition dist_Close :: "string \<Rightarrow> string \<Rightarrow> (dist, go_error + payment) prog" where
  "dist_Close pid reason = Ret (Inl ErrInvalidTransition)"

definition dist_Details ::
  "dist_params \<Rightarrow> dist_env \<Rightarrow> string \<Rightarrow> (dist, go_error + payment_details) prog" where
  "dist_Details q e pid =
     and_then (repo_GetPayment (dp_ck q) (sq_fault (de_sql e 0) 0) (TrimSpace pid)) (\<lambda>p0.
     bind_prog (reconcile (dp_ck q) (\<lambda>k. de_sql e (1 + k)) p0) (\<lambda>p.
     and_then (repo_Events (dp_ck q) (de_sql e 4) (pay_id p)) (\<lambda>events.
     Ret (Inr \<lparr>det_payment = p, det_events = events\<rparr>))))"

definition dist_Events :: "dist_params \<Rightarrow> dist_env \<Rightarrow> string \<Rightarrow> (dist, go_error + payment_event list) prog" where
  "dist_Events q e pid = repo_Events (dp_ck q) (de_sql e 0) (TrimSpace pid)"

fun reconcile_all ::
  "collation \<Rightarrow> (nat \<Rightarrow> sql_env) \<Rightarrow> nat \<Rightarrow> payment list \<Rightarrow> (dist, payment list) prog" where
  "reconcile_all ck e k [] = Ret []"
| "reconcile_all ck e k (p # ps) =
     bind_prog (reconcile ck (\<lambda>j. e (k + j)) p) (\<lambda>p'.
       bind_prog (reconcile_all ck e (k + 3) ps) (\<lambda>ps'. Ret (p' # ps')))"

definition dist_List :: "dist_params \<Rightarrow> dist_env \<Rightarrow> (dist, go_error + payment list) prog" where
  "dist_List q e =
     and_then (repo_ListPayments (sq_fault (de_sql e 0) 0) (de_tie e)) (\<lambda>ps.
     bind_prog (reconcile_all (dp_ck q) (de_sql e) 1 ps) (\<lambda>ps'. Ret (Inr ps')))"

definition dist_Account :: "dist_params \<Rightarrow> dist_env \<Rightarrow> string \<Rightarrow> (dist, go_error + account) prog" where
  "dist_Account q e aid = repo_Account (dp_ck q) (sq_fault (de_sql e 0) 0) (TrimSpace aid)"

definition dist_Ledger :: "dist_env \<Rightarrow> (dist, go_error + ledger_entry list) prog" where
  "dist_Ledger e = repo_Ledger (sq_fault (de_sql e 0) 0)"

definition dload :: "(dist \<Rightarrow> 'a) \<Rightarrow> (dist, 'a) prog" where
  "dload f = act (\<lambda>s. (s, f s)) Ret"

definition dist_Metrics :: "dist_env \<Rightarrow> (dist, go_error + metrics_snapshot) prog" where
  "dist_Metrics e =
     and_then (repo_Snapshot (de_sql e 0)) (\<lambda>snap.
     bind_prog (db_query (\<lambda>d. case sq_fault (de_sql e 1) 0 of Some m \<Rightarrow> 0 | None \<Rightarrow> of_nat (length (db_trans d))))
       (\<lambda>dtmCount.
     bind_prog (dload ds_started) (\<lambda>started.
     bind_prog (dload ds_cacheHits) (\<lambda>hits.
     bind_prog (dload ds_idempotentReplays) (\<lambda>replays.
     bind_prog (dload ds_faultsInjected) (\<lambda>faults.
     Ret (Inr
       \<lparr>met_mode = ''distributed'', met_uptime = unix_seconds (de_now e) - started,
        met_payments = snap_payments snap, met_by_status = snap_status_counts snap,
        met_accounts = snap_accounts snap, met_ledger = snap_ledger snap,
        met_counters = zero_counters\<lparr>paymentsCreated := of_nat (snap_payments snap),
          idempotentReplays := replays, faultsInjected := faults\<rparr>,
        met_redis_hits = hits, met_dtm = dtmCount\<rparr>)))))))"

definition dist_Reset :: "dist_params \<Rightarrow> dist_env \<Rightarrow> (dist, go_error + unit) prog" where
  "dist_Reset q e =
     and_then (repo_EnsureNoActiveTransactions (sq_fault (de_sql e 0) 0)) (\<lambda>_.
     and_then (repo_Reset (dp_ck q) (de_sql e 1)) (\<lambda>_.
     and_then (cache_Clear (dp_cache q) (de_pages e)) (\<lambda>_.
     dcount (\<lambda>s. s\<lparr>ds_cacheHits := 0\<rparr>) (dcount (\<lambda>s. s\<lparr>ds_idempotentReplays := 0\<rparr>)
     (dcount (\<lambda>s. s\<lparr>ds_faultsInjected := 0\<rparr>)
     (dcount (\<lambda>s. s\<lparr>ds_started := unix_seconds (de_now e)\<rparr>) (Ret (Inr ()))))))))"

definition dist_Transaction ::
  "dist_params \<Rightarrow> dist_env \<Rightarrow> string \<Rightarrow> (dist, go_error + transaction_view) prog" where
  "dist_Transaction q e gid =
     and_then (repo_PaymentByGID (dp_ck q) (sq_fault (de_sql e 0) 0) (TrimSpace gid)) (\<lambda>p.
     bind_prog (reconcile (dp_ck q) (\<lambda>k. de_sql e (1 + k)) p) (\<lambda>_.
     repo_Transaction (dp_ck q) (de_sql e 4) gid))"

subsection \<open>Health\<close>

fun join_text :: "string \<Rightarrow> string list \<Rightarrow> string" where
  "join_text sep [] = ''''"
| "join_text sep [x] = x"
| "join_text sep (x # y # xs) = x @ sep @ join_text sep (y # xs)"

definition health_failures :: "dist_params \<Rightarrow> health_env \<Rightarrow> string list" where
  "health_failures q h =
     (if he_mysql h \<noteq> None then [''mysql''] else []) @
     (if cache_Ping (dp_cache q) (he_redis h) \<noteq> None then [''redis''] else []) @
     filter (\<lambda>name. \<not> he_http h name) (he_order h)"

definition dist_Health :: "dist_params \<Rightarrow> dist_env \<Rightarrow> (dist, health_info \<times> go_error option) prog" where
  "dist_Health q e =
     (let h = de_health e; failures = health_failures q h;
          status = (\<lambda>name. if name \<in> set failures then ''error'' else ''ok'')
      in Ret
        (\<lparr>hi_status = (if failures = [] then ''ok'' else ''degraded''), hi_service = ''payflow-lab'',
          hi_version = ''0.2.0'', hi_mode = ''distributed'',
          hi_dependencies = Some (map_of (map (\<lambda>name. (name, status name))
            [''mysql'', ''redis'', ''dtm'', ''account'', ''ledger''])),
          hi_time = he_now h\<rparr>,
         if failures = [] then None
         else Some (OtherError (''unhealthy dependencies: '' @ join_text '','' failures))))"

end
