(* ===== verification/Participant_Books.thy ===== *)
theory Participant_Books
  imports Participant
begin

section \<open>The books of the participants\<close>

text \<open>
  The invariant that links balances and reservations, kept by every business function that
  succeeds, and by the handler around it for every barrier that commits a business function as a
  whole or not at all.
\<close>

subsection \<open>Sums over rows, one of which changes\<close>

lemma sum_list_update_unique:
  fixes f :: "'r \<Rightarrow> int"
  assumes "distinct (map key rows)" and "r \<in> set rows" and "Q r"
    and "\<And>x. x \<in> set rows \<Longrightarrow> Q x \<Longrightarrow> key x = key r"
  shows "sum_list (map f (map (\<lambda>x. if Q x then g x else x) rows)) = sum_list (map f rows) - f r + f (g r)"
  using assms
proof (induction rows)
  case (Cons y ys)
  show ?case
  proof (cases "y = r")
    case True
    have "\<forall>x\<in>set ys. \<not> Q x"
    proof
      fix x assume "x \<in> set ys"
      then have "key x \<noteq> key r" using True Cons.prems(1) by (metis distinct.simps(2) image_eqI list.map(2) set_map)
      with \<open>x \<in> set ys\<close> show "\<not> Q x" using Cons.prems(4) by auto
    qed
    then have "map (\<lambda>x. if Q x then g x else x) ys = ys" by (rule sql_update_none)
    with True Cons.prems(3) show ?thesis by (simp del: map_map)
  next
    case False
    then have r: "r \<in> set ys" using Cons.prems(2) by simp
    then have "key y \<noteq> key r" using Cons.prems(1) by (metis distinct.simps(2) image_eqI list.map(2) set_map)
    then have "\<not> Q y" using Cons.prems(4) by auto
    moreover have "sum_list (map f (map (\<lambda>x. if Q x then g x else x) ys)) = sum_list (map f ys) - f r + f (g r)"
    proof (rule Cons.IH)
      show "distinct (map key ys)" using Cons.prems(1) by simp
      show "key x = key r" if "x \<in> set ys" "Q x" for x using that by (intro Cons.prems(4)) simp_all
    qed (rule r Cons.prems(3))+
    ultimately show ?thesis by (simp del: map_map)
  qed
qed simp

lemma filter_hit: "length (filter P rows) = 1 \<Longrightarrow> \<exists>r\<in>set rows. P r"
  by (metis One_nat_def filter_False length_0_conv zero_neq_one)

lemma distinct_key: "distinct (map key rows) \<Longrightarrow> x \<in> set rows \<Longrightarrow> y \<in> set rows \<Longrightarrow> key x = key y \<Longrightarrow> x = y"
  by (auto simp: distinct_map dest: inj_onD)

subsection \<open>The invariant\<close>

definition row_total :: "(reservation_row \<Rightarrow> bool) \<Rightarrow> reservation_row list \<Rightarrow> int" where
  "row_total P rows = sum_list (map (\<lambda>r. if P r then sint (rr_amount r) else 0) rows)"

definition held_rows :: "collation \<Rightarrow> reservation_state \<Rightarrow> string \<Rightarrow> db \<Rightarrow> int" where
  "held_rows ck st aid d = row_total (\<lambda>r. ck (rr_account r) = ck aid \<and> rr_status r = st) (db_reservations d)"

definition tcc_ok :: "collation \<Rightarrow> db \<Rightarrow> bool" where
  "tcc_ok ck d \<longleftrightarrow>
     distinct (map (ck \<circ> acc_id) (db_accounts d)) \<and>
     distinct (map (ck \<circ> rr_gid) (db_reservations d)) \<and>
     (\<forall>r\<in>set (db_reservations d). 0 < sint (rr_amount r)) \<and>
     (\<forall>a\<in>set (db_accounts d).
        0 \<le> sint (acc_available a) \<and> sint (acc_frozen a) = held_rows ck FROZEN (acc_id a) d)"

text \<open>What an account had at first: what it has and what confirmed reservations took.\<close>

definition account_total :: "collation \<Rightarrow> db \<Rightarrow> account \<Rightarrow> int" where
  "account_total ck d a =
     sint (acc_available a) + sint (acc_frozen a) + held_rows ck CONFIRMED (acc_id a) d"

definition totals_kept :: "collation \<Rightarrow> db \<Rightarrow> db \<Rightarrow> bool" where
  "totals_kept ck d d' \<longleftrightarrow>
     map (\<lambda>a. (acc_id a, account_total ck d a)) (db_accounts d) =
     map (\<lambda>a. (acc_id a, account_total ck d' a)) (db_accounts d')"

text \<open>
  A reservation row keeps its data, and its status moves from FROZEN on at most once; rows are
  added at the end.
\<close>

definition res_row_moves :: "reservation_row \<Rightarrow> reservation_row \<Rightarrow> bool" where
  "res_row_moves r r' \<longleftrightarrow>
     rr_gid r' = rr_gid r \<and> rr_payment r' = rr_payment r \<and> rr_account r' = rr_account r \<and>
     rr_amount r' = rr_amount r \<and> (rr_status r' = rr_status r \<or> rr_status r = FROZEN)"

definition ledger_row_moves :: "ledger_row \<Rightarrow> ledger_row \<Rightarrow> bool" where
  "ledger_row_moves r r' \<longleftrightarrow>
     lr_id r' = lr_id r \<and> lr_gid r' = lr_gid r \<and> lr_payment r' = lr_payment r \<and>
     lr_account r' = lr_account r \<and> lr_amount r' = lr_amount r \<and> lr_direction r' = lr_direction r \<and>
     (lr_status r' = lr_status r \<or> lr_status r = PREPARED)"

definition rows_grow :: "('r \<Rightarrow> 'r \<Rightarrow> bool) \<Rightarrow> 'r list \<Rightarrow> 'r list \<Rightarrow> bool" where
  "rows_grow R rows rows' \<longleftrightarrow>
     length rows \<le> length rows' \<and> (\<forall>i<length rows. R (rows ! i) (rows' ! i))"

lemma rows_grow_refl: "(\<And>r. R r r) \<Longrightarrow> rows_grow R rows rows"
  by (simp add: rows_grow_def)

lemma rows_grow_append: "(\<And>r. R r r) \<Longrightarrow> rows_grow R rows (rows @ [r])"
  by (simp add: rows_grow_def nth_append)

lemma rows_grow_update:
  "(\<And>r. R r r) \<Longrightarrow> (\<And>r. r \<in> set rows \<Longrightarrow> Q r \<Longrightarrow> R r (g r)) \<Longrightarrow>
   rows_grow R rows (map (\<lambda>r. if Q r then g r else r) rows)"
  by (simp add: rows_grow_def)

lemma rows_grow_trans:
  assumes "\<And>r s t. R r s \<Longrightarrow> R s t \<Longrightarrow> R r t" and "rows_grow R rows rows'" and "rows_grow R rows' rows''"
  shows "rows_grow R rows rows''"
  unfolding rows_grow_def
proof (intro conjI allI impI)
  show "length rows \<le> length rows''" using assms(2,3) by (simp add: rows_grow_def)
  fix i assume "i < length rows"
  then have "R (rows ! i) (rows' ! i)" "R (rows' ! i) (rows'' ! i)"
    using assms(2,3) by (simp_all add: rows_grow_def)
  then show "R (rows ! i) (rows'' ! i)" by (rule assms(1))
qed

lemma rows_grow_member:
  "rows_grow R rows rows' \<Longrightarrow> r \<in> set rows \<Longrightarrow> \<exists>r'\<in>set rows'. R r r'"
  unfolding rows_grow_def in_set_conv_nth by (metis nth_mem order_less_le_trans)

lemma row_moves_refl [simp]: "res_row_moves r r" "ledger_row_moves l l"
  by (simp_all add: res_row_moves_def ledger_row_moves_def)

lemma row_moves_trans:
  "res_row_moves r s \<Longrightarrow> res_row_moves s t \<Longrightarrow> res_row_moves r t"
  "ledger_row_moves l m \<Longrightarrow> ledger_row_moves m n \<Longrightarrow> ledger_row_moves l n"
  by (auto simp: res_row_moves_def ledger_row_moves_def)

text \<open>What a participant may do to the database.\<close>

definition branch_moves :: "collation \<Rightarrow> db \<Rightarrow> db \<Rightarrow> bool" where
  "branch_moves ck d d' \<longleftrightarrow>
     totals_kept ck d d' \<and>
     rows_grow res_row_moves (db_reservations d) (db_reservations d') \<and>
     rows_grow ledger_row_moves (db_ledger d) (db_ledger d') \<and>
     db_payments d' = db_payments d \<and> db_events d' = db_events d \<and> db_trans d' = db_trans d \<and>
     db_branch_ops d' = db_branch_ops d"

lemma branch_moves_refl: "branch_moves ck d d"
  by (simp add: branch_moves_def totals_kept_def rows_grow_refl)

lemma branch_moves_trans:
  assumes "branch_moves ck d e" and "branch_moves ck e f"
  shows "branch_moves ck d f"
  using assms rows_grow_trans [of res_row_moves "db_reservations d" "db_reservations e" "db_reservations f"]
    rows_grow_trans [of ledger_row_moves "db_ledger d" "db_ledger e" "db_ledger f"] row_moves_trans
  by (auto simp: branch_moves_def totals_kept_def)

subsection \<open>One account and one reservation change together\<close>

lemma sint64_of_int: "- (2 ^ 63) \<le> i \<Longrightarrow> i < 2 ^ 63 \<Longrightarrow> sint (word_of_int i :: int64) = i"
  by (simp add: signed_of_int signed_take_bit_int_eq_self)

lemma set_cents_fields:
  assumes "set_cents av fr now a = Some a'"
  shows "acc_id a' = acc_id a" and "sint (acc_available a') = av" and "sint (acc_frozen a') = fr" and "0 \<le> av"
  using assms
  by (auto simp: set_cents_def cents_ok_def sint64_of_int split: if_splits)

lemma set_cents_None: "set_cents av fr now a = None \<longleftrightarrow> \<not> (cents_ok av \<and> cents_ok fr)"
  by (simp add: set_cents_def)

lemma money_step:
  assumes ok: "tcc_ok ck d" and P: "\<And>a. P a \<Longrightarrow> ck (acc_id a) = ck k"
    and upd: "sql_update P (\<lambda>a. set_cents (F a) (G a) now a) (db_accounts d) = Inr (rows, 1)"
    and F: "\<And>a. F a = sint (acc_available a) + x" and G: "\<And>a. G a = sint (acc_frozen a) + f"
    and d': "db_accounts d' = rows" "distinct (map (ck \<circ> rr_gid) (db_reservations d'))"
      "\<forall>r\<in>set (db_reservations d'). 0 < sint (rr_amount r)"
    and held: "\<And>aid. held_rows ck FROZEN aid d' = held_rows ck FROZEN aid d + (if ck k = ck aid then f else 0)"
    and conf: "\<And>aid. held_rows ck CONFIRMED aid d' = held_rows ck CONFIRMED aid d + (if ck k = ck aid then c else 0)"
    and sum: "x + f + c = 0"
  shows "tcc_ok ck d' \<and> totals_kept ck d d'"
proof -
  define g where "g a = (if P a then the (set_cents (F a) (G a) now a) else a)" for a
  have some: "\<exists>a'. set_cents (F a) (G a) now a = Some a'" if "a \<in> set (db_accounts d)" "P a" for a
    using upd that by (auto simp: sql_update_Inr set_cents_def)
  have rows: "db_accounts d' = map g (db_accounts d)" and one: "length (filter P (db_accounts d)) = 1"
    using upd d'(1) by (auto simp: sql_update_Inr g_def)
  obtain h where h: "h \<in> set (db_accounts d)" "P h" using filter_hit [OF one] by blast
  have other: "ck (acc_id a) \<noteq> ck k" if "a \<in> set (db_accounts d)" "\<not> P a" for a
  proof
    assume "ck (acc_id a) = ck k"
    then have "(ck \<circ> acc_id) a = (ck \<circ> acc_id) h" using P [OF h(2)] by simp
    moreover have "distinct (map (ck \<circ> acc_id) (db_accounts d))" using ok by (simp add: tcc_ok_def)
    ultimately have "a = h" using that(1) h(1) by (blast intro: distinct_key)
    with that h show False by simp
  qed
  have row: "acc_id (g a) = acc_id a \<and> 0 \<le> sint (acc_available (g a)) \<and>
      sint (acc_frozen (g a)) = held_rows ck FROZEN (acc_id a) d' \<and>
      account_total ck d' (g a) = account_total ck d a" if a: "a \<in> set (db_accounts d)" for a
  proof -
    have old: "0 \<le> sint (acc_available a)" "sint (acc_frozen a) = held_rows ck FROZEN (acc_id a) d"
      using ok a by (auto simp: tcc_ok_def)
    show ?thesis
    proof (cases "P a")
      case True
      then obtain a' where a': "set_cents (F a) (G a) now a = Some a'" using some a by blast
      then have g: "g a = a'" using True by (simp add: g_def)
      have "ck k = ck (acc_id a)" using P [OF True] by simp
      with set_cents_fields [OF a'] old F [of a] G [of a] sum show ?thesis
        unfolding g by (simp add: held account_total_def conf)
    next
      case False
      then show ?thesis using other [OF a] old by (auto simp: held conf account_total_def g_def)
    qed
  qed
  have "map (ck \<circ> acc_id) (db_accounts d') = map (ck \<circ> acc_id) (db_accounts d)"
    unfolding rows using row by simp
  moreover have "totals_kept ck d d'"
    unfolding totals_kept_def rows using row by simp
  moreover have "\<forall>a\<in>set (db_accounts d'). 0 \<le> sint (acc_available a) \<and>
      sint (acc_frozen a) = held_rows ck FROZEN (acc_id a) d'"
    unfolding rows using row by auto
  ultimately show ?thesis using ok d'(2,3) by (simp add: tcc_ok_def)
qed

text \<open>A new FROZEN row; a FROZEN row that becomes CONFIRMED or CANCELLED.\<close>

lemma held_append:
  "db_reservations d' = db_reservations d @ [r] \<Longrightarrow>
   held_rows ck st aid d' = held_rows ck st aid d +
     (if ck (rr_account r) = ck aid then (if rr_status r = st then sint (rr_amount r) else 0) else 0)"
  by (simp add: held_rows_def row_total_def)

lemma held_mark:
  assumes ok: "tcc_ok ck d" and r: "r \<in> set (db_reservations d)" "reservation_of ck rq r" "rr_status r = FROZEN"
    and d': "db_reservations d' = map (\<lambda>x. if reservation_of ck rq x \<and> rr_status x = FROZEN
      then x\<lparr>rr_status := status, rr_updated := now\<rparr> else x) (db_reservations d)"
    and st: "status \<noteq> FROZEN"
  shows "held_rows ck FROZEN aid d' = held_rows ck FROZEN aid d +
      (if ck (rr_account r) = ck aid then - sint (rr_amount r) else 0)"
    and "held_rows ck CONFIRMED aid d' = held_rows ck CONFIRMED aid d +
      (if ck (rr_account r) = ck aid then (if status = CONFIRMED then sint (rr_amount r) else 0) else 0)"
proof -
  have dist: "distinct (map (ck \<circ> rr_gid) (db_reservations d))" using ok by (simp add: tcc_ok_def)
  have upd: "held_rows ck s aid d' = held_rows ck s aid d
      - (if ck (rr_account r) = ck aid \<and> rr_status r = s then sint (rr_amount r) else 0)
      + (if ck (rr_account r) = ck aid \<and> status = s then sint (rr_amount r) else 0)" for s
  proof -
    let ?f = "\<lambda>x. if ck (rr_account x) = ck aid \<and> rr_status x = s then sint (rr_amount x) else 0"
    have "sum_list (map ?f (db_reservations d')) = sum_list (map ?f (db_reservations d)) - ?f r
        + ?f (r\<lparr>rr_status := status, rr_updated := now\<rparr>)"
      unfolding d'
    proof (rule sum_list_update_unique [OF dist r(1)])
      show "reservation_of ck rq r \<and> rr_status r = FROZEN" using r(2,3) by simp
      fix x assume "reservation_of ck rq x \<and> rr_status x = FROZEN"
      with r(2) show "(ck \<circ> rr_gid) x = (ck \<circ> rr_gid) r" by (simp add: reservation_of_def)
    qed
    then show ?thesis by (simp add: held_rows_def row_total_def)
  qed
  show "held_rows ck FROZEN aid d' = held_rows ck FROZEN aid d +
      (if ck (rr_account r) = ck aid then - sint (rr_amount r) else 0)"
    and "held_rows ck CONFIRMED aid d' = held_rows ck CONFIRMED aid d +
      (if ck (rr_account r) = ck aid then (if status = CONFIRMED then sint (rr_amount r) else 0) else 0)"
    using upd [of FROZEN] upd [of CONFIRMED] r(3) st by auto
qed

subsection \<open>The business functions that succeed\<close>

lemma insert_reservation_Inr:
  "insert_reservation ck r d = Inr d' \<longleftrightarrow>
     (\<forall>x\<in>set (db_reservations d). ck (rr_gid x) \<noteq> ck (rr_gid r) \<and> ck (rr_payment x) \<noteq> ck (rr_payment r)) \<and>
     (\<exists>p\<in>set (db_payments d). ck (pr_id p) = ck (rr_payment r)) \<and>
     (\<exists>a\<in>set (db_accounts d). ck (acc_id a) = ck (rr_account r)) \<and>
     d' = d\<lparr>db_reservations := db_reservations d @ [r]\<rparr>"
  by (auto simp: insert_reservation_def list_ex_iff)

lemma insert_ledger_Inr:
  "insert_ledger ck r d = Inr d' \<longleftrightarrow>
     (\<forall>x\<in>set (db_ledger d). lr_id x \<noteq> lr_id r \<and> ck (lr_gid x) \<noteq> ck (lr_gid r) \<and>
        (ck (lr_payment x) \<noteq> ck (lr_payment r) \<or> ck (lr_direction x) \<noteq> ck (lr_direction r))) \<and>
     (\<exists>p\<in>set (db_payments d). ck (pr_id p) = ck (lr_payment r)) \<and>
     d' = d\<lparr>db_ledger := db_ledger d @ [r]\<rparr>"
  by (auto simp: insert_ledger_def list_ex_iff)

definition new_reservation :: "sql_env \<Rightarrow> TCCRequest \<Rightarrow> reservation_row" where
  "new_reservation e rq =
     \<lparr>rr_gid = tr_gid rq, rr_payment = tr_payment rq, rr_account = tr_account rq,
      rr_amount = tr_amount rq, rr_status = FROZEN, rr_created = sq_now e 1, rr_updated = sq_now e 1\<rparr>"

lemma accountTry_Inr:
  assumes "accountTry ck e rq d = (d', Inr ())"
  obtains rows d1 where "\<not> bad_request rq" "insert_reservation ck (new_reservation e rq) d = Inr d1"
    "sql_update (\<lambda>a. ck (acc_id a) = ck (tr_account rq) \<and> \<not> acc_available a <s tr_amount rq)
       (\<lambda>a. set_cents (sint (acc_available a) - sint (tr_amount rq))
          (sint (acc_frozen a) + sint (tr_amount rq)) (sq_now e 2) a) (db_accounts d) = Inr (rows, 1)"
    "d' = d1\<lparr>db_accounts := rows\<rparr>"
proof -
  from assms obtain d1 where "\<not> bad_request rq"
    and d1: "insert_reservation ck (new_reservation e rq) d = Inr d1"
    and upd: "\<exists>rows. sql_update (\<lambda>a. ck (acc_id a) = ck (tr_account rq) \<and> \<not> acc_available a <s tr_amount rq)
       (\<lambda>a. set_cents (sint (acc_available a) - sint (tr_amount rq))
          (sint (acc_frozen a) + sint (tr_amount rq)) (sq_now e 2) a) (db_accounts d1) = Inr (rows, 1) \<and>
       d' = d1\<lparr>db_accounts := rows\<rparr>"
    by (auto simp: accountTry_def new_reservation_def split: if_splits sum.splits prod.splits)
  moreover have "db_accounts d1 = db_accounts d" using d1 by (simp add: insert_reservation_Inr)
  ultimately show thesis using that by auto
qed

lemma accountTry_books:
  assumes ok: "tcc_ok ck d" and run: "accountTry ck e rq d = (d', Inr ())"
  shows "tcc_ok ck d' \<and> branch_moves ck d d'"
  using run
proof (rule accountTry_Inr)
  fix rows d1
  assume rq: "\<not> bad_request rq" and ins: "insert_reservation ck (new_reservation e rq) d = Inr d1"
    and upd: "sql_update (\<lambda>a. ck (acc_id a) = ck (tr_account rq) \<and> \<not> acc_available a <s tr_amount rq)
       (\<lambda>a. set_cents (sint (acc_available a) - sint (tr_amount rq))
          (sint (acc_frozen a) + sint (tr_amount rq)) (sq_now e 2) a) (db_accounts d) = Inr (rows, 1)"
    and d': "d' = d1\<lparr>db_accounts := rows\<rparr>"
  let ?r = "new_reservation e rq"
  have res: "db_reservations d' = db_reservations d @ [?r]" using ins d' by (simp add: insert_reservation_Inr)
  have "tcc_ok ck d' \<and> totals_kept ck d d'"
  proof (rule money_step [OF ok _ upd, where k = "tr_account rq" and x = "- sint (tr_amount rq)"
        and f = "sint (tr_amount rq)" and c = 0])
    show "db_accounts d' = rows" using d' by simp
    show "distinct (map (ck \<circ> rr_gid) (db_reservations d'))"
      using ok ins by (auto simp: tcc_ok_def res insert_reservation_Inr)
    show "\<forall>r\<in>set (db_reservations d'). 0 < sint (rr_amount r)"
      using ok rq by (auto simp: tcc_ok_def res bad_request_def new_reservation_def word_sle_eq)
    show "held_rows ck FROZEN aid d' = held_rows ck FROZEN aid d +
        (if ck (tr_account rq) = ck aid then sint (tr_amount rq) else 0)" for aid
      by (simp add: held_append [OF res] new_reservation_def)
    show "held_rows ck CONFIRMED aid d' = held_rows ck CONFIRMED aid d +
        (if ck (tr_account rq) = ck aid then 0 else 0)" for aid
      by (simp add: held_append [OF res] new_reservation_def)
  qed simp_all
  moreover have "rows_grow res_row_moves (db_reservations d) (db_reservations d')"
    unfolding res by (rule rows_grow_append) simp
  moreover have "rows_grow ledger_row_moves (db_ledger d) (db_ledger d')"
    using ins d' by (simp add: insert_reservation_Inr rows_grow_refl)
  ultimately show ?thesis using ins d' by (simp add: branch_moves_def insert_reservation_Inr)
qed

text \<open>Confirm and Cancel of the account: a FROZEN reservation is settled, all else is left alone.\<close>

lemma settle_books:
  assumes ok: "tcc_ok ck d" and r: "r \<in> set (db_reservations d)" "reservation_of ck rq r" "rr_status r = FROZEN"
    and av: "\<And>amount a. av amount a = sint (acc_available a) + (if status = CONFIRMED then 0 else sint amount)"
    and st: "status \<noteq> FROZEN"
    and run: "settle_reservation ck e rq r av status d = (d', Inr ())"
  shows "tcc_ok ck d' \<and> branch_moves ck d d'"
proof -
  let ?Q = "\<lambda>x. reservation_of ck rq x \<and> rr_status x = FROZEN"
  from run obtain rows where upd: "sql_update
      (\<lambda>a. ck (acc_id a) = ck (rr_account r) \<and> \<not> acc_frozen a <s rr_amount r)
      (\<lambda>a. set_cents (av (rr_amount r) a) (sint (acc_frozen a) - sint (rr_amount r)) (sq_now e 1) a)
      (db_accounts d) = Inr (rows, 1)"
    and d': "d' = d\<lparr>db_accounts := rows, db_reservations := map (\<lambda>x. if ?Q x
        then x\<lparr>rr_status := status, rr_updated := sq_now e 2\<rparr> else x) (db_reservations d)\<rparr>"
    by (auto simp: settle_reservation_def Let_def sql_update_Inr split: if_splits sum.splits prod.splits)
  have res: "db_reservations d' = map (\<lambda>x. if ?Q x
      then x\<lparr>rr_status := status, rr_updated := sq_now e 2\<rparr> else x) (db_reservations d)"
    by (simp add: d')
  have "tcc_ok ck d' \<and> totals_kept ck d d'"
  proof (rule money_step [OF ok _ upd, where k = "rr_account r" and f = "- sint (rr_amount r)"
        and x = "if status = CONFIRMED then 0 else sint (rr_amount r)"
        and c = "if status = CONFIRMED then sint (rr_amount r) else 0"])
    show "db_accounts d' = rows" by (simp add: d')
    have "map (ck \<circ> rr_gid) (db_reservations d') = map (ck \<circ> rr_gid) (db_reservations d)"
      by (simp add: res)
    then show "distinct (map (ck \<circ> rr_gid) (db_reservations d'))" using ok by (simp add: tcc_ok_def)
    show "\<forall>r\<in>set (db_reservations d'). 0 < sint (rr_amount r)" using ok by (auto simp: tcc_ok_def res)
  qed (use av st held_mark [OF ok r res] in auto)
  moreover have "rows_grow res_row_moves (db_reservations d) (db_reservations d')"
    unfolding res by (rule rows_grow_update) (auto simp: res_row_moves_def)
  ultimately show ?thesis by (simp add: branch_moves_def d' rows_grow_refl)
qed

lemma accountConfirm_books:
  assumes ok: "tcc_ok ck d" and run: "accountConfirm ck e rq d = (d', Inr ())"
  shows "tcc_ok ck d' \<and> branch_moves ck d d'"
proof (cases "query_row (sq_fault e 0) (reservation_of ck rq) (db_reservations d)")
  case (Inl err)
  with run ok show ?thesis by (auto simp: accountConfirm_def branch_moves_refl split: if_splits)
next
  case (Inr r)
  show ?thesis
  proof (cases "rr_status r = FROZEN")
    case True
    with run Inr have "settle_reservation ck e rq r (\<lambda>amount a. sint (acc_available a)) CONFIRMED d = (d', Inr ())"
      by (simp add: accountConfirm_def)
    with query_row_Inr [OF Inr] True ok show ?thesis by (intro settle_books) auto
  next
    case False
    with run Inr ok show ?thesis by (auto simp: accountConfirm_def branch_moves_refl split: if_splits)
  qed
qed

lemma accountCancel_books:
  assumes ok: "tcc_ok ck d" and run: "accountCancel ck e rq d = (d', Inr ())"
  shows "tcc_ok ck d' \<and> branch_moves ck d d'"
proof (cases "query_row (sq_fault e 0) (reservation_of ck rq) (db_reservations d)")
  case (Inl err)
  with run ok show ?thesis by (auto simp: accountCancel_def branch_moves_refl split: if_splits)
next
  case (Inr r)
  show ?thesis
  proof (cases "rr_status r = FROZEN")
    case True
    with run Inr have "settle_reservation ck e rq r (\<lambda>amount a. sint (acc_available a) + sint amount) CANCELLED d = (d', Inr ())"
      by (simp add: accountCancel_def)
    with query_row_Inr [OF Inr] True ok show ?thesis by (intro settle_books) auto
  next
    case False
    with run Inr ok show ?thesis by (auto simp: accountCancel_def branch_moves_refl split: if_splits)
  qed
qed

text \<open>The ledger service touches the ledger only.\<close>

lemma ledger_only:
  "tcc_ok ck d \<Longrightarrow> rows_grow ledger_row_moves (db_ledger d) rows \<Longrightarrow>
   tcc_ok ck (d\<lparr>db_ledger := rows\<rparr>) \<and> branch_moves ck d (d\<lparr>db_ledger := rows\<rparr>)"
  by (simp add: tcc_ok_def held_rows_def branch_moves_def totals_kept_def account_total_def rows_grow_refl)

lemma move_ledger_grows:
  "move_ledger ck rq status now d = Inr (rows, n) \<Longrightarrow> rows_grow ledger_row_moves (db_ledger d) rows"
  unfolding move_ledger_def sql_update_Inr
  by (auto intro!: rows_grow_update simp: ledger_row_moves_def)

lemma ledger_books:
  assumes ok: "tcc_ok ck d"
  shows "ledgerTry ck e rq d = (d', Inr ()) \<Longrightarrow> tcc_ok ck d' \<and> branch_moves ck d d'"
    and "ledgerConfirm ck e rq d = (d', Inr ()) \<Longrightarrow> tcc_ok ck d' \<and> branch_moves ck d d'"
    and "ledgerCancel ck e rq d = (d', Inr ()) \<Longrightarrow> tcc_ok ck d' \<and> branch_moves ck d d'"
proof -
  assume "ledgerTry ck e rq d = (d', Inr ())"
  then obtain r where "d' = d\<lparr>db_ledger := db_ledger d @ [r]\<rparr>"
    by (auto simp: ledgerTry_def insert_ledger_Inr split: if_splits sum.splits)
  then show "tcc_ok ck d' \<and> branch_moves ck d d'" using ledger_only [OF ok] by (simp add: rows_grow_append)
next
  assume "ledgerConfirm ck e rq d = (d', Inr ())"
  then obtain rows n where "move_ledger ck rq POSTED (sq_now e 0) d = Inr (rows, n)" "d' = d\<lparr>db_ledger := rows\<rparr>"
    by (auto simp: ledgerConfirm_def Let_def split: if_splits sum.splits)
  then show "tcc_ok ck d' \<and> branch_moves ck d d'" using ledger_only [OF ok] move_ledger_grows by simp
next
  assume "ledgerCancel ck e rq d = (d', Inr ())"
  then obtain rows n where "move_ledger ck rq VOIDED (sq_now e 0) d = Inr (rows, n)" "d' = d\<lparr>db_ledger := rows\<rparr>"
    by (auto simp: ledgerCancel_def split: sum.splits)
  then show "tcc_ok ck d' \<and> branch_moves ck d d'" using ledger_only [OF ok] move_ledger_grows by simp
qed

lemma business_books:
  assumes "tcc_ok ck d" and "business_of sv bop ck e rq d = (d', Inr ())"
  shows "tcc_ok ck d' \<and> branch_moves ck d d'"
proof (cases sv)
  case AccountService
  with assms show ?thesis
    by (cases bop) (auto dest: accountTry_books accountConfirm_books accountCancel_books)
next
  case LedgerService
  with assms show ?thesis by (cases bop) (auto dest: ledger_books)
qed

subsection \<open>Settling what was just frozen\<close>

lemma held_rows_nonneg: "tcc_ok ck d \<Longrightarrow> 0 \<le> held_rows ck st aid d"
  unfolding held_rows_def row_total_def tcc_ok_def by (intro sum_list_nonneg) (auto simp: less_imp_le)

text \<open>The one account that a guarded update hits is the one with the id.\<close>

lemma hit_account:
  assumes ok: "tcc_ok ck d" and one: "length (filter P (db_accounts d)) = 1"
    and P: "\<And>a. P a \<Longrightarrow> ck (acc_id a) = ck k" and a: "a \<in> set (db_accounts d)"
  shows "P a \<longleftrightarrow> ck (acc_id a) = ck k"
proof
  assume k: "ck (acc_id a) = ck k"
  obtain h where h: "h \<in> set (db_accounts d)" "P h" using filter_hit [OF one] by blast
  have "distinct (map (ck \<circ> acc_id) (db_accounts d))" using ok by (simp add: tcc_ok_def)
  with a h k P [OF h(2)] have "a = h" by (auto dest: distinct_key [where key = "ck \<circ> acc_id"])
  with h(2) show "P a" by simp
qed (rule P)

text \<open>The accounts after a successful Try.\<close>

definition frozen_account :: "collation \<Rightarrow> sql_env \<Rightarrow> TCCRequest \<Rightarrow> account \<Rightarrow> account" where
  "frozen_account ck e rq a =
     (if ck (acc_id a) = ck (tr_account rq)
      then a\<lparr>acc_available := word_of_int (sint (acc_available a) - sint (tr_amount rq)),
             acc_frozen := word_of_int (sint (acc_frozen a) + sint (tr_amount rq)), acc_updated := sq_now e 2\<rparr>
      else a)"

lemma accountTry_result:
  assumes ok: "tcc_ok ck d" and run: "accountTry ck e rq d = (d', Inr ())"
  shows "db_accounts d' = map (frozen_account ck e rq) (db_accounts d)"
    and "db_reservations d' = db_reservations d @ [new_reservation e rq]"
    and "\<forall>a\<in>set (db_accounts d). ck (acc_id a) = ck (tr_account rq) \<longrightarrow>
      cents_ok (sint (acc_available a) - sint (tr_amount rq)) \<and> cents_ok (sint (acc_frozen a) + sint (tr_amount rq))"
    and "\<exists>a\<in>set (db_accounts d). ck (acc_id a) = ck (tr_account rq)"
    and "\<forall>x\<in>set (db_reservations d). \<not> reservation_of ck rq x" and "0 < sint (tr_amount rq)"
proof -
  let ?P = "\<lambda>a. ck (acc_id a) = ck (tr_account rq) \<and> \<not> acc_available a <s tr_amount rq"
  from run obtain rows d1 where rq: "\<not> bad_request rq"
    and ins: "insert_reservation ck (new_reservation e rq) d = Inr d1"
    and upd: "sql_update ?P (\<lambda>a. set_cents (sint (acc_available a) - sint (tr_amount rq))
        (sint (acc_frozen a) + sint (tr_amount rq)) (sq_now e 2) a) (db_accounts d) = Inr (rows, 1)"
    and d': "d' = d1\<lparr>db_accounts := rows\<rparr>"
    by (rule accountTry_Inr)
  have one: "length (filter ?P (db_accounts d)) = 1" using upd by (simp add: sql_update_Inr)
  have hit: "?P a \<longleftrightarrow> ck (acc_id a) = ck (tr_account rq)" if "a \<in> set (db_accounts d)" for a
    using hit_account [OF ok one, of "tr_account rq" a] that by simp
  have some: "set_cents (sint (acc_available a) - sint (tr_amount rq)) (sint (acc_frozen a) + sint (tr_amount rq))
      (sq_now e 2) a \<noteq> None" if "a \<in> set (db_accounts d)" "ck (acc_id a) = ck (tr_account rq)" for a
    using upd that hit by (simp add: sql_update_Inr)
  show "\<forall>a\<in>set (db_accounts d). ck (acc_id a) = ck (tr_account rq) \<longrightarrow>
      cents_ok (sint (acc_available a) - sint (tr_amount rq)) \<and> cents_ok (sint (acc_frozen a) + sint (tr_amount rq))"
    using some by (simp add: set_cents_None)
  then have "(if ?P a then the (set_cents (sint (acc_available a) - sint (tr_amount rq))
      (sint (acc_frozen a) + sint (tr_amount rq)) (sq_now e 2) a) else a) = frozen_account ck e rq a"
    if "a \<in> set (db_accounts d)" for a
    using hit [OF that] that by (simp add: frozen_account_def set_cents_def)
  then show "db_accounts d' = map (frozen_account ck e rq) (db_accounts d)"
    using upd d' by (simp add: sql_update_Inr)
  show "db_reservations d' = db_reservations d @ [new_reservation e rq]"
    using ins d' by (simp add: insert_reservation_Inr)
  show "\<exists>a\<in>set (db_accounts d). ck (acc_id a) = ck (tr_account rq)" using filter_hit [OF one] by blast
  show "\<forall>x\<in>set (db_reservations d). \<not> reservation_of ck rq x"
    using ins by (auto simp: insert_reservation_Inr reservation_of_def new_reservation_def)
  show "0 < sint (tr_amount rq)" using rq by (simp add: bad_request_def word_sle_eq)
qed

lemma one_with_key:
  "distinct (map key rows) \<Longrightarrow> r \<in> set rows \<Longrightarrow> key r = k \<Longrightarrow> length (filter (\<lambda>x. key x = k) rows) = 1"
proof (induction rows)
  case (Cons y ys)
  show ?case
  proof (cases "key y = k")
    case True
    with Cons.prems(1) have "\<forall>x\<in>set ys. key x \<noteq> k" by (metis distinct.simps(2) image_eqI list.map(2) set_map)
    then have "filter (\<lambda>x. key x = k) ys = []" by (simp add: filter_empty_conv)
    with True show ?thesis by simp
  next
    case False
    with Cons show ?thesis by auto
  qed
qed simp

lemma sql_update_total:
  "sql_update P (\<lambda>r. Some (g r)) rows = Inr (map (\<lambda>r. if P r then g r else r) rows, length (filter P rows))"
  by (simp add: sql_update_Inr)

lemma cents_sint: "cents_ok i \<Longrightarrow> sint (word_of_int i :: int64) = i"
  by (simp add: cents_ok_def sint64_of_int)

lemma settle_after_try:
  assumes ok: "tcc_ok ck d" and run: "accountTry ck e rq d = (d1, Inr ())"
    and clean: "\<And>k. sq_fault e' k = None"
    and av: "\<And>a. av (tr_amount rq) a = sint (acc_available a) + y" and y: "y = 0 \<or> y = sint (tr_amount rq)"
  shows "\<exists>d2. settle_reservation ck e' rq (new_reservation e rq) av status d1 = (d2, Inr ()) \<and>
    db_reservations d2 = db_reservations d @ [(new_reservation e rq)\<lparr>rr_status := status, rr_updated := sq_now e' 2\<rparr>] \<and>
    map (\<lambda>a. (acc_id a, sint (acc_available a), sint (acc_frozen a))) (db_accounts d2) =
    map (\<lambda>a. (acc_id a, sint (acc_available a) - (if ck (acc_id a) = ck (tr_account rq) then sint (tr_amount rq) - y else 0),
        sint (acc_frozen a))) (db_accounts d)"
proof -
  let ?amt = "sint (tr_amount rq)" and ?r = "new_reservation e rq"
  let ?K = "\<lambda>a. ck (acc_id a) = ck (tr_account rq)"
  let ?P = "\<lambda>a. ?K a \<and> \<not> acc_frozen a <s tr_amount rq"
  let ?S = "\<lambda>a. set_cents (av (tr_amount rq) a) (sint (acc_frozen a) - ?amt) (sq_now e' 1) a"
  note res = accountTry_result [OF ok run]
  have b: "?P (frozen_account ck e rq a) = ?K a \<and>
      (?K a \<longrightarrow> (\<exists>c. ?S (frozen_account ck e rq a) = Some c \<and> acc_id c = acc_id a \<and>
        sint (acc_available c) = sint (acc_available a) - (?amt - y) \<and> sint (acc_frozen c) = sint (acc_frozen a)))"
    if a: "a \<in> set (db_accounts d)" for a
  proof (cases "?K a")
    case True
    then have c: "cents_ok (sint (acc_available a) - ?amt)" "cents_ok (sint (acc_frozen a) + ?amt)"
      using res(3) a by blast+
    have nn: "0 \<le> sint (acc_available a)" "0 \<le> sint (acc_frozen a)"
      using ok a held_rows_nonneg [OF ok] by (auto simp: tcc_ok_def)
    have f: "sint (acc_available (frozen_account ck e rq a)) = sint (acc_available a) - ?amt"
      "sint (acc_frozen (frozen_account ck e rq a)) = sint (acc_frozen a) + ?amt"
      "acc_id (frozen_account ck e rq a) = acc_id a"
      unfolding frozen_account_def using True c by (simp_all add: int64_arith cents_ok_def)
    have "cents_ok (sint (acc_available a) - ?amt + y)" "cents_ok (sint (acc_frozen a))"
      using c nn y sint64_range [of "acc_available a"] sint64_range [of "acc_frozen a"] by (auto simp: cents_ok_def)
    then have "?S (frozen_account ck e rq a) \<noteq> None" by (simp add: set_cents_None av f)
    then obtain c where c: "?S (frozen_account ck e rq a) = Some c" by blast
    from set_cents_fields [OF this] show ?thesis
      using True nn f c by (simp add: av word_sless_alt)
  next
    case False
    then show ?thesis by (simp add: frozen_account_def)
  qed
  obtain h where h: "h \<in> set (db_accounts d)" "?K h" using res(4) by blast
  have "length (filter ?P (db_accounts d1)) = length (filter ?K (db_accounts d))"
    using b unfolding res(1) by (simp add: filter_map comp_def cong: filter_cong)
  also have "\<dots> = 1"
    using one_with_key [of "ck \<circ> acc_id" "db_accounts d" h] ok h by (simp add: tcc_ok_def)
  finally have one: "length (filter ?P (db_accounts d1)) = 1" .
  define rows where "rows = map (\<lambda>a. if ?P a then the (?S a) else a) (db_accounts d1)"
  have upd: "sql_update ?P ?S (db_accounts d1) = Inr (rows, 1)"
    unfolding sql_update_Inr rows_def using b one by (auto simp: res(1))
  have mark: "map (\<lambda>x. if reservation_of ck rq x \<and> rr_status x = FROZEN
      then x\<lparr>rr_status := status, rr_updated := sq_now e' 2\<rparr> else x) (db_reservations d1) =
    db_reservations d @ [?r\<lparr>rr_status := status, rr_updated := sq_now e' 2\<rparr>]"
  proof -
    have "map (\<lambda>x. if reservation_of ck rq x \<and> rr_status x = FROZEN
        then x\<lparr>rr_status := status, rr_updated := sq_now e' 2\<rparr> else x) (db_reservations d) = db_reservations d"
      using res(5) by (intro sql_update_none) blast
    then show ?thesis by (simp add: res(2) new_reservation_def reservation_of_def)
  qed
  have fields: "rr_account ?r = tr_account rq" "rr_amount ?r = tr_amount rq" by (simp_all add: new_reservation_def)
  have "settle_reservation ck e' rq ?r av status d1 =
      (d1\<lparr>db_accounts := rows, db_reservations := db_reservations d @ [?r\<lparr>rr_status := status, rr_updated := sq_now e' 2\<rparr>]\<rparr>, Inr ())"
    using upd mark by (simp add: settle_reservation_def Let_def fields clean sql_update_total)
  moreover have "map (\<lambda>a. (acc_id a, sint (acc_available a), sint (acc_frozen a))) rows =
      map (\<lambda>a. (acc_id a, sint (acc_available a) - (if ?K a then ?amt - y else 0), sint (acc_frozen a))) (db_accounts d)"
    unfolding rows_def res(1) using b by (force simp: frozen_account_def)
  ultimately show ?thesis by auto
qed

end
