(* ===== verification/Participant_Properties.thy ===== *)
theory Participant_Properties
  imports Participant_Books
begin

section \<open>Properties of the participants\<close>

text \<open>
  What the account and the ledger service keep whatever requests they get, what Try followed by
  Confirm or Cancel does, and that repetitions are harmless.
\<close>

subsection \<open>The barrier\<close>

text \<open>
  The documented behaviour of \<open>CallWithDB\<close> that the services rely on: the business function runs
  inside one transaction, so its changes to the tables are committed as a whole, after it has
  returned without an error, or not at all. Beside that the call writes barrier rows only.
\<close>

definition same_tables :: "db \<Rightarrow> db \<Rightarrow> bool" where
  "same_tables d d' \<longleftrightarrow> d' = d\<lparr>db_barriers := db_barriers d'\<rparr>"

definition atomic_barrier :: "(barrier \<Rightarrow> business \<Rightarrow> business) \<Rightarrow> bool" where
  "atomic_barrier call_with_db \<longleftrightarrow>
     (\<forall>b f d d' r. call_with_db b f d = (d', r) \<longrightarrow>
        same_tables d d' \<or>
        (\<exists>d0 d1. same_tables d d0 \<and> f d0 = (d1, Inr ()) \<and> same_tables d1 d'))"

lemma same_tables_refl [simp]: "same_tables d d"
  by (simp add: same_tables_def)

lemma same_tables_ok:
  assumes "same_tables d d'"
  shows "tcc_ok ck d' \<longleftrightarrow> tcc_ok ck d" and "branch_moves ck d d'"
proof -
  obtain x where d': "d' = d\<lparr>db_barriers := x\<rparr>" using assms unfolding same_tables_def by blast
  show "tcc_ok ck d' \<longleftrightarrow> tcc_ok ck d" and "branch_moves ck d d'"
    by (simp_all add: d' tcc_ok_def held_rows_def branch_moves_def totals_kept_def account_total_def rows_grow_refl)
qed

lemma handle_branch_moves:
  assumes "atomic_barrier call_with_db" and "tcc_ok ck d"
    and "handle_branch call_with_db ck sv bop e rq d = (d', resp)"
  shows "tcc_ok ck d' \<and> branch_moves ck d d'"
proof -
  have "d' = d \<or> (\<exists>b request r. call_with_db b (business_of sv bop ck e request) d = (d', r))"
    using assms(3) by (auto simp: handle_branch_def branchHandler_def split: sum.splits if_splits prod.splits)
  then show ?thesis
  proof
    assume "d' = d"
    with assms(2) show ?thesis by (simp add: branch_moves_refl)
  next
    assume "\<exists>b request r. call_with_db b (business_of sv bop ck e request) d = (d', r)"
    then consider "same_tables d d'"
      | d0 d1 request where "same_tables d d0" "business_of sv bop ck e request d0 = (d1, Inr ())" "same_tables d1 d'"
      using assms(1) unfolding atomic_barrier_def by blast
    then show ?thesis
    proof cases
      case 1
      with same_tables_ok assms(2) show ?thesis by blast
    next
      case 2
      have "tcc_ok ck d0" using same_tables_ok(1) [OF 2(1)] assms(2) by simp
      from business_books [OF this 2(2)] have "tcc_ok ck d1 \<and> branch_moves ck d0 d1" .
      with same_tables_ok [OF 2(1)] same_tables_ok [OF 2(3)] show ?thesis by (blast intro: branch_moves_trans)
    qed
  qed
qed

subsection \<open>Any sequence of branch requests\<close>

record branch_call =
  bc_service :: branch_service
  bc_op :: branch_op
  bc_env :: sql_env
  bc_request :: branch_request

definition run_branch :: "(barrier \<Rightarrow> business \<Rightarrow> business) \<Rightarrow> collation \<Rightarrow> branch_call \<Rightarrow> db \<Rightarrow> db" where
  "run_branch call_with_db ck c d =
     fst (handle_branch call_with_db ck (bc_service c) (bc_op c) (bc_env c) (bc_request c) d)"

lemma run_branches_moves:
  assumes "atomic_barrier call_with_db"
  shows "tcc_ok ck d \<Longrightarrow>
    tcc_ok ck (fold (run_branch call_with_db ck) cs d) \<and> branch_moves ck d (fold (run_branch call_with_db ck) cs d)"
proof (induction cs arbitrary: d)
  case Nil
  then show ?case by (simp add: branch_moves_refl)
next
  case (Cons c cs)
  have step: "tcc_ok ck (run_branch call_with_db ck c d) \<and> branch_moves ck d (run_branch call_with_db ck c d)"
    unfolding run_branch_def using handle_branch_moves [OF assms Cons.prems] by (metis prod.collapse)
  with Cons.IH [of "run_branch call_with_db ck c d"] show ?case
    by (auto intro: branch_moves_trans)
qed

text \<open>A barrier that runs every call, for the witnesses.\<close>

definition plain_barrier :: "barrier \<Rightarrow> business \<Rightarrow> business" where
  "plain_barrier b f d = (case f d of (d', Inr u) \<Rightarrow> (d', Inr u) | (d', Inl err) \<Rightarrow> (d, Inl err))"

lemma plain_barrier_atomic: "atomic_barrier plain_barrier"
  unfolding atomic_barrier_def
proof (intro allI impI)
  fix b f d d' r
  assume run: "plain_barrier b f d = (d', r)"
  show "same_tables d d' \<or> (\<exists>d0 d1. same_tables d d0 \<and> f d0 = (d1, Inr ()) \<and> same_tables d1 d')"
  proof (cases "f d")
    case (Pair d1 x)
    show ?thesis
    proof (cases x)
      case (Inl err)
      with run Pair show ?thesis by (simp add: plain_barrier_def)
    next
      case (Inr u)
      with run Pair have "f d = (d1, Inr ())" "d' = d1" by (simp_all add: plain_barrier_def)
      then show ?thesis using same_tables_refl by blast
    qed
  qed
qed

subsection \<open>A database with one payment\<close>

definition ex_sql :: sql_env where
  "ex_sql = \<lparr>sq_fault = (\<lambda>_. None), sq_now = (\<lambda>_. 5), sq_store = (\<lambda>t. 1000 * (t div 1000)), sq_auto = (\<lambda>_. 1), sq_lost = False\<rparr>"

definition ex_db :: db where
  "ex_db =
     \<lparr>db_accounts = [\<lparr>acc_id = ''demo-user'', acc_available = 1000000, acc_frozen = 0,
        acc_currency = ''CNY'', acc_updated = 0\<rparr>],
      db_reservations = [], db_ledger = [],
      db_payments = [\<lparr>pr_id = ''p1'', pr_gid = Some ''g1'', pr_mode = ''distributed'', pr_order = ''o1'',
        pr_account = ''demo-user'', pr_amount = 2500, pr_currency = ''CNY'', pr_status = StatusProcessing,
        pr_failure = '''', pr_callback_seq = 0, pr_key = ''k1'', pr_fingerprint = ''f1'',
        pr_created = 0, pr_updated = 0\<rparr>],
      db_events = [], db_trans = [], db_branch_ops = [], db_barriers = []\<rparr>"

definition ex_tcc :: TCCRequest where
  "ex_tcc = \<lparr>tr_payment = ''p1'', tr_gid = ''g1'', tr_account = ''demo-user'', tr_amount = 2500, tr_fail_try = False\<rparr>"

lemma ex_db_ok: "tcc_ok id ex_db"
  by (simp add: tcc_ok_def ex_db_def held_rows_def row_total_def)

definition ex_branch :: "branch_service \<Rightarrow> branch_op \<Rightarrow> branch_call" where
  "ex_branch sv bop =
     \<lparr>bc_service = sv, bc_op = bop, bc_env = ex_sql,
      bc_request = \<lparr>brq_body = Inr ex_tcc, brq_at_end = True,
        brq_barrier = Inr \<lparr>bar_trans_type = ''tcc'', bar_gid = ''g1'', bar_branch = ''01'', bar_op = op_text bop\<rparr>\<rparr>\<rparr>"

lemma ex_try_db:
  "run_branch plain_barrier id (ex_branch AccountService OpTry) ex_db =
     ex_db\<lparr>db_accounts := [\<lparr>acc_id = ''demo-user'', acc_available = 997500, acc_frozen = 2500,
        acc_currency = ''CNY'', acc_updated = 5\<rparr>],
      db_reservations := [\<lparr>rr_gid = ''g1'', rr_payment = ''p1'', rr_account = ''demo-user'', rr_amount = 2500,
        rr_status = FROZEN, rr_created = 5, rr_updated = 5\<rparr>]\<rparr>"
  by (simp add: run_branch_def handle_branch_def branchHandler_def ex_branch_def plain_barrier_def
      accountTry_def bad_request_def ex_tcc_def ex_sql_def ex_db_def query_row_def insert_reservation_def
      sql_update_def set_cents_def cents_ok_def word_sless_eq word_sle_eq)

subsection \<open>The properties\<close>

text \<open>C7. Whatever requests the account and ledger services get, in whatever order and with whatever
  faults of the database: no balance is negative, the frozen balance of an account is the sum of its
  FROZEN reservations, and available, frozen and confirmed amounts add up to what they did before;
  reservations and ledger intents keep their data and leave FROZEN or PREPARED at most once.\<close>

theorem tcc_books:
  assumes "atomic_barrier call_with_db" and "tcc_ok ck d"
    and "d' = fold (run_branch call_with_db ck) cs d"
  shows "(\<forall>a\<in>set (db_accounts d'). 0 \<le> sint (acc_available a) \<and>
      sint (acc_frozen a) = held_rows ck FROZEN (acc_id a) d') \<and>
    map (\<lambda>a. (acc_id a, account_total ck d a)) (db_accounts d) =
      map (\<lambda>a. (acc_id a, account_total ck d' a)) (db_accounts d') \<and>
    rows_grow res_row_moves (db_reservations d) (db_reservations d') \<and>
    rows_grow ledger_row_moves (db_ledger d) (db_ledger d')"
  using run_branches_moves [OF assms(1,2), of cs] unfolding assms(3) [symmetric]
  by (simp add: tcc_ok_def branch_moves_def totals_kept_def)

theorem tcc_books_witness:
  "\<exists>r. rows_grow res_row_moves []
      (db_reservations (run_branch plain_barrier id (ex_branch AccountService OpTry) ex_db)) \<and>
    db_reservations (run_branch plain_barrier id (ex_branch AccountService OpTry) ex_db) = [r] \<and>
    rr_status r = FROZEN"
  using tcc_books [OF plain_barrier_atomic ex_db_ok, of _ "[ex_branch AccountService OpTry]"]
  by (simp add: ex_try_db) (simp add: ex_db_def)

text \<open>The handler refuses a request with status 400, without starting a transaction, exactly when its
  body is not one JSON object, its barrier parameters do not parse, or the barrier is for another
  operation or another global transaction.\<close>

theorem branch_request_checked:
  "(\<exists>m. handle_branch call_with_db ck sv bop e rq d = (d, BadRequest m)) \<longleftrightarrow>
     (case (brq_body rq, brq_barrier rq) of
        (Inr request, Inr b) \<Rightarrow>
          \<not> (brq_at_end rq \<and> bar_op b = op_text bop \<and> tr_gid request = bar_gid b)
      | _ \<Rightarrow> True)"
  by (auto simp: handle_branch_def branchHandler_def split: sum.split prod.split)

subsection \<open>Try, then Confirm or Cancel\<close>

lemma query_row_last:
  "\<forall>x\<in>set rows. \<not> P x \<Longrightarrow> P r \<Longrightarrow> query_row None P (rows @ [r]) = Inr r"
  by (simp add: query_row_def filter_False)

abbreviation balances :: "db \<Rightarrow> (string \<times> int \<times> int) list" where
  "balances d \<equiv> map (\<lambda>a. (acc_id a, sint (acc_available a), sint (acc_frozen a))) (db_accounts d)"

text \<open>C13. Cancel undoes Try and Confirm completes it: after a successful Try of the account service and
  a Cancel that meets no database fault, every balance is what it was before; after a Confirm the
  account has the amount less in available and the old frozen balance; the reservation says which;
  and the Try itself cannot succeed twice.\<close>

theorem try_then_settle:
  assumes "tcc_ok ck d" and "accountTry ck e rq d = (d1, Inr ())" and "\<And>k. sq_fault e' k = None"
  shows "(\<exists>d2. accountCancel ck e' rq d1 = (d2, Inr ()) \<and> balances d2 = balances d \<and>
      (\<exists>r. db_reservations d2 = db_reservations d @ [r] \<and> reservation_of ck rq r \<and> rr_status r = CANCELLED)) \<and>
    (\<exists>d2. accountConfirm ck e' rq d1 = (d2, Inr ()) \<and>
      balances d2 = map (\<lambda>a. (acc_id a, sint (acc_available a) -
        (if ck (acc_id a) = ck (tr_account rq) then sint (tr_amount rq) else 0), sint (acc_frozen a))) (db_accounts d) \<and>
      (\<exists>r. db_reservations d2 = db_reservations d @ [r] \<and> reservation_of ck rq r \<and> rr_status r = CONFIRMED)) \<and>
    (\<forall>e'' d2. accountTry ck e'' rq d1 \<noteq> (d2, Inr ()))"
proof (intro conjI allI)
  note res = accountTry_result [OF assms(1,2)]
  let ?r = "new_reservation e rq"
  have q: "query_row (sq_fault e' 0) (reservation_of ck rq) (db_reservations d1) = Inr ?r" "rr_status ?r = FROZEN"
    unfolding res(2) assms(3) using res(5)
    by (auto intro!: query_row_last simp: reservation_of_def new_reservation_def)
  show "\<exists>d2. accountCancel ck e' rq d1 = (d2, Inr ()) \<and> balances d2 = balances d \<and>
      (\<exists>r. db_reservations d2 = db_reservations d @ [r] \<and> reservation_of ck rq r \<and> rr_status r = CANCELLED)"
    using settle_after_try [OF assms(1-3), where y = "sint (tr_amount rq)" and status = CANCELLED
        and av = "\<lambda>amount a. sint (acc_available a) + sint amount"] q
    by (force simp: accountCancel_def reservation_of_def new_reservation_def)
  show "\<exists>d2. accountConfirm ck e' rq d1 = (d2, Inr ()) \<and>
      balances d2 = map (\<lambda>a. (acc_id a, sint (acc_available a) -
        (if ck (acc_id a) = ck (tr_account rq) then sint (tr_amount rq) else 0), sint (acc_frozen a))) (db_accounts d) \<and>
      (\<exists>r. db_reservations d2 = db_reservations d @ [r] \<and> reservation_of ck rq r \<and> rr_status r = CONFIRMED)"
    using settle_after_try [OF assms(1-3), where y = 0 and status = CONFIRMED
        and av = "\<lambda>amount a. sint (acc_available a)"] q
    by (force simp: accountConfirm_def reservation_of_def new_reservation_def)
  have "?r \<in> set (db_reservations d1)" "reservation_of ck rq ?r"
    by (simp_all add: res(2) reservation_of_def new_reservation_def)
  then show "accountTry ck e'' rq d1 \<noteq> (d2, Inr ())" for e'' d2
    using accountTry_Inr [of ck e'' rq d1 d2]
    by (metis insert_reservation_Inr new_reservation_def reservation_of_def reservation_row.select_convs(1))
qed

theorem try_then_settle_witness:
  "\<exists>d1 d2. accountTry id ex_sql ex_tcc ex_db = (d1, Inr ()) \<and> accountCancel id ex_sql ex_tcc d1 = (d2, Inr ()) \<and>
    balances d2 = [(''demo-user'', 1000000, 0)]"
proof -
  obtain d1 where d1: "accountTry id ex_sql ex_tcc ex_db = (d1, Inr ())"
    by (simp add: accountTry_def bad_request_def ex_tcc_def ex_sql_def ex_db_def query_row_def
        insert_reservation_def sql_update_def set_cents_def cents_ok_def word_sless_eq word_sle_eq)
  have "sq_fault ex_sql k = None" for k by (simp add: ex_sql_def)
  from try_then_settle [OF ex_db_ok d1 this] d1 show ?thesis by (auto simp: ex_db_def)
qed

subsection \<open>Repetitions\<close>

text \<open>No reservation for the request, or one that has been settled; no PREPARED intent for it.\<close>

definition settled :: "collation \<Rightarrow> TCCRequest \<Rightarrow> db \<Rightarrow> bool" where
  "settled ck rq d \<longleftrightarrow>
     (case filter (reservation_of ck rq) (db_reservations d) of [] \<Rightarrow> True | r # _ \<Rightarrow> rr_status r \<noteq> FROZEN)"

definition ledger_settled :: "collation \<Rightarrow> TCCRequest \<Rightarrow> db \<Rightarrow> bool" where
  "ledger_settled ck rq d \<longleftrightarrow> (\<forall>r\<in>set (db_ledger d). ledger_of ck rq r \<longrightarrow> lr_status r \<noteq> PREPARED)"

lemma settle_settles:
  assumes "settle_reservation ck e rq r av st d = (d', Inr ())" and "st \<noteq> FROZEN"
  shows "settled ck rq d'"
proof -
  have "rr_status x \<noteq> FROZEN" if "x \<in> set (db_reservations d')" "reservation_of ck rq x" for x
    using assms that by (auto simp: settle_reservation_def Let_def sql_update_Inr reservation_of_def
        split: if_splits sum.splits prod.splits)
  then show ?thesis by (auto simp: settled_def dest: filter_eq_ConsD split: list.split)
qed

lemma query_settled:
  "query_row fault (reservation_of ck rq) (db_reservations d) = Inl NoRows \<Longrightarrow> settled ck rq d"
  "query_row fault (reservation_of ck rq) (db_reservations d) = Inr r \<Longrightarrow> rr_status r \<noteq> FROZEN \<Longrightarrow> settled ck rq d"
  by (auto simp: query_row_def stmt_def settled_def split: list.splits option.splits)

lemma confirm_settles: "accountConfirm ck e rq d = (d', Inr ()) \<Longrightarrow> settled ck rq d'"
  by (auto simp: accountConfirm_def split: sum.splits if_splits dest: query_settled intro: settle_settles)

lemma cancel_settles: "accountCancel ck e rq d = (d', Inr ()) \<Longrightarrow> settled ck rq d'"
  by (auto simp: accountCancel_def split: sum.splits if_splits dest: query_settled intro: settle_settles)

lemma settled_stays:
  assumes "settled ck rq d" and "sq_fault e 0 = None"
  shows "accountConfirm ck e rq d = (d, Inr ())" and "accountCancel ck e rq d = (d, Inr ())"
  using assms by (auto simp: settled_def accountConfirm_def accountCancel_def query_row_def split: list.splits)

lemma ledger_settles:
  "ledgerConfirm ck e rq d = (d', Inr ()) \<Longrightarrow> ledger_settled ck rq d'"
  "ledgerCancel ck e rq d = (d', Inr ()) \<Longrightarrow> ledger_settled ck rq d'"
  by (auto simp: ledgerConfirm_def ledgerCancel_def Let_def move_ledger_def sql_update_total
      ledger_settled_def ledger_of_def split: if_splits sum.splits)

lemma ledger_settled_stays:
  assumes "ledger_settled ck rq d" and "\<And>k. sq_fault e k = None"
  shows "ledgerConfirm ck e rq d = (d, Inr ())" and "ledgerCancel ck e rq d = (d, Inr ())"
proof -
  let ?P = "\<lambda>r. ledger_of ck rq r \<and> lr_status r = PREPARED"
  have none: "\<forall>r\<in>set (db_ledger d). \<not> ?P r" using assms(1) by (auto simp: ledger_settled_def)
  then have "move_ledger ck rq st now d = Inr (db_ledger d, 0)" for st now
    by (simp add: move_ledger_def sql_update_total sql_update_none filter_False)
  then show "ledgerConfirm ck e rq d = (d, Inr ())" and "ledgerCancel ck e rq d = (d, Inr ())"
    by (auto simp: ledgerConfirm_def ledgerCancel_def query_row_def assms(2) split: list.split)
qed

text \<open>C14. Confirm and Cancel may be repeated: once one of them has succeeded for a request, each further
  Confirm or Cancel of that service for it succeeds and changes nothing at all, so the first one
  decides.\<close>

theorem settle_repeats_harmless:
  assumes "bop \<noteq> OpTry" and "bop' \<noteq> OpTry" and "business_of sv bop ck e rq d = (d', Inr ())"
    and "\<And>k. sq_fault e' k = None"
  shows "business_of sv bop' ck e' rq d' = (d', Inr ())"
proof (cases sv)
  case AccountService
  then have "settled ck rq d'"
    using assms(1,3) by (cases bop) (auto intro: confirm_settles cancel_settles)
  from settled_stays [OF this assms(4)] show ?thesis
    using AccountService assms(2) by (cases bop') simp_all
next
  case LedgerService
  then have "ledger_settled ck rq d'"
    using assms(1,3) by (cases bop) (auto intro: ledger_settles)
  from ledger_settled_stays [OF this assms(4)] show ?thesis
    using LedgerService assms(2) by (cases bop') simp_all
qed

theorem settle_repeats_harmless_witness:
  "\<exists>d1 d2. accountTry id ex_sql ex_tcc ex_db = (d1, Inr ()) \<and> accountConfirm id ex_sql ex_tcc d1 = (d2, Inr ()) \<and>
    d2 \<noteq> d1 \<and> accountConfirm id ex_sql ex_tcc d2 = (d2, Inr ()) \<and> accountCancel id ex_sql ex_tcc d2 = (d2, Inr ())"
proof -
  obtain d1 d2 where d: "accountTry id ex_sql ex_tcc ex_db = (d1, Inr ())"
      "accountConfirm id ex_sql ex_tcc d1 = (d2, Inr ())" "d2 \<noteq> d1"
    by (simp add: accountTry_def accountConfirm_def settle_reservation_def bad_request_def ex_tcc_def ex_sql_def
        ex_db_def query_row_def insert_reservation_def sql_update_def set_cents_def cents_ok_def word_sless_eq
        word_sle_eq reservation_of_def Let_def)
  have "sq_fault ex_sql k = None" for k by (simp add: ex_sql_def)
  from settle_repeats_harmless [of OpConfirm OpConfirm AccountService id ex_sql ex_tcc d1 d2 ex_sql, OF _ _ _ this]
    settle_repeats_harmless [of OpConfirm OpCancel AccountService id ex_sql ex_tcc d1 d2 ex_sql, OF _ _ _ this] d
  show ?thesis by auto
qed

end
