(* ===== verification/Dist_Invariant.thy ===== *)
theory Dist_Invariant
  imports Dist_Service Participant_Properties
begin

section \<open>The invariant of the distributed mode\<close>

text \<open>
  What holds of the tables whatever the coordinator, the participants and DTM do to them short of a
  reset: keys are unique, the books of the participants balance, and a payment is SUCCESS only with
  a CONFIRMED reservation and a POSTED ledger entry of its global transaction to show for it.
\<close>

subsection \<open>How a payment row may change\<close>

definition stage :: "payment_status \<Rightarrow> nat" where
  "stage st = (if Terminal st then 2 else if st = StatusProcessing then 1 else 0)"

text \<open>The data of the request never changes, the gid is fixed with PROCESSING, all with the end.\<close>

definition pay_row_moves :: "payment_row \<Rightarrow> payment_row \<Rightarrow> bool" where
  "pay_row_moves r r' \<longleftrightarrow>
     pr_id r' = pr_id r \<and> pr_mode r' = pr_mode r \<and> pr_order r' = pr_order r \<and>
     pr_account r' = pr_account r \<and> pr_amount r' = pr_amount r \<and> pr_currency r' = pr_currency r \<and>
     pr_key r' = pr_key r \<and> pr_fingerprint r' = pr_fingerprint r \<and> pr_created r' = pr_created r \<and>
     stage (pr_status r) \<le> stage (pr_status r') \<and>
     (pr_status r = StatusProcessing \<longrightarrow> pr_gid r' = pr_gid r) \<and>
     (Terminal (pr_status r) \<longrightarrow> r' = r)"

lemma pay_row_moves_refl [simp]: "pay_row_moves r r"
  by (simp add: pay_row_moves_def)

lemma stage_simps [simp]:
  "stage StatusInit = 0" "stage StatusProcessing = 1" "stage StatusSuccess = 2" "stage StatusFailed = 2"
  "stage StatusClosed = 2" "stage StatusNone = 0"
  by (simp_all add: stage_def)

lemma stage_terminal: "stage st = 2 \<longleftrightarrow> Terminal st"
  by (cases st) simp_all

lemma stage_processing: "stage st = 1 \<longleftrightarrow> st = StatusProcessing"
  by (cases st) simp_all

lemma pay_row_moves_trans:
  assumes "pay_row_moves r s" and "pay_row_moves s t"
  shows "pay_row_moves r t"
proof (cases "Terminal (pr_status r)")
  case True
  with assms show ?thesis by (simp add: pay_row_moves_def)
next
  case False
  have "pr_gid t = pr_gid r" if "pr_status r = StatusProcessing"
  proof -
    have "stage (pr_status s) = 1 \<or> stage (pr_status s) = 2"
      using assms(1) that by (cases "pr_status s") (auto simp: pay_row_moves_def)
    then show ?thesis
      using assms that unfolding stage_processing stage_terminal by (auto simp: pay_row_moves_def)
  qed
  then show ?thesis
    using assms False by (auto simp: pay_row_moves_def)
qed

subsection \<open>Growth of the tables\<close>

definition dist_grows :: "collation \<Rightarrow> db \<Rightarrow> db \<Rightarrow> bool" where
  "dist_grows ck d d' \<longleftrightarrow>
     rows_grow pay_row_moves (db_payments d) (db_payments d') \<and>
     rows_grow res_row_moves (db_reservations d) (db_reservations d') \<and>
     rows_grow ledger_row_moves (db_ledger d) (db_ledger d') \<and>
     rows_grow (=) (db_events d) (db_events d') \<and> totals_kept ck d d'"

lemma dist_grows_refl [simp]: "dist_grows ck d d"
  by (simp add: dist_grows_def rows_grow_refl totals_kept_def)

lemma dist_grows_trans:
  assumes "dist_grows ck d e" and "dist_grows ck e f"
  shows "dist_grows ck d f"
  using assms rows_grow_trans [of pay_row_moves "db_payments d" "db_payments e" "db_payments f"]
    rows_grow_trans [of res_row_moves "db_reservations d" "db_reservations e" "db_reservations f"]
    rows_grow_trans [of ledger_row_moves "db_ledger d" "db_ledger e" "db_ledger f"]
    rows_grow_trans [of "(=)" "db_events d" "db_events e" "db_events f"] row_moves_trans pay_row_moves_trans
  by (simp add: dist_grows_def totals_kept_def)

subsection \<open>Evidence in the tables\<close>

definition confirmed_row :: "collation \<Rightarrow> string \<Rightarrow> string \<Rightarrow> reservation_row \<Rightarrow> bool" where
  "confirmed_row ck gid pid r \<longleftrightarrow> ck (rr_gid r) = ck gid \<and> ck (rr_payment r) = ck pid \<and> rr_status r = CONFIRMED"

definition posted_row :: "collation \<Rightarrow> string \<Rightarrow> string \<Rightarrow> ledger_row \<Rightarrow> bool" where
  "posted_row ck gid pid r \<longleftrightarrow> ck (lr_gid r) = ck gid \<and> ck (lr_payment r) = ck pid \<and> lr_status r = POSTED"

definition evidence :: "collation \<Rightarrow> db \<Rightarrow> string \<Rightarrow> string \<Rightarrow> bool" where
  "evidence ck d gid pid \<longleftrightarrow>
     (\<exists>r\<in>set (db_reservations d). confirmed_row ck gid pid r) \<and> (\<exists>l\<in>set (db_ledger d). posted_row ck gid pid l)"

lemma res_moves_confirmed: "res_row_moves r r' \<Longrightarrow> confirmed_row ck gid pid r \<Longrightarrow> confirmed_row ck gid pid r'"
  by (auto simp: res_row_moves_def confirmed_row_def)

lemma ledger_moves_posted: "ledger_row_moves r r' \<Longrightarrow> posted_row ck gid pid r \<Longrightarrow> posted_row ck gid pid r'"
  by (auto simp: ledger_row_moves_def posted_row_def)

lemma confirmed_stays:
  "dist_grows ck d d' \<Longrightarrow> \<exists>r\<in>set (db_reservations d). confirmed_row ck gid pid r \<Longrightarrow>
   \<exists>r\<in>set (db_reservations d'). confirmed_row ck gid pid r"
  unfolding dist_grows_def by (meson res_moves_confirmed rows_grow_member)

lemma posted_stays:
  "dist_grows ck d d' \<Longrightarrow> \<exists>r\<in>set (db_ledger d). posted_row ck gid pid r \<Longrightarrow>
   \<exists>r\<in>set (db_ledger d'). posted_row ck gid pid r"
  unfolding dist_grows_def by (meson ledger_moves_posted rows_grow_member)

lemma evidence_stays: "dist_grows ck d d' \<Longrightarrow> evidence ck d gid pid \<Longrightarrow> evidence ck d' gid pid"
  unfolding evidence_def using confirmed_stays posted_stays by blast

text \<open>The payment \<open>pid\<close> runs, or ran, under the global transaction \<open>gid\<close>.\<close>

definition tracks :: "collation \<Rightarrow> db \<Rightarrow> string \<Rightarrow> string \<Rightarrow> bool" where
  "tracks ck d pid gid \<longleftrightarrow>
     (\<exists>r\<in>set (db_payments d). ck (pr_id r) = ck pid \<and> pr_gid r = Some gid \<and> stage (pr_status r) \<noteq> 0)"

lemma payment_stays:
  "dist_grows ck d d' \<Longrightarrow> r \<in> set (db_payments d) \<Longrightarrow> \<exists>r'\<in>set (db_payments d'). pay_row_moves r r'"
  unfolding dist_grows_def by (meson rows_grow_member)

lemma tracks_stays:
  assumes "dist_grows ck d d'" and "tracks ck d pid gid"
  shows "tracks ck d' pid gid"
proof -
  obtain r where r: "r \<in> set (db_payments d)" "ck (pr_id r) = ck pid" "pr_gid r = Some gid" "stage (pr_status r) \<noteq> 0"
    using assms(2) unfolding tracks_def by blast
  obtain r' where r': "r' \<in> set (db_payments d')" "pay_row_moves r r'"
    using payment_stays [OF assms(1) r(1)] by blast
  have "pr_status r = StatusProcessing \<or> Terminal (pr_status r)"
    using r(4) by (cases "pr_status r") simp_all
  then have "pr_gid r' = Some gid" using r' r(3) by (auto simp: pay_row_moves_def)
  with r' r show ?thesis unfolding tracks_def by (intro bexI [of _ r']) (auto simp: pay_row_moves_def)
qed

text \<open>The payment \<open>pid\<close> is the one of the idempotency key.\<close>

definition keyed :: "collation \<Rightarrow> db \<Rightarrow> string \<Rightarrow> string \<Rightarrow> string \<Rightarrow> bool" where
  "keyed ck d key fingerprint pid \<longleftrightarrow>
     (\<exists>r\<in>set (db_payments d). ck (pr_id r) = ck pid \<and> ck (pr_key r) = ck key \<and>
        ck (pr_fingerprint r) = ck fingerprint)"

lemma pay_row_moves_data:
  "pay_row_moves r r' \<Longrightarrow> pr_id r' = pr_id r \<and> pr_key r' = pr_key r \<and> pr_fingerprint r' = pr_fingerprint r"
  by (simp add: pay_row_moves_def)

lemma keyed_stays:
  assumes "dist_grows ck d d'" and "keyed ck d key fp pid"
  shows "keyed ck d' key fp pid"
proof -
  obtain r where r: "r \<in> set (db_payments d)" "ck (pr_id r) = ck pid \<and> ck (pr_key r) = ck key \<and>
      ck (pr_fingerprint r) = ck fp"
    using assms(2) unfolding keyed_def by blast
  obtain r' where r': "r' \<in> set (db_payments d')" "pay_row_moves r r'"
    using payment_stays [OF assms(1) r(1)] by blast
  with r(2) pay_row_moves_data [OF r'(2)] show ?thesis unfolding keyed_def by (intro bexI [OF _ r'(1)]) simp
qed

subsection \<open>The invariant\<close>

definition dist_ok :: "collation \<Rightarrow> db \<Rightarrow> bool" where
  "dist_ok ck d \<longleftrightarrow>
     tcc_ok ck d \<and>
     distinct (map (ck \<circ> pr_id) (db_payments d)) \<and> distinct (map (ck \<circ> pr_key) (db_payments d)) \<and>
     (\<forall>p\<in>set (db_payments d). pr_status p = StatusSuccess \<longrightarrow>
        (\<exists>g. pr_gid p = Some g \<and> evidence ck d g (pr_id p)))"

lemma dist_ok_unique:
  "dist_ok ck d \<Longrightarrow> r \<in> set (db_payments d) \<Longrightarrow> r' \<in> set (db_payments d) \<Longrightarrow> ck (pr_id r) = ck (pr_id r') \<Longrightarrow> r = r'"
  "dist_ok ck d \<Longrightarrow> r \<in> set (db_payments d) \<Longrightarrow> r' \<in> set (db_payments d) \<Longrightarrow> ck (pr_key r) = ck (pr_key r') \<Longrightarrow> r = r'"
  unfolding dist_ok_def by (auto dest: distinct_key [where key = "ck \<circ> pr_id"] distinct_key [where key = "ck \<circ> pr_key"])

text \<open>The payments table changes, the tables of the participants do not.\<close>

definition dist_moves :: "collation \<Rightarrow> db \<Rightarrow> db \<Rightarrow> bool" where
  "dist_moves ck d d' \<longleftrightarrow> dist_ok ck d' \<and> dist_grows ck d d'"

definition same_books :: "db \<Rightarrow> db \<Rightarrow> bool" where
  "same_books d d' \<longleftrightarrow> db_accounts d' = db_accounts d \<and> db_reservations d' = db_reservations d \<and> db_ledger d' = db_ledger d"

lemma same_books_keeps:
  assumes "same_books d d'"
  shows "tcc_ok ck d' \<longleftrightarrow> tcc_ok ck d" and "totals_kept ck d d'" and "evidence ck d' g p \<longleftrightarrow> evidence ck d g p"
    and "rows_grow res_row_moves (db_reservations d) (db_reservations d')"
    and "rows_grow ledger_row_moves (db_ledger d) (db_ledger d')"
  using assms
  by (simp_all add: same_books_def tcc_ok_def held_rows_def totals_kept_def account_total_def evidence_def rows_grow_refl)

lemma payments_move:
  assumes ok: "dist_ok ck d" and same: "same_books d d'"
    and ev: "rows_grow (=) (db_events d) (db_events d')"
    and rows: "db_payments d' = map (\<lambda>r. if P r then g r else r) (db_payments d)"
    and row: "\<And>r. r \<in> set (db_payments d) \<Longrightarrow> P r \<Longrightarrow> pay_row_moves r (g r)"
    and success: "\<And>r. r \<in> set (db_payments d) \<Longrightarrow> P r \<Longrightarrow> pr_status (g r) = StatusSuccess \<Longrightarrow>
      \<exists>gid. pr_gid (g r) = Some gid \<and> evidence ck d gid (pr_id (g r))"
  shows "dist_moves ck d d'"
proof -
  have "pr_id (if P r then g r else r) = pr_id r \<and> pr_key (if P r then g r else r) = pr_key r"
    if "r \<in> set (db_payments d)" for r
    using row [OF that] by (auto simp: pay_row_moves_def)
  then have "map (ck \<circ> pr_id) (db_payments d') = map (ck \<circ> pr_id) (db_payments d)"
    "map (ck \<circ> pr_key) (db_payments d') = map (ck \<circ> pr_key) (db_payments d)"
    by (simp_all add: rows)
  moreover have "rows_grow pay_row_moves (db_payments d) (db_payments d')"
    unfolding rows by (rule rows_grow_update) (auto intro: row)
  moreover have "\<forall>p\<in>set (db_payments d'). pr_status p = StatusSuccess \<longrightarrow>
      (\<exists>g. pr_gid p = Some g \<and> evidence ck d' g (pr_id p))"
    unfolding same_books_keeps(3) [OF same]
  proof (intro ballI impI)
    fix p assume p: "p \<in> set (db_payments d')" "pr_status p = StatusSuccess"
    then obtain r where r: "r \<in> set (db_payments d)" "p = (if P r then g r else r)"
      unfolding rows by auto
    show "\<exists>gid. pr_gid p = Some gid \<and> evidence ck d gid (pr_id p)"
    proof (cases "P r")
      case True
      with r p success [OF r(1)] show ?thesis by simp
    next
      case False
      with r p ok show ?thesis by (auto simp: dist_ok_def)
    qed
  qed
  ultimately show ?thesis
    using ok ev same_books_keeps [OF same] by (simp add: dist_moves_def dist_ok_def dist_grows_def)
qed

lemma payment_inserted:
  assumes ok: "dist_ok ck d" and ins: "insert_payment ck r d = Inr d'" and "pr_status r \<noteq> StatusSuccess"
  shows "dist_moves ck d d'"
proof -
  have d': "d' = d\<lparr>db_payments := db_payments d @ [r]\<rparr>"
    and new: "\<forall>x\<in>set (db_payments d). ck (pr_id x) \<noteq> ck (pr_id r) \<and> ck (pr_key x) \<noteq> ck (pr_key r)"
    using ins by (auto simp: insert_payment_def list_ex_iff split: if_splits)
  have same: "same_books d d'" by (simp add: d' same_books_def)
  have "dist_grows ck d d'"
    using same_books_keeps [OF same] by (simp add: dist_grows_def d' rows_grow_refl rows_grow_append)
  moreover have "dist_ok ck d'"
    using ok new assms(3) same_books_keeps(1,3) [OF same]
    by (auto simp: dist_ok_def d' evidence_def)
  ultimately show ?thesis by (simp add: dist_moves_def)
qed

lemma branch_moves_dist:
  assumes "dist_ok ck d" and "tcc_ok ck d' \<and> branch_moves ck d d'"
  shows "dist_moves ck d d'"
proof -
  have grows: "dist_grows ck d d'"
    using assms(2) by (simp add: branch_moves_def dist_grows_def rows_grow_refl)
  then have "dist_ok ck d'"
    using assms evidence_stays [OF grows] by (fastforce simp: dist_ok_def branch_moves_def)
  with grows show ?thesis by (simp add: dist_moves_def)
qed

lemma dist_moves_refl: "dist_ok ck d \<Longrightarrow> dist_moves ck d d"
  by (simp add: dist_moves_def)

lemma dist_moves_trans: "dist_moves ck d e \<Longrightarrow> dist_moves ck e f \<Longrightarrow> dist_moves ck d f"
  by (auto simp: dist_moves_def intro: dist_grows_trans)

subsection \<open>Versions of a payment\<close>

text \<open>The payment was read from the row, now or earlier.\<close>

definition version_of :: "payment \<Rightarrow> payment_row \<Rightarrow> bool" where
  "version_of p r \<longleftrightarrow> (\<exists>r0. p = fst (scanPayment r0) \<and> pay_row_moves r0 r)"

definition known :: "db \<Rightarrow> payment \<Rightarrow> bool" where
  "known d p \<longleftrightarrow> (\<exists>r\<in>set (db_payments d). version_of p r)"

lemma known_stays: "dist_grows ck d d' \<Longrightarrow> known d p \<Longrightarrow> known d' p"
  unfolding dist_grows_def known_def version_of_def by (meson pay_row_moves_trans rows_grow_member)

lemma known_scan: "r \<in> set (db_payments d) \<Longrightarrow> known d (fst (scanPayment r))"
  unfolding known_def version_of_def by (blast intro: pay_row_moves_refl)

lemma version_fields:
  "version_of p r \<Longrightarrow> pr_id r = pay_id p \<and> pr_order r = pay_order p \<and> pr_account r = pay_account p \<and>
     pr_amount r = pay_amount p \<and> pr_currency r = pay_currency p \<and> stage (pay_status p) \<le> stage (pr_status r)"
  by (auto simp: version_of_def scanPayment_def pay_row_moves_def)

lemma version_terminal: "version_of p r \<Longrightarrow> Terminal (pay_status p) \<Longrightarrow> p = fst (scanPayment r)"
  by (auto simp: version_of_def pay_row_moves_def scanPayment_def)

lemma known_tracks:
  assumes "known d p" and "pay_status p = StatusProcessing" and "pay_gid p \<noteq> ''''"
  shows "tracks ck d (pay_id p) (pay_gid p)"
proof -
  obtain r r0 where r: "r \<in> set (db_payments d)" "p = fst (scanPayment r0)" "pay_row_moves r0 r"
    using assms(1) unfolding known_def version_of_def by blast
  have "pr_gid r0 = Some (pay_gid p)" "pr_status r0 = StatusProcessing" "pr_id r0 = pay_id p"
    using r(2) assms(2,3) by (auto simp: scanPayment_def split: option.splits)
  with r show ?thesis unfolding tracks_def by (intro bexI [of _ r]) (auto simp: pay_row_moves_def)
qed

end
