(* ===== verification/Dist_Safety.thy ===== *)
theory Dist_Safety
  imports Dist_Invariant
begin

section \<open>What the coordinator ensures\<close>

text \<open>
  Every program of the coordinator keeps the invariant of the tables, changes them only as
  \<open>dist_grows\<close> allows, and answers as claimed, whatever other coordinators, the participants, DTM and
  Redis do between its steps.
\<close>

subsection \<open>Programs on the tables\<close>

text \<open>
  \<open>safe ck Q d p\<close>: \<open>ensures\<close> for the invariant and the growth of the tables, with a claim \<open>Q\<close> on the
  tables and the result.
\<close>

definition dist_inv :: "collation \<Rightarrow> dist \<Rightarrow> bool" where
  "dist_inv ck s \<longleftrightarrow> dist_ok ck (ds_db s)"

definition dist_rel :: "collation \<Rightarrow> dist \<Rightarrow> dist \<Rightarrow> bool" where
  "dist_rel ck s t \<longleftrightarrow> dist_grows ck (ds_db s) (ds_db t)"

definition safe :: "collation \<Rightarrow> (db \<Rightarrow> 'r \<Rightarrow> bool) \<Rightarrow> db \<Rightarrow> (dist, 'r) prog \<Rightarrow> bool" where
  "safe ck Q d p \<longleftrightarrow>
     (dist_ok ck d \<longrightarrow>
      (\<forall>s. ds_db s = d \<longrightarrow>
         ensures (dist_inv ck) (dist_rel ck) (\<lambda>t. Q (ds_db t)) s p))"

lemma grows_order: "reflp (dist_rel ck)" "transp (dist_rel ck)"
  unfolding dist_rel_def by (auto intro!: reflpI transpI intro: dist_grows_trans)

lemma safe_Ret: "Q d r \<Longrightarrow> safe ck Q d (Ret r)"
  by (simp add: safe_def)

lemma safe_act:
  assumes "\<And>s. dist_grows ck d (ds_db s) \<Longrightarrow> dist_ok ck (ds_db s) \<Longrightarrow>
      dist_moves ck (ds_db s) (ds_db (fst (f s))) \<and>
      safe ck Q (ds_db (fst (f s))) (k (snd (f s)))"
  shows "safe ck Q d (act f k)"
  unfolding safe_def
proof (intro impI allI ensures_act)
  fix s s' t :: dist and a
  assume d: "dist_ok ck d" "ds_db s = d" and s': "dist_rel ck s s'" "dist_inv ck s'"
    and f: "f s' = (t, a)"
  from assms [of s'] d s' f
  show "dist_inv ck t \<and> dist_rel ck s' t \<and>
    ensures (dist_inv ck) (dist_rel ck) (\<lambda>t. Q (ds_db t)) t (k a)"
    by (simp add: dist_moves_def safe_def dist_inv_def dist_rel_def)
qed

lemma safe_weaken: "safe ck Q d p \<Longrightarrow> (\<And>e r. Q e r \<Longrightarrow> Q' e r) \<Longrightarrow> safe ck Q' d p"
  unfolding safe_def by (blast intro: ensures_weaken)

lemma safe_bind:
  assumes "safe ck Q' d p"
    and "\<And>e r. dist_grows ck d e \<Longrightarrow> dist_ok ck e \<Longrightarrow> Q' e r \<Longrightarrow> safe ck Q e (k r)"
  shows "safe ck Q d (bind_prog p k)"
  unfolding safe_def
proof (intro impI allI)
  fix s :: dist
  assume d: "dist_ok ck d" "ds_db s = d"
  have "ensures (dist_inv ck) (dist_rel ck) (\<lambda>t. Q' (ds_db t)) s p"
    using assms(1) d by (simp add: safe_def)
  from ensures_since [OF this, of s] d
  have "ensures (dist_inv ck) (dist_rel ck) (\<lambda>t r. Q' (ds_db t) r \<and> dist_inv ck t \<and> dist_rel ck s t) s p"
    by (simp add: grows_order) (simp add: dist_inv_def dist_rel_def)
  then show "ensures (dist_inv ck) (dist_rel ck) (\<lambda>t. Q (ds_db t)) s (bind_prog p k)"
  proof (rule ensures_bind)
    fix t r assume "Q' (ds_db t) r \<and> dist_inv ck t \<and> dist_rel ck s t"
    with assms(2) [of "ds_db t" r] d show "ensures (dist_inv ck) (dist_rel ck) (\<lambda>t. Q (ds_db t)) t (k r)"
      by (simp add: safe_def dist_inv_def dist_rel_def)
  qed
qed

text \<open>The result \<open>Inr a\<close> is as claimed; nothing is said of errors.\<close>

definition okay :: "(db \<Rightarrow> 'a \<Rightarrow> bool) \<Rightarrow> db \<Rightarrow> 'e + 'a \<Rightarrow> bool" where
  "okay Q d r \<longleftrightarrow> (case r of Inl _ \<Rightarrow> True | Inr a \<Rightarrow> Q d a)"

lemma okay_simps [simp]: "okay Q d (Inl err)" "okay Q d (Inr a) \<longleftrightarrow> Q d a"
  by (simp_all add: okay_def)

lemma safe_and_then:
  assumes "safe ck (okay Q') d p"
    and "\<And>e a. dist_grows ck d e \<Longrightarrow> dist_ok ck e \<Longrightarrow> Q' e a \<Longrightarrow> safe ck (okay Q) e (k a)"
  shows "safe ck (okay Q) d (and_then p k)"
  unfolding and_then_def
  by (rule safe_bind [OF assms(1)]) (auto intro: safe_Ret assms(2) split: sum.split)

lemma safe_db_act:
  assumes "\<And>e. dist_grows ck d e \<Longrightarrow> dist_ok ck e \<Longrightarrow> dist_moves ck e (fst (f e)) \<and> Q (fst (f e)) (snd (f e))"
  shows "safe ck Q d (db_act f)"
  unfolding db_act_def
proof (rule safe_act)
  fix s assume s: "dist_grows ck d (ds_db s)" "dist_ok ck (ds_db s)"
  obtain e a where f: "f (ds_db s) = (e, a)" by (cases "f (ds_db s)")
  with assms [OF s] show "dist_moves ck (ds_db s) (ds_db (fst (case f (ds_db s) of (d, a) \<Rightarrow> (s\<lparr>ds_db := d\<rparr>, a)))) \<and>
    safe ck Q (ds_db (fst (case f (ds_db s) of (d, a) \<Rightarrow> (s\<lparr>ds_db := d\<rparr>, a))))
      (Ret (snd (case f (ds_db s) of (d, a) \<Rightarrow> (s\<lparr>ds_db := d\<rparr>, a))))"
    by (simp add: safe_Ret)
qed

lemma safe_db_query:
  "(\<And>e. dist_grows ck d e \<Longrightarrow> dist_ok ck e \<Longrightarrow> Q e (f e)) \<Longrightarrow> safe ck Q d (db_query f)"
  unfolding db_query_def by (rule safe_db_act) (simp add: dist_moves_refl)

lemma safe_outside:
  "(\<And>s. ds_db (fst (f s)) = ds_db s) \<Longrightarrow>
   (\<And>e a. dist_grows ck d e \<Longrightarrow> dist_ok ck e \<Longrightarrow> safe ck Q e (k a)) \<Longrightarrow> safe ck Q d (act f k)"
  by (rule safe_act) (simp add: dist_moves_refl)

lemma safe_dcount:
  "(\<And>s. ds_db (f s) = ds_db s) \<Longrightarrow>
   (\<And>e. dist_grows ck d e \<Longrightarrow> dist_ok ck e \<Longrightarrow> safe ck Q e p) \<Longrightarrow> safe ck Q d (dcount f p)"
  unfolding dcount_def by (rule safe_outside) simp_all

lemma safe_dload: "(\<And>e a. Q e a) \<Longrightarrow> safe ck Q d (dload f)"
  unfolding dload_def by (rule safe_outside) (simp_all add: safe_Ret)

lemma safe_cache:
  "(\<And>e r. Q e r) \<Longrightarrow> safe ck Q d (GetIdempotency c fault key)"
  "(\<And>e r. Q' e r) \<Longrightarrow> safe ck Q' d (SetIdempotency c fault' key' pid fingerprint)"
  by (auto simp: GetIdempotency_def SetIdempotency_def redis_act_def
      intro!: safe_Ret safe_outside split: option.split)

subsection \<open>Transactions\<close>

lemma in_tx_moves:
  assumes "dist_ok ck d"
    and "\<And>d1 a. body d = (d1, Inr a) \<Longrightarrow> dist_moves ck d d1 \<and> Q d1 a"
  shows "dist_moves ck d (fst (in_tx fail e b c body d)) \<and>
    okay Q (fst (in_tx fail e b c body d)) (snd (in_tx fail e b c body d))"
proof (cases "body d")
  case (Pair d1 r)
  with assms show ?thesis
    by (cases r) (auto simp: in_tx_def dist_moves_refl split: option.split)
qed

lemma safe_tx:
  assumes "\<And>e0 d1 a. dist_grows ck d e0 \<Longrightarrow> dist_ok ck e0 \<Longrightarrow> body e0 = (d1, Inr a) \<Longrightarrow> dist_moves ck e0 d1 \<and> Q d1 a"
  shows "safe ck (okay Q) d (db_act (in_tx fail e b c body))"
  by (rule safe_db_act, rule in_tx_moves) (use assms in blast)+

lemma appendEventTx_Inr:
  "appendEventTx ck e k pid ty from to message md d = (d', Inr u) \<Longrightarrow>
   \<exists>r. d' = d\<lparr>db_events := db_events d @ [r]\<rparr>"
  by (auto simp: appendEventTx_def Let_def insert_event_def split: sum.splits if_splits)

lemma event_moves:
  assumes "dist_ok ck d" and "appendEventTx ck e k pid ty from to message md d = (d', Inr u)"
  shows "dist_moves ck d d' \<and> db_payments d' = db_payments d"
proof -
  obtain r where d': "d' = d\<lparr>db_events := db_events d @ [r]\<rparr>" using appendEventTx_Inr [OF assms(2)] by blast
  have "dist_moves ck d d'"
    by (rule payments_move [OF assms(1), where P = "\<lambda>_. False" and g = id])
      (simp_all add: d' same_books_def rows_grow_append)
  then show ?thesis by (simp add: d')
qed

lemma select_payment_Inr:
  "select_payment fault P d = Inr (p, fp) \<Longrightarrow>
   \<exists>r\<in>set (db_payments d). P r \<and> p = fst (scanPayment r) \<and> fp = pr_fingerprint r"
  by (auto simp: select_payment_def scanPayment_def dest!: query_row_Inr split: sum.splits)

lemma getPayment_Inr:
  "getPaymentTxForUpdate ck fault pid d = Inr p \<Longrightarrow>
   \<exists>r\<in>set (db_payments d). ck (pr_id r) = ck pid \<and> p = fst (scanPayment r)"
  unfolding getPaymentTxForUpdate_def by (auto dest!: select_payment_Inr split: sum.splits prod.splits)

text \<open>The payment has the id asked for, as far as the collation can tell.\<close>

definition named :: "collation \<Rightarrow> string \<Rightarrow> db \<Rightarrow> payment \<Rightarrow> bool" where
  "named ck pid d p \<longleftrightarrow> known d p \<and> ck (pay_id p) = ck pid"

lemma getPayment_named: "getPaymentTxForUpdate ck fault pid d = Inr p \<Longrightarrow> named ck pid d p"
  using getPayment_Inr [of ck fault pid d p] known_scan
  by (auto simp: named_def) (simp add: scanPayment_def)

lemma named_stays: "dist_grows ck d d' \<Longrightarrow> named ck pid d p \<Longrightarrow> named ck pid d' p"
  by (auto simp: named_def intro: known_stays)

lemma safe_RecordEvent: "safe ck (\<lambda>_ _. True) d (repo_RecordEvent ck e pid ty message md)"
proof -
  have "safe ck (okay (\<lambda>_ _. True)) d (repo_RecordEvent ck e pid ty message md)"
    unfolding repo_RecordEvent_def
    by (rule safe_tx) (auto dest: event_moves split: sum.splits)
  then show ?thesis by (rule safe_weaken) simp
qed

lemma safe_GetPayment: "safe ck (okay (named ck pid)) d (repo_GetPayment ck fault pid)"
  unfolding repo_GetPayment_def
proof (rule safe_db_query)
  fix e show "okay (named ck pid) e (getPaymentTxForUpdate ck fault pid e)"
    by (cases "getPaymentTxForUpdate ck fault pid e") (simp_all add: getPayment_named)
qed

lemma safe_create_tx:
  "safe ck (okay (\<lambda>d _. keyed ck d key fp (pay_id p))) d (db_act (create_tx ck e p key fp))"
  unfolding create_tx_def
proof (rule safe_tx)
  fix e0 d2 a
  assume ok: "dist_ok ck e0"
    and "(case stmt (sq_fault e 1) (insert_payment ck (new_payment_row e p key fp) e0) of
        Inl err \<Rightarrow> (e0, Inl (err = Duplicate, sql_go err))
      | Inr d1 \<Rightarrow> (case appendEventTx ck e 2 (pay_id p) ''PAYMENT_CREATED'' StatusNone StatusInit
            ''distributed payment persisted with a MySQL idempotency key'' None d1 of
          (d2, Inl err) \<Rightarrow> (d2, Inl (False, err)) | (d2, Inr _) \<Rightarrow> (d2, Inr ()))) = (d2, Inr a)"
  then obtain d1 u where ins: "insert_payment ck (new_payment_row e p key fp) e0 = Inr d1"
    and ev: "appendEventTx ck e 2 (pay_id p) ''PAYMENT_CREATED'' StatusNone StatusInit
      ''distributed payment persisted with a MySQL idempotency key'' None d1 = (d2, Inr u)"
    by (auto split: sum.splits prod.splits)
  have d1: "dist_moves ck e0 d1"
    by (rule payment_inserted [OF ok ins]) (simp add: new_payment_row_def)
  from event_moves [OF _ ev] d1 have d2: "dist_moves ck e0 d2" "db_payments d2 = db_payments d1"
    by (auto simp: dist_moves_def intro: dist_grows_trans)
  have "new_payment_row e p key fp \<in> set (db_payments d1)"
    using ins by (auto simp: insert_payment_def split: if_splits)
  with d2 show "dist_moves ck e0 d2 \<and> keyed ck d2 key fp (pay_id p)"
    unfolding keyed_def by (force simp: new_payment_row_def)
qed

text \<open>\<open>BEGIN\<close> fixes the gid of a payment that is INIT.\<close>

lemma begin_updates:
  assumes ok: "dist_ok ck d" and p: "getPaymentTxForUpdate ck fault pid d = Inr p" and "pay_status p = StatusInit"
    and rows: "rows = map (\<lambda>r. if ck (pr_id r) = ck pid \<and> pr_status r = StatusInit
      then r\<lparr>pr_gid := Some gid, pr_status := StatusProcessing, pr_updated := now\<rparr> else r) (db_payments d)"
  shows "dist_moves ck d (d\<lparr>db_payments := rows\<rparr>) \<and> tracks ck (d\<lparr>db_payments := rows\<rparr>) pid gid"
proof
  show "dist_moves ck d (d\<lparr>db_payments := rows\<rparr>)"
    by (rule payments_move [OF ok, where P = "\<lambda>r. ck (pr_id r) = ck pid \<and> pr_status r = StatusInit"
          and g = "\<lambda>r. r\<lparr>pr_gid := Some gid, pr_status := StatusProcessing, pr_updated := now\<rparr>"])
      (simp_all add: rows same_books_def rows_grow_refl pay_row_moves_def)
  obtain r where "r \<in> set (db_payments d)" "ck (pr_id r) = ck pid" "pr_status r = StatusInit"
    using getPayment_Inr [OF p] assms(3) by (auto simp: scanPayment_def)
  then have "r\<lparr>pr_gid := Some gid, pr_status := StatusProcessing, pr_updated := now\<rparr> \<in> set rows"
    unfolding rows by (auto intro!: image_eqI [of _ _ r])
  then show "tracks ck (d\<lparr>db_payments := rows\<rparr>) pid gid"
    unfolding tracks_def using \<open>ck (pr_id r) = ck pid\<close>
    by (intro bexI [of _ "r\<lparr>pr_gid := Some gid, pr_status := StatusProcessing, pr_updated := now\<rparr>"]) simp_all
qed

lemma safe_begin_tx: "safe ck (okay (\<lambda>d _. tracks ck d pid gid)) d (db_act (begin_tx ck e pid gid))"
  unfolding begin_tx_def
proof (rule safe_tx)
  let ?hit = "\<lambda>r. ck (pr_id r) = ck pid \<and> pr_status r = StatusInit"
  let ?new = "\<lambda>r. r\<lparr>pr_gid := Some gid, pr_status := StatusProcessing, pr_updated := sq_now e 2\<rparr>"
  fix e0 d2 a
  assume ok: "dist_ok ck e0"
    and "(case getPaymentTxForUpdate ck (sq_fault e 1) pid e0 of Inl err \<Rightarrow> (e0, Inl err)
      | Inr p \<Rightarrow> if pay_status p \<noteq> StatusInit then (e0, Inl ErrInvalidTransition)
        else let hit = ?hit in
          case stmt (sq_fault e 2)
            (if list_ex (\<lambda>r. \<not> hit r \<and> map_option ck (pr_gid r) = Some (ck gid)) (db_payments e0)
             then Inl Duplicate else sql_update hit (\<lambda>r. Some (?new r)) (db_payments e0)) of
            Inl err \<Rightarrow> (e0, Inl (sql_go err))
          | Inr (rows, affected) \<Rightarrow>
              let d1 = e0\<lparr>db_payments := rows\<rparr> in
              if affected \<noteq> 1 then (d1, Inl ErrInvalidTransition)
              else appendEventTx ck e 3 pid ''DTM_TCC_STARTED'' StatusInit StatusProcessing
                ''DTM global TCC transaction prepared'' (Some [''gid'' \<mapsto> gid]) d1) = (d2, Inr a)"
  then obtain p rows where p: "getPaymentTxForUpdate ck (sq_fault e 1) pid e0 = Inr p" "pay_status p = StatusInit"
    and upd: "\<exists>n. sql_update ?hit (\<lambda>r. Some (?new r)) (db_payments e0) = Inr (rows, n)"
    and ev: "appendEventTx ck e 3 pid ''DTM_TCC_STARTED'' StatusInit StatusProcessing
        ''DTM global TCC transaction prepared'' (Some [''gid'' \<mapsto> gid]) (e0\<lparr>db_payments := rows\<rparr>) = (d2, Inr a)"
    by (auto simp: Let_def split: sum.splits if_splits prod.splits)
  have rows: "rows = map (\<lambda>r. if ?hit r then ?new r else r) (db_payments e0)"
    using upd by (auto simp: sql_update_Inr)
  from begin_updates [OF ok p rows] event_moves [OF _ ev]
  show "dist_moves ck e0 d2 \<and> tracks ck d2 pid gid"
    by (auto simp: dist_moves_def intro: dist_grows_trans tracks_stays)
qed

text \<open>\<open>Finalize\<close>: the caller has seen the evidence for SUCCESS.\<close>

lemma finalize_updates:
  assumes ok: "dist_ok ck d" and st: "Terminal status"
    and success: "status = StatusSuccess \<Longrightarrow> tracks ck d pid gid \<and> evidence ck d gid pid"
    and d1: "d1 = d\<lparr>db_payments := map (\<lambda>r. if ck (pr_id r) = ck pid \<and> pr_status r = StatusProcessing
      then r\<lparr>pr_status := status, pr_failure := reason, pr_updated := now\<rparr> else r) (db_payments d)\<rparr>"
  shows "dist_moves ck d d1"
proof (rule payments_move [OF ok, where P = "\<lambda>r. ck (pr_id r) = ck pid \<and> pr_status r = StatusProcessing"
      and g = "\<lambda>r. r\<lparr>pr_status := status, pr_failure := reason, pr_updated := now\<rparr>"])
  fix r assume r: "r \<in> set (db_payments d)" "ck (pr_id r) = ck pid \<and> pr_status r = StatusProcessing"
  have "stage status = 2" using st by (simp add: stage_terminal)
  with r show "pay_row_moves r (r\<lparr>pr_status := status, pr_failure := reason, pr_updated := now\<rparr>)"
    by (simp add: pay_row_moves_def)
  assume "pr_status (r\<lparr>pr_status := status, pr_failure := reason, pr_updated := now\<rparr>) = StatusSuccess"
  then have "tracks ck d pid gid" "evidence ck d gid pid" using success by simp_all
  moreover from this(1) obtain r' where "r' \<in> set (db_payments d)" "ck (pr_id r') = ck pid" "pr_gid r' = Some gid"
    unfolding tracks_def by blast
  moreover from this r have "r' = r" by (intro dist_ok_unique(1) [OF ok]) auto
  ultimately show "\<exists>g. pr_gid (r\<lparr>pr_status := status, pr_failure := reason, pr_updated := now\<rparr>) = Some g \<and>
      evidence ck d g (pr_id (r\<lparr>pr_status := status, pr_failure := reason, pr_updated := now\<rparr>))"
    using r by (auto simp: evidence_def confirmed_row_def posted_row_def)
qed (simp_all add: d1 same_books_def rows_grow_refl)

lemma safe_finalize_tx:
  assumes st: "Terminal status"
    and success: "status = StatusSuccess \<Longrightarrow> tracks ck d pid gid \<and> evidence ck d gid pid"
  shows "safe ck (okay (\<lambda>d r. case r of None \<Rightarrow> True | Some p \<Rightarrow> named ck pid d p)) d
    (db_act (finalize_tx ck e pid status reason message))"
  unfolding finalize_tx_def
proof (rule safe_tx)
  let ?hit = "\<lambda>r. ck (pr_id r) = ck pid \<and> pr_status r = StatusProcessing"
  let ?new = "\<lambda>r. r\<lparr>pr_status := status, pr_failure := reason, pr_updated := sq_now e 2\<rparr>"
  fix e0 d2 a
  assume grows: "dist_grows ck d e0" and ok: "dist_ok ck e0"
    and run: "(case getPaymentTxForUpdate ck (sq_fault e 1) pid e0 of Inl err \<Rightarrow> (e0, Inl err)
      | Inr p \<Rightarrow> if Terminal (pay_status p) then
          (e0, if pay_status p = status then Inr (Some p) else Inl ErrInvalidTransition)
        else if pay_status p \<noteq> StatusProcessing then (e0, Inl ErrInvalidTransition)
        else case stmt (sq_fault e 2) (sql_update ?hit (\<lambda>r. Some (?new r)) (db_payments e0)) of
            Inl err \<Rightarrow> (e0, Inl (sql_go err))
          | Inr (rows, _) \<Rightarrow>
              (case appendEventTx ck e 3 pid ''STATUS_CHANGED'' (pay_status p) status
                  (if message = '''' then ''DTM TCC transaction finalized'' else message) None
                  (e0\<lparr>db_payments := rows\<rparr>) of
                (d2, Inl err) \<Rightarrow> (d2, Inl err) | (d2, Inr _) \<Rightarrow> (d2, Inr None))) = (d2, Inr a)"
  then obtain p where p: "getPaymentTxForUpdate ck (sq_fault e 1) pid e0 = Inr p"
    by (auto split: sum.splits)
  show "dist_moves ck e0 d2 \<and> (case a of None \<Rightarrow> True | Some p \<Rightarrow> named ck pid d2 p)"
  proof (cases "Terminal (pay_status p)")
    case True
    with run p dist_moves_refl [OF ok] show ?thesis by (auto intro: getPayment_named split: if_splits)
  next
    case False
    with run p obtain rows message' u where upd: "\<exists>n. sql_update ?hit (\<lambda>r. Some (?new r)) (db_payments e0) = Inr (rows, n)"
      and ev: "appendEventTx ck e 3 pid ''STATUS_CHANGED'' (pay_status p) status message' None
        (e0\<lparr>db_payments := rows\<rparr>) = (d2, Inr u)" and a: "a = None"
      by (auto split: sum.splits if_splits prod.splits)
    have "dist_moves ck e0 (e0\<lparr>db_payments := rows\<rparr>)"
    proof (rule finalize_updates [OF ok st])
      show "status = StatusSuccess \<Longrightarrow> tracks ck e0 pid gid \<and> evidence ck e0 gid pid"
        using success tracks_stays [OF grows] evidence_stays [OF grows] by blast
      show "e0\<lparr>db_payments := rows\<rparr> =
          e0\<lparr>db_payments := map (\<lambda>r. if ?hit r then r\<lparr>pr_status := status, pr_failure := reason,
            pr_updated := sq_now e 2\<rparr> else r) (db_payments e0)\<rparr>"
        using upd by (auto simp: sql_update_Inr)
    qed
    with event_moves [OF _ ev] a show ?thesis by (auto simp: dist_moves_def intro: dist_grows_trans)
  qed
qed

subsection \<open>Methods of the repository\<close>

lemma safe_Finalize:
  assumes "status = StatusSuccess \<Longrightarrow> tracks ck d pid gid \<and> evidence ck d gid pid"
  shows "safe ck (okay (named ck pid)) d (repo_Finalize ck e pid status reason message)"
proof (cases "Terminal status")
  case False
  then have "status \<noteq> StatusSuccess \<and> status \<noteq> StatusFailed \<and> status \<noteq> StatusClosed" by (cases status) simp_all
  then show ?thesis by (simp add: repo_Finalize_def safe_Ret)
next
  case True
  then have "\<not> (status \<noteq> StatusSuccess \<and> status \<noteq> StatusFailed \<and> status \<noteq> StatusClosed)" by (cases status) simp_all
  moreover have "safe ck (okay (named ck pid)) d
      (and_then (db_act (finalize_tx ck e pid status reason message)) (\<lambda>r. case r of
          Some p \<Rightarrow> Ret (Inr p) | None \<Rightarrow> repo_GetPayment ck (sq_fault e 6) pid))"
    by (rule safe_and_then [OF safe_finalize_tx [OF True assms]])
      (auto intro: safe_Ret safe_GetPayment split: option.splits)
  ultimately show ?thesis unfolding repo_Finalize_def by (simp only: if_False)
qed

lemma safe_find:
  "safe ck (okay (\<lambda>d (p, fp). known d p \<and> keyed ck d key fp (pay_id p))) d (findByIdempotencyKey ck fault key)"
  unfolding findByIdempotencyKey_def
proof (rule safe_db_query)
  fix e
  show "okay (\<lambda>d (p, fp). known d p \<and> keyed ck d key fp (pay_id p)) e
      (select_payment fault (\<lambda>r. ck (pr_key r) = ck key) e)"
  proof (cases "select_payment fault (\<lambda>r. ck (pr_key r) = ck key) e")
    case (Inr x)
    obtain p fp where x: "x = (p, fp)" by (cases x)
    from select_payment_Inr [OF Inr [unfolded x]]
    obtain r where r: "r \<in> set (db_payments e)" "ck (pr_key r) = ck key" "p = fst (scanPayment r)" "fp = pr_fingerprint r"
      by blast
    then have "keyed ck e key fp (pay_id p)" unfolding keyed_def by (auto simp: scanPayment_def)
    moreover have "known e p" using r known_scan by blast
    ultimately show ?thesis by (simp add: Inr x)
  qed simp
qed

lemma safe_Verify:
  "safe ck (\<lambda>d r. case r of None \<Rightarrow> True | Some p \<Rightarrow> known d p \<and> keyed ck d key fp (pay_id p)) d
     (repo_VerifyCachedIdempotency ck fault pid key fp)"
  unfolding repo_VerifyCachedIdempotency_def
proof (rule safe_db_query)
  fix e
  let ?sel = "select_payment fault (\<lambda>r. ck (pr_id r) = ck pid \<and> ck (pr_key r) = ck key \<and> ck (pr_fingerprint r) = ck fp) e"
  show "case (case ?sel of Inl _ \<Rightarrow> None | Inr (p, _) \<Rightarrow> Some p) of None \<Rightarrow> True
      | Some p \<Rightarrow> known e p \<and> keyed ck e key fp (pay_id p)"
  proof (cases ?sel)
    case (Inr x)
    obtain p fp' where x: "x = (p, fp')" by (cases x)
    from select_payment_Inr [OF Inr [unfolded x]]
    obtain r where r: "r \<in> set (db_payments e)" "ck (pr_key r) = ck key" "ck (pr_fingerprint r) = ck fp"
      "p = fst (scanPayment r)"
      by blast
    then have "keyed ck e key fp (pay_id p)" unfolding keyed_def by (auto simp: scanPayment_def)
    moreover have "known e p" using r known_scan by blast
    ultimately show ?thesis by (simp add: Inr x)
  qed simp
qed

text \<open>
  \<open>CreatePayment\<close>: the payment of the key, new (the one passed in, so far as the row can tell) or
  the one that was there.
\<close>

lemma safe_CreatePayment:
  "safe ck (okay (\<lambda>d (p', created). keyed ck d key fp (pay_id p') \<and>
      (if created then p' = p\<lparr>pay_mode := ''distributed''\<rparr> else known d p'))) d
    (repo_CreatePayment ck e p key fp)"
  unfolding repo_CreatePayment_def
proof (rule safe_bind [OF safe_create_tx])
  fix e0 and r :: "bool \<times> go_error + unit"
  assume r: "okay (\<lambda>d _. keyed ck d key fp (pay_id p)) e0 r"
  let ?Q = "\<lambda>d (p', created). keyed ck d key fp (pay_id p') \<and>
      (if created then p' = p\<lparr>pay_mode := ''distributed''\<rparr> else known d p')"
  show "safe ck (okay ?Q) e0
      (case r of Inr _ \<Rightarrow> Ret (Inr (p\<lparr>pay_mode := ''distributed''\<rparr>, True))
       | Inl (duplicate, err) \<Rightarrow> if duplicate then
           and_then (findByIdempotencyKey ck (sq_fault e 5) key) (\<lambda>(existing, existingFingerprint).
             Ret (if existingFingerprint \<noteq> fp then Inl ErrIdempotencyConflict else Inr (existing, False)))
         else Ret (Inl err))"
  proof (cases r)
    case (Inr u)
    with r show ?thesis by (simp add: safe_Ret)
  next
    case (Inl x)
    have "safe ck (okay ?Q) e0 (and_then (findByIdempotencyKey ck (sq_fault e 5) key) (\<lambda>(existing, existingFingerprint).
        Ret (if existingFingerprint \<noteq> fp then Inl ErrIdempotencyConflict else Inr (existing, False))))"
      by (rule safe_and_then [OF safe_find]) (auto intro!: safe_Ret)
    then show ?thesis by (cases x) (simp add: Inl safe_Ret)
  qed
qed

lemma safe_BeginTCC:
  "safe ck (okay (\<lambda>d p. named ck pid d p \<and> tracks ck d pid gid)) d (repo_BeginTCC ck e pid gid)"
  unfolding repo_BeginTCC_def
proof (rule safe_and_then [OF safe_begin_tx])
  fix e0 a assume "tracks ck e0 pid gid"
  then show "safe ck (okay (\<lambda>d p. named ck pid d p \<and> tracks ck d pid gid)) e0 (repo_GetPayment ck (sq_fault e 6) pid)"
    unfolding repo_GetPayment_def
    by (intro safe_db_query)
      (auto simp: okay_def intro: getPayment_named tracks_stays split: sum.split)
qed

text \<open>The states of the participants: a CONFIRMED reservation and a POSTED entry that were seen stay.\<close>

definition seen ::
  "collation \<Rightarrow> string \<Rightarrow> string \<Rightarrow> db \<Rightarrow> reservation_state option \<times> ledger_state option \<times> string \<Rightarrow> bool" where
  "seen ck gid pid d x \<longleftrightarrow> success_evidence x \<longrightarrow> evidence ck d gid pid"

lemma safe_optional:
  "safe ck (okay (\<lambda>d x. \<forall>r. x = Some r \<longrightarrow> r \<in> set (table d) \<and> P r)) d (query_optional fault P table)"
  unfolding query_optional_def
  by (rule safe_db_query) (auto simp: okay_def dest: query_row_Inr split: sum.splits)

lemma safe_ParticipantStates:
  "safe ck (okay (seen ck gid pid)) d (repo_ParticipantStates ck e gid pid)"
  unfolding repo_ParticipantStates_def
proof (rule safe_and_then [OF safe_optional], rule safe_and_then [OF safe_optional],
    rule safe_and_then [OF safe_optional], rule safe_Ret)
  fix d0 res d1 led d2 trans
  assume res: "\<forall>r. res = Some r \<longrightarrow> r \<in> set (db_reservations d0) \<and> ck (rr_gid r) = ck gid \<and> ck (rr_payment r) = ck pid"
    and g1: "dist_grows ck d0 d1"
    and led: "\<forall>r. led = Some r \<longrightarrow> r \<in> set (db_ledger d1) \<and> ck (lr_gid r) = ck gid \<and> ck (lr_payment r) = ck pid"
    and g2: "dist_grows ck d1 d2"
  have "evidence ck d2 gid pid" if "map_option rr_status res = Some CONFIRMED" "map_option lr_status led = Some POSTED"
  proof -
    have "\<exists>r\<in>set (db_reservations d0). confirmed_row ck gid pid r"
      using that(1) res by (auto simp: confirmed_row_def)
    then have "\<exists>r\<in>set (db_reservations d2). confirmed_row ck gid pid r"
      by (rule confirmed_stays [OF dist_grows_trans [OF g1 g2]])
    moreover have "\<exists>r\<in>set (db_ledger d1). posted_row ck gid pid r"
      using that(2) led by (auto simp: posted_row_def)
    then have "\<exists>r\<in>set (db_ledger d2). posted_row ck gid pid r" by (rule posted_stays [OF g2])
    ultimately show ?thesis by (simp add: evidence_def)
  qed
  then show "okay (seen ck gid pid) d2 (Inr (map_option rr_status res, map_option lr_status led,
      case trans of None \<Rightarrow> '''' | Some t \<Rightarrow> tg_status t))"
    by (auto simp: seen_def success_evidence_def)
qed

end
