(* ===== verification/Dist_Runs.thy ===== *)
theory Dist_Runs
  imports Dist_Safety
begin

section \<open>Runs of the distributed mode\<close>

text \<open>
  The methods of the coordinator ensure their claims, with the DTM client as a parameter that is
  only known to do steps of the world outside and to run the function it is given. The system
  interleaves any number of them with the participants, DTM, Redis and other coordinators.
\<close>

subsection \<open>Reconciliation\<close>

lemma safe_reconcile:
  assumes "known d p"
  shows "safe ck (named ck (pay_id p)) d (reconcile ck e p)"
proof (cases "pay_status p \<noteq> StatusProcessing \<or> pay_gid p = ''''")
  case True
  with assms show ?thesis by (simp add: reconcile_def safe_Ret named_def)
next
  case False
  let ?fail = "\<lambda>x. if failure_evidence x then
      finalize_or (repo_Finalize ck (e 2) (pay_id p) StatusFailed ''DTM global transaction failed''
        ''reconciler observed DTM Cancel completion'') (Ret p) else Ret p"
  let ?win = "\<lambda>x. if success_evidence x then
      finalize_or (repo_Finalize ck (e 1) (pay_id p) StatusSuccess ''''
        ''reconciler observed all DTM Confirm branches'') (?fail x) else ?fail x"
  have or_safe: "safe ck (named ck (pay_id p)) d1 (finalize_or q next)"
    if "safe ck (okay (named ck (pay_id p))) d1 q"
      "\<And>d2. dist_grows ck d1 d2 \<Longrightarrow> safe ck (named ck (pay_id p)) d2 next" for d1 q "next"
    unfolding finalize_or_def
    by (rule safe_bind [OF that(1)]) (auto intro: safe_Ret that(2) split: sum.split)
  have here: "safe ck (named ck (pay_id p)) d1 (Ret p)" if "dist_grows ck d d1" for d1
    using known_stays [OF that assms] by (simp add: safe_Ret named_def)
  have fail: "safe ck (named ck (pay_id p)) d1 (?fail x)" if "dist_grows ck d d1" for d1 x
    using here [OF that] by (auto intro!: or_safe safe_Finalize intro: here dist_grows_trans [OF that])
  have "safe ck (named ck (pay_id p)) d1 (?win x)"
    if d1: "dist_grows ck d d1" and x: "seen ck (pay_gid p) (pay_id p) d1 x" for d1 x
  proof (cases "success_evidence x")
    case True
    have "tracks ck d1 (pay_id p) (pay_gid p)"
      using known_tracks [OF known_stays [OF d1 assms]] False by simp
    moreover have "evidence ck d1 (pay_gid p) (pay_id p)" using x True by (simp add: seen_def)
    ultimately have "safe ck (okay (named ck (pay_id p))) d1 (repo_Finalize ck (e 1) (pay_id p) StatusSuccess ''''
        ''reconciler observed all DTM Confirm branches'')"
      by (intro safe_Finalize) simp
    then have "safe ck (named ck (pay_id p)) d1 (finalize_or (repo_Finalize ck (e 1) (pay_id p) StatusSuccess ''''
        ''reconciler observed all DTM Confirm branches'') (?fail x))"
      by (rule or_safe) (rule fail [OF dist_grows_trans [OF d1]])
    with True show ?thesis by (simp only: if_True)
  next
    case False
    with fail [OF d1] show ?thesis by (simp only: if_False)
  qed
  note win = this
  have "safe ck (named ck (pay_id p)) d
      (bind_prog (repo_ParticipantStates ck (e 0) (pay_gid p) (pay_id p)) (\<lambda>r. case r of
         Inl _ \<Rightarrow> Ret p | Inr x \<Rightarrow> ?win x))"
  proof (rule safe_bind [OF safe_ParticipantStates])
    fix d1 and r :: "go_error + reservation_state option \<times> ledger_state option \<times> string"
    assume "dist_grows ck d d1" "okay (seen ck (pay_gid p) (pay_id p)) d1 r"
    then show "safe ck (named ck (pay_id p)) d1 (case r of Inl _ \<Rightarrow> Ret p | Inr x \<Rightarrow> ?win x)"
      by (cases r) (simp_all only: sum.case okay_simps here win)
  qed
  with False show ?thesis unfolding reconcile_def Let_def by (simp only: if_False)
qed

lemma safe_waitForOutcome:
  "safe ck (\<lambda>d proven. proven \<longrightarrow> success \<longrightarrow> evidence ck d gid pid) d
     (waitForOutcome ck pid gid success polls)"
proof (induction polls arbitrary: d)
  case Nil
  show ?case by (simp add: safe_Ret)
next
  case (Cons x polls)
  obtain e stop where x: "x = (e, stop)" by (cases x)
  show ?case
    unfolding x waitForOutcome.simps
    by (rule safe_bind [OF safe_ParticipantStates])
      (auto simp: seen_def intro: Cons.IH safe_Ret split: sum.splits)
qed

subsection \<open>Answers of \<open>Create\<close>\<close>

text \<open>
  The answer shows a row of the table or, only when the payment is new, the zero value, which is
  answered when the payment cannot be read after the global transaction; and it is the payment of the key, unless its id is empty: after
  an \<open>ErrInvalidTransition\<close> of \<open>Finalize\<close> the code reads the payment with the empty id.
\<close>

definition answers :: "collation \<Rightarrow> string \<Rightarrow> string \<Rightarrow> db \<Rightarrow> create_result \<Rightarrow> bool" where
  "answers ck key fp d res \<longleftrightarrow>
     (cre_payment res = zero_payment \<and> \<not> cre_replay res \<or> known d (cre_payment res)) \<and>
     (ck (pay_id (cre_payment res)) = ck '''' \<or> keyed ck d key fp (pay_id (cre_payment res)))"

lemma answers_stays: "dist_grows ck d d' \<Longrightarrow> answers ck key fp d res \<Longrightarrow> answers ck key fp d' res"
  by (auto simp: answers_def intro: known_stays keyed_stays)

lemma answers_named:
  "named ck pid d p \<Longrightarrow> keyed ck d key fp pid \<Longrightarrow> answers ck key fp d \<lparr>cre_payment = p, cre_replay = b\<rparr>"
  by (simp add: answers_def named_def keyed_def)

lemma answers_zero: "answers ck key fp d \<lparr>cre_payment = zero_payment, cre_replay = False\<rparr>"
  by (simp add: answers_def zero_payment_def)

lemma answers_read:
  "named ck pid d p \<Longrightarrow> keyed ck d key fp pid \<or> pid = '''' \<Longrightarrow> answers ck key fp d \<lparr>cre_payment = p, cre_replay = b\<rparr>"
  by (auto simp: answers_named) (simp add: answers_def named_def)

lemma safe_replayed:
  assumes "known d p" and "keyed ck d key fp (pay_id p)" and "dp_ck q = ck"
  shows "safe ck (okay (answers ck key fp)) d (replayed q e p)"
  unfolding replayed_def assms(3)
proof (rule safe_dcount)
  fix d1 assume d1: "dist_grows ck d d1"
  show "safe ck (okay (answers ck key fp)) d1 (bind_prog (reconcile ck e p)
      (\<lambda>p'. Ret (Inr \<lparr>cre_payment = p', cre_replay = True\<rparr>)))"
  proof (rule safe_bind [OF safe_reconcile [OF known_stays [OF d1 assms(1)]]])
    fix d2 p' assume "dist_grows ck d1 d2" "named ck (pay_id p) d2 p'"
    with assms(2) d1 show "safe ck (okay (answers ck key fp)) d2 (Ret (Inr \<lparr>cre_payment = p', cre_replay = True\<rparr>))"
      by (auto intro!: safe_Ret answers_named keyed_stays [OF dist_grows_trans])
  qed
qed simp

lemma safe_read_payment:
  assumes "keyed ck d key fp pid \<or> pid = ''''" and "dp_ck q = ck"
  shows "safe ck (okay (answers ck key fp)) d (read_payment q e pid)"
  unfolding read_payment_def assms(2)
proof (rule safe_bind [OF safe_GetPayment])
  fix d1 and r :: "go_error + payment"
  assume d1: "dist_grows ck d d1" and r: "okay (named ck pid) d1 r"
  have key: "keyed ck d1 key fp pid \<or> pid = ''''" using assms(1) keyed_stays [OF d1] by blast
  show "safe ck (okay (answers ck key fp)) d1
      (Ret (Inr (created_result (case r of Inl _ \<Rightarrow> zero_payment | Inr p \<Rightarrow> p))))"
    using r answers_read [OF _ key] answers_zero by (cases r) (simp_all add: safe_Ret created_result_def)
qed

lemma safe_finish:
  assumes "keyed ck d key fp pid" and "dp_ck q = ck"
    and "status = StatusSuccess \<Longrightarrow> tracks ck d pid gid \<and> evidence ck d gid pid"
  shows "safe ck (okay (answers ck key fp)) d (finish q e e' pid status reason message)"
  unfolding finish_def assms(2)
proof (rule safe_bind [OF safe_Finalize [OF assms(3)]])
  fix d1 and r :: "go_error + payment"
  assume d1: "dist_grows ck d d1" and r: "okay (named ck pid) d1 r"
  have key: "keyed ck d1 key fp pid" using keyed_stays [OF d1 assms(1)] .
  show "safe ck (okay (answers ck key fp)) d1 (case r of
       Inr p \<Rightarrow> Ret (Inr (created_result p))
     | Inl err \<Rightarrow> if err \<noteq> ErrInvalidTransition then Ret (Inl err)
         else read_payment q e' (pay_id zero_payment))"
    using r safe_read_payment [of ck d1 key fp "''''" q e'] assms(2)
      answers_named [OF _ key]
    by (cases r) (simp_all add: created_result_def zero_payment_def safe_Ret)
qed

lemma safe_pending:
  assumes "keyed ck d key fp pid" and "dp_ck q = ck"
  shows "safe ck (okay (answers ck key fp)) d (pending q e e' pid gid message)"
  unfolding pending_def assms(2)
  by (rule safe_bind [OF safe_RecordEvent])
    (auto intro!: safe_read_payment [OF _ assms(2)] disjI1 intro: keyed_stays [OF _ assms(1)])

lemma safe_create_outcome:
  assumes key: "keyed ck d key fp pid" and q: "dp_ck q = ck" and tr: "tracks ck d pid gid"
  shows "safe ck (okay (answers ck key fp)) d (create_outcome_of q e pid gid fault tccErr)"
proof (cases tccErr)
  case None
  show ?thesis
    unfolding create_outcome_of_def None option.case q
  proof (rule safe_bind [OF safe_waitForOutcome])
    fix d1 proven assume d1: "dist_grows ck d d1" and "proven \<longrightarrow> True \<longrightarrow> evidence ck d1 gid pid"
    then show "safe ck (okay (answers ck key fp)) d1 (if proven
        then finish q (de_sql e 13) (de_sql e 14) pid StatusSuccess ''''
          ''DTM confirmed account and ledger branches through BranchBarrier''
        else pending q (de_sql e 15) (de_sql e 16) pid gid
          ''DTM accepted submit; participant confirmation is still being reconciled'')"
      using keyed_stays [OF d1 key] tracks_stays [OF d1 tr] q
      by (auto intro: safe_finish safe_pending)
  qed
next
  case (Some m)
  show ?thesis
    unfolding create_outcome_of_def Some option.case q
  proof (rule safe_bind [OF safe_RecordEvent], rule safe_bind [OF safe_waitForOutcome])
    fix d1 d2 proven assume "dist_grows ck d d1" "dist_grows ck d1 d2"
    then have key': "keyed ck d2 key fp pid" using key by (blast intro: keyed_stays)
    show "safe ck (okay (answers ck key fp)) d2 (if proven
        then finish q (de_sql e 9) (de_sql e 10) pid StatusFailed (truncate_text (''DTM TCC cancelled: '' @ m) 500)
          ''DTM TCC Cancel completed; no POSTED ledger entry is valid''
        else pending q (de_sql e 11) (de_sql e 12) pid gid
          ''DTM abort was accepted, but Cancel completion is not yet proven; payment remains PROCESSING'')"
      using safe_finish [OF key' q, of StatusFailed gid] safe_pending [OF key' q] by simp
  qed
qed

subsection \<open>The world outside the coordinator\<close>

text \<open>
  What else changes the shared state: Redis loses or gains values, DTM writes its own tables and the
  barrier table, a participant serves a request.
\<close>

inductive outside_step ::
  "(barrier \<Rightarrow> business \<Rightarrow> business) \<Rightarrow> collation \<Rightarrow> dist \<Rightarrow> dist \<Rightarrow> bool"
  for call_with_db :: "barrier \<Rightarrow> business \<Rightarrow> business" and ck :: collation where
  redis_changes: "outside_step call_with_db ck s (s\<lparr>ds_redis := redis\<rparr>)"
| dtm_writes: "outside_step call_with_db ck s
    (s\<lparr>ds_db := (ds_db s)\<lparr>db_trans := ts, db_branch_ops := ops, db_barriers := barriers\<rparr>\<rparr>)"
| participant_serves: "outside_step call_with_db ck s
    (s\<lparr>ds_db := fst (handle_branch call_with_db ck sv bop e rq (ds_db s))\<rparr>)"

lemma outside_moves:
  assumes "outside_step call_with_db ck s t" and "atomic_barrier call_with_db" and "dist_ok ck (ds_db s)"
  shows "dist_moves ck (ds_db s) (ds_db t)"
  using assms
proof (induction rule: outside_step.induct)
  case (redis_changes s redis)
  then show ?case by (simp add: dist_moves_refl)
next
  case (dtm_writes s ts ops barriers)
  then show ?case
    by (intro payments_move [where P = "\<lambda>_. False" and g = id]) (simp_all add: same_books_def rows_grow_refl)
next
  case (participant_serves s sv bop e rq)
  then have "tcc_ok ck (ds_db s)" by (simp add: dist_ok_def)
  from handle_branch_moves [OF participant_serves(1) this, of sv bop e rq]
  have "tcc_ok ck (fst (handle_branch call_with_db ck sv bop e rq (ds_db s))) \<and>
      branch_moves ck (ds_db s) (fst (handle_branch call_with_db ck sv bop e rq (ds_db s)))"
    by (metis prod.collapse)
  then show ?case using branch_moves_dist [OF participant_serves(2)] by simp
qed

text \<open>
  The DTM client library talks to DTM and to the participants, and runs the function it is given:
  each step of \<open>TccGlobalTransaction2\<close> is a step of the world outside or one of that function.
  Stated by what follows for claims about steps: an invariant \<open>I\<close> and a relation \<open>G\<close> that the world
  outside keeps, and the function with any \<open>CallBranch\<close> that keeps them, are kept by the whole call.
\<close>

definition dtm_client :: "(barrier \<Rightarrow> business \<Rightarrow> business) \<Rightarrow> dist_params \<Rightarrow> bool" where
  "dtm_client call_with_db q \<longleftrightarrow>
     (\<forall>I G. reflp G \<longrightarrow> transp G \<longrightarrow>
        (\<forall>s t. I s \<longrightarrow> outside_step call_with_db (dp_ck q) s t \<longrightarrow> I t \<and> G s t) \<longrightarrow>
        (\<forall>server gid opts body.
           (\<forall>caller. (\<forall>args s. ensures I G (\<lambda>_ _. True) s (caller args)) \<longrightarrow>
              (\<forall>s. ensures I G (\<lambda>_ _. True) s (body caller))) \<longrightarrow>
           (\<forall>s. ensures I G (\<lambda>_ _. True) s (dp_tcc q server gid opts body))))"

lemma ensures_tcc_body:
  assumes "\<And>args s. ensures I G (\<lambda>_ _. True) s (caller args)"
  shows "ensures I G (\<lambda>_ _. True) s (tcc_body c request fault caller)"
  unfolding tcc_body_def
  by (rule ensures_bind [OF assms]) (auto intro: assms split: option.split)

lemma safe_tcc:
  assumes client: "dtm_client call_with_db q" and barrier: "atomic_barrier call_with_db" and ck: "dp_ck q = ck"
  shows "safe ck (\<lambda>_ _. True) d (dp_tcc q server gid opts (tcc_body c request fault))"
proof -
  have "\<forall>s t. dist_inv ck s \<longrightarrow> outside_step call_with_db (dp_ck q) s t \<longrightarrow> dist_inv ck t \<and> dist_rel ck s t"
    using outside_moves [OF _ barrier] by (simp add: ck dist_inv_def dist_rel_def dist_moves_def)
  moreover have "\<forall>caller. (\<forall>args s. ensures (dist_inv ck) (dist_rel ck) (\<lambda>_ _. True) s (caller args)) \<longrightarrow>
      (\<forall>s. ensures (dist_inv ck) (dist_rel ck) (\<lambda>_ _. True) s (tcc_body c request fault caller))"
    using ensures_tcc_body by blast
  ultimately have "\<forall>s. ensures (dist_inv ck) (dist_rel ck) (\<lambda>_ _. True) s
      (dp_tcc q server gid opts (tcc_body c request fault))"
    using client grows_order [of ck] unfolding dtm_client_def by blast
  then show ?thesis by (simp add: safe_def)
qed

subsection \<open>\<open>Create\<close>\<close>

lemma safe_create_begin:
  assumes "dtm_client cwd q" and "atomic_barrier cwd" and ck: "dp_ck q = ck"
    and key: "keyed ck d (ci_key input) fp pid0"
  shows "safe ck (okay (answers ck (ci_key input) fp)) d (create_begin q e input fault fp pid0 gid)"
  unfolding create_begin_def Let_def ck
proof (rule safe_and_then [OF safe_BeginTCC], rule safe_bind)
  fix d1 p assume d1: "dist_grows ck d d1" and p: "named ck pid0 d1 p \<and> tracks ck d1 pid0 gid"
  show "safe ck (\<lambda>_ _. True) d1 (SetIdempotency (dp_cache q) (de_redis e 3) (ci_key input) (pay_id p) fp)"
    by (rule safe_cache) simp
  fix d2 assume d2: "dist_grows ck d1 d2"
  show "safe ck (okay (answers ck (ci_key input) fp)) d2
      (bind_prog (dp_tcc q (cf_dtm (dp_config q)) gid tcc_opts (tcc_body (dp_config q)
          \<lparr>tr_payment = pay_id p, tr_gid = gid, tr_account = pay_account p, tr_amount = pay_amount p,
            tr_fail_try = False\<rparr> fault)) (create_outcome_of q e (pay_id p) gid fault))"
  proof (rule safe_bind [OF safe_tcc [OF assms(1,2) ck]])
    fix d3 err assume d3: "dist_grows ck d2 d3"
    then have g: "dist_grows ck d1 d3" using d2 by (rule dist_grows_trans [rotated])
    have "keyed ck d3 (ci_key input) fp (pay_id p)"
      using keyed_stays [OF dist_grows_trans [OF d1 g] key] p by (simp add: keyed_def named_def)
    moreover have "tracks ck d3 (pay_id p) gid"
      using p tracks_stays [OF g] by (auto simp: tracks_def named_def)
    ultimately show "safe ck (okay (answers ck (ci_key input) fp)) d3 (create_outcome_of q e (pay_id p) gid fault err)"
      using ck by (intro safe_create_outcome)
  qed
qed

lemma safe_create_fresh:
  assumes "dtm_client cwd q" and "atomic_barrier cwd" and ck: "dp_ck q = ck"
  shows "safe ck (okay (answers ck (ci_key input) fp)) d (create_fresh q e input fault fp)"
proof (cases "safeGenerateGID (de_gid e)")
  case (Inr gid)
  show ?thesis
    unfolding create_fresh_def Inr sum.case ck
  proof (rule safe_and_then [OF safe_CreatePayment], clarify)
    fix d1 p created
    assume key: "keyed ck d1 (ci_key input) fp (pay_id p)"
      and known: "if created then p = (dist_payment e input gid)\<lparr>pay_mode := ''distributed''\<rparr> else known d1 p"
    show "safe ck (okay (answers ck (ci_key input) fp)) d1
        (if \<not> created then
           bind_prog (SetIdempotency (dp_cache q) (de_redis e 2) (ci_key input) (pay_id p) fp)
             (\<lambda>_. replayed q (\<lambda>k. de_sql e (20 + k)) p)
         else create_begin q e input fault fp (pay_id p) gid)"
    proof (cases created)
      case True
      then show ?thesis using safe_create_begin [OF assms key] by simp
    next
      case False
      with known have "known d1 p" by simp
      with key show ?thesis using False
        by (auto intro!: safe_bind [OF safe_cache(2) [where Q' = "\<lambda>_ _. True"]] safe_replayed [OF _ _ ck]
            intro: known_stays keyed_stays)
    qed
  qed
qed (simp add: create_fresh_def safe_Ret)

lemma safe_create_lookup:
  assumes "dtm_client cwd q" and "atomic_barrier cwd" and ck: "dp_ck q = ck"
  shows "safe ck (okay (answers ck (ci_key input) fp)) d (create_lookup q e input fault fp)"
  unfolding create_lookup_def ck
proof (rule safe_bind [OF safe_find])
  fix d1 and r :: "go_error + payment \<times> string"
  assume r: "okay (\<lambda>d (p, fp). known d p \<and> keyed ck d (ci_key input) fp (pay_id p)) d1 r"
  show "safe ck (okay (answers ck (ci_key input) fp)) d1 (case r of
       Inr (existing, existingFingerprint) \<Rightarrow>
         if existingFingerprint \<noteq> fp then Ret (Inl ErrIdempotencyConflict)
         else bind_prog (SetIdempotency (dp_cache q) (de_redis e 1) (ci_key input) (pay_id existing) fp)
             (\<lambda>_. replayed q (\<lambda>k. de_sql e (30 + k)) existing)
     | Inl err \<Rightarrow> if err \<noteq> ErrNotFound then Ret (Inl err) else create_fresh q e input fault fp)"
  proof (cases r)
    case (Inl err)
    then show ?thesis using safe_create_fresh [OF assms] by (simp add: safe_Ret)
  next
    case (Inr x)
    obtain p fp' where x: "x = (p, fp')" by (cases x)
    show ?thesis
    proof (cases "fp' = fp")
      case True
      with r Inr x have "known d1 p" "keyed ck d1 (ci_key input) fp (pay_id p)" by simp_all
      with True Inr x show ?thesis
        by (auto intro!: safe_bind [OF safe_cache(2) [where Q' = "\<lambda>_ _. True"]] safe_replayed [OF _ _ ck]
            intro: known_stays keyed_stays)
    qed (simp add: Inr x safe_Ret)
  qed
qed

lemma safe_create_cached:
  assumes "dtm_client cwd q" and "atomic_barrier cwd" and ck: "dp_ck q = ck"
  shows "safe ck (okay (answers ck (ci_key input) fp)) d (create_cached q e input fault fp)"
  unfolding create_cached_def ck
proof (rule safe_bind [OF safe_cache(1) [where Q = "\<lambda>_ _. True"]])
  fix d1 hit
  show "safe ck (okay (answers ck (ci_key input) fp)) d1 (case hit of
         None \<Rightarrow> create_lookup q e input fault fp
       | Some (pid, cachedFingerprint) \<Rightarrow>
           if cachedFingerprint \<noteq> fp then create_lookup q e input fault fp
           else
             bind_prog (repo_VerifyCachedIdempotency ck (sq_fault (de_sql e 0) 0) pid (ci_key input) fp)
               (\<lambda>verified. case verified of
                  None \<Rightarrow> create_lookup q e input fault fp
                | Some p \<Rightarrow> dcount (\<lambda>s. s\<lparr>ds_cacheHits := ds_cacheHits s + 1\<rparr>)
                      (replayed q (\<lambda>k. de_sql e (1 + k)) p)))"
    by (auto intro!: safe_create_lookup [OF assms] safe_bind [OF safe_Verify] safe_dcount safe_replayed [OF _ _ ck]
        intro: known_stays keyed_stays split: option.splits)
qed simp

lemma safe_Create:
  assumes "dtm_client cwd q" and "atomic_barrier cwd" and ck: "dp_ck q = ck"
    and i: "i = (NormalizeCreateInput (dp_tables q) input)\<lparr>ci_fault := ''''\<rparr>"
  shows "safe ck (okay (answers ck (ci_key i) (Fingerprint i))) d (dist_Create q e input)"
  unfolding dist_Create_def Let_def i [symmetric]
  by (auto intro!: safe_Ret safe_dcount safe_create_cached [OF assms(1-3)] split: option.split)

subsection \<open>The other methods\<close>

lemma okay_True [simp]: "okay (\<lambda>_ _. True) d r"
  by (simp add: okay_def split: sum.split)

lemma safe_then_True:
  "safe ck (okay (\<lambda>_ _. True)) d p \<Longrightarrow> (\<And>e a. safe ck (okay (\<lambda>_ _. True)) e (k a)) \<Longrightarrow>
   safe ck (okay (\<lambda>_ _. True)) d (and_then p k)"
  by (rule safe_and_then)

lemma safe_query_True: "safe ck (okay (\<lambda>_ _. True)) d (db_query f)"
  by (rule safe_db_query) simp

lemma safe_GetPayment_True: "safe ck (okay (\<lambda>_ _. True)) d (repo_GetPayment ck' fault pid)"
  unfolding repo_GetPayment_def by (rule safe_query_True)

lemma safe_Events: "safe ck (okay (\<lambda>_ _. True)) d (repo_Events ck' e pid)"
  unfolding repo_Events_def by (intro safe_then_True safe_GetPayment_True safe_query_True)

lemma safe_Snapshot: "safe ck (okay (\<lambda>_ _. True)) d (repo_Snapshot e)"
  unfolding repo_Snapshot_def by (auto intro!: safe_then_True safe_query_True safe_Ret split: prod.split)

lemma safe_then_known:
  assumes "safe ck (okay (\<lambda>_ _. True)) d q" and "known d p"
    and "\<And>e a. known e p \<Longrightarrow> safe ck (okay Q) e (k a)"
  shows "safe ck (okay Q) d (and_then q k)"
  by (rule safe_and_then [OF assms(1)]) (auto intro: assms(3) known_stays [OF _ assms(2)])

lemma safe_if:
  "(b \<Longrightarrow> safe ck Q d p) \<Longrightarrow> (\<not> b \<Longrightarrow> safe ck Q d p') \<Longrightarrow> safe ck Q d (if b then p else p')"
  by simp

lemma safe_Callback:
  assumes ck: "dp_ck q = ck"
  shows "safe ck (okay (\<lambda>d res. known d (cr_payment res) \<and> Terminal (pay_status (cr_payment res)))) d
    (dist_Callback q e pid i)"
proof -
  let ?Q = "\<lambda>d res. known d (cr_payment res) \<and> Terminal (pay_status (cr_payment res))"
  let ?log = "\<lambda>p. bind_prog (repo_RecordEvent ck (de_sql e 4) (pay_id p) ''CALLBACK_TERMINAL_IGNORED''
      ''external callback ignored because DTM payment is terminal''
      (Some [''event_id'' \<mapsto> cbi_event_id i, ''callback_sequence'' \<mapsto> show_int (sint (cbi_sequence i)),
             ''outcome'' \<mapsto> cbi_outcome i]))
    (\<lambda>_. Ret (Inr \<lparr>cr_payment = p, cr_disposition = CallbackTerminalIgnored\<rparr>))"
  have logged: "safe ck (okay ?Q) d1 (?log p)" if "known d1 p" "Terminal (pay_status p)" for d1 p
    by (rule safe_bind [OF safe_RecordEvent]) (use that in \<open>auto intro!: safe_Ret intro: known_stays\<close>)
  have "safe ck (okay ?Q) d (and_then (repo_GetPayment ck (sq_fault (de_sql e 0) 0) (TrimSpace pid)) (\<lambda>p0.
      bind_prog (reconcile ck (\<lambda>k. de_sql e (1 + k)) p0) (\<lambda>p.
        if Terminal (pay_status p) then ?log p else Ret (Inl ErrInvalidTransition))))"
  proof (rule safe_and_then [OF safe_GetPayment], rule safe_bind)
    fix d1 p0 assume "named ck (TrimSpace pid) d1 p0"
    then show "safe ck (named ck (pay_id p0)) d1 (reconcile ck (\<lambda>k. de_sql e (1 + k)) p0)"
      by (intro safe_reconcile) (simp add: named_def)
    fix d2 p assume "named ck (pay_id p0) d2 p"
    then have "known d2 p" by (simp add: named_def)
    then show "safe ck (okay ?Q) d2 (if Terminal (pay_status p) then ?log p else Ret (Inl ErrInvalidTransition))"
      by (intro safe_if logged safe_Ret) simp_all
  qed
  then show ?thesis unfolding dist_Callback_def ck by (simp add: safe_Ret)
qed

lemma safe_Details:
  assumes ck: "dp_ck q = ck"
  shows "safe ck (okay (\<lambda>d res. known d (det_payment res))) d (dist_Details q e pid)"
  unfolding dist_Details_def ck
proof (rule safe_and_then [OF safe_GetPayment], rule safe_bind, rule safe_reconcile)
  fix d1 p0 assume "named ck (TrimSpace pid) d1 p0"
  then show "known d1 p0" by (simp add: named_def)
next
  fix d1 p0 d2 p assume "named ck (pay_id p0) d2 p"
  then have "known d2 p" by (simp add: named_def)
  then show "safe ck (okay (\<lambda>d res. known d (det_payment res))) d2
      (and_then (repo_Events ck (de_sql e 4) (pay_id p))
        (\<lambda>events. Ret (Inr \<lparr>det_payment = p, det_events = events\<rparr>)))"
    by (rule safe_then_known [OF safe_Events]) (simp add: safe_Ret)
qed

lemma safe_reconcile_all:
  "\<forall>p\<in>set ps. known d p \<Longrightarrow> safe ck (\<lambda>d ps'. \<forall>p\<in>set ps'. known d p) d (reconcile_all ck e k ps)"
proof (induction ps arbitrary: d k)
  case Nil
  show ?case by (simp add: safe_Ret)
next
  case (Cons p ps)
  have "known d p" using Cons.prems by simp
  then show ?case
    unfolding reconcile_all.simps
  proof (rule safe_bind [OF safe_reconcile], intro safe_bind)
    fix d1 p' assume "dist_grows ck d d1" and p': "named ck (pay_id p) d1 p'"
    then show "safe ck (\<lambda>d ps'. \<forall>p\<in>set ps'. known d p) d1 (reconcile_all ck e (k + 3) ps)"
      using Cons.prems by (intro Cons.IH) (auto intro: known_stays)
    fix d2 ps' assume "dist_grows ck d1 d2" "\<forall>p\<in>set ps'. known d2 p"
    with p' show "safe ck (\<lambda>d ps'. \<forall>p\<in>set ps'. known d p) d2 (Ret (p' # ps'))"
      by (auto intro!: safe_Ret simp: named_def intro: known_stays)
  qed
qed

lemma safe_List:
  assumes ck: "dp_ck q = ck"
  shows "safe ck (okay (\<lambda>d ps. \<forall>p\<in>set ps. known d p)) d (dist_List q e)"
  unfolding dist_List_def ck
proof (rule safe_and_then)
  show "safe ck (okay (\<lambda>d ps. \<forall>p\<in>set ps. known d p)) d (repo_ListPayments (sq_fault (de_sql e 0) 0) (de_tie e))"
    unfolding repo_ListPayments_def
    by (rule safe_db_query) (auto split: option.split dest!: in_set_takeD intro: known_scan)
  fix d1 ps assume "\<forall>p\<in>set ps. known d1 p"
  then show "safe ck (okay (\<lambda>d ps. \<forall>p\<in>set ps. known d p)) d1
      (bind_prog (reconcile_all ck (de_sql e) 1 ps) (\<lambda>ps'. Ret (Inr ps')))"
    by (rule safe_bind [OF safe_reconcile_all]) (simp add: safe_Ret)
qed

lemma safe_Metrics: "safe ck (okay (\<lambda>_ _. True)) d (dist_Metrics e)"
  unfolding dist_Metrics_def
proof (rule safe_then_True [OF safe_Snapshot])
  fix d1 snap
  have "safe ck (\<lambda>_ _. True) d2 (db_query f)" for d2 f by (rule safe_db_query) simp
  then show "safe ck (okay (\<lambda>_ _. True)) d1
    (bind_prog (db_query (\<lambda>d. case sq_fault (de_sql e 1) 0 of Some m \<Rightarrow> 0 | None \<Rightarrow> of_nat (length (db_trans d))))
       (\<lambda>dtmCount. bind_prog (dload ds_started) (\<lambda>started. bind_prog (dload ds_cacheHits) (\<lambda>hits.
       bind_prog (dload ds_idempotentReplays) (\<lambda>replays. bind_prog (dload ds_faultsInjected) (\<lambda>faults.
     Ret (Inr
       \<lparr>met_mode = ''distributed'', met_uptime = unix_seconds (de_now e) - started,
        met_payments = snap_payments snap, met_by_status = snap_status_counts snap,
        met_accounts = snap_accounts snap, met_ledger = snap_ledger snap,
        met_counters = zero_counters\<lparr>paymentsCreated := of_nat (snap_payments snap),
          idempotentReplays := replays, faultsInjected := faults\<rparr>,
        met_redis_hits = hits, met_dtm = dtmCount\<rparr>)))))))"
    by (intro safe_bind [OF safe_dload [where Q = "\<lambda>_ _. True"]] safe_bind [of ck "\<lambda>_ _. True"] safe_Ret) simp_all
qed

lemma safe_PaymentByGID: "safe ck (okay known) d (repo_PaymentByGID ck fault gid)"
  unfolding repo_PaymentByGID_def
  by (rule safe_db_query) (auto simp: okay_def dest!: select_payment_Inr intro: known_scan split: sum.splits)

lemma safe_optional_True: "safe ck (okay (\<lambda>_ _. True)) d (query_optional fault P table)"
  unfolding query_optional_def by (rule safe_query_True)

lemma safe_Transaction:
  assumes ck: "dp_ck q = ck"
  shows "safe ck (okay (\<lambda>d v. known d (tv_payment v))) d (dist_Transaction q e gid)"
  unfolding dist_Transaction_def ck
proof (rule safe_and_then [OF safe_PaymentByGID], rule safe_bind [OF safe_reconcile])
  show "safe ck (okay (\<lambda>d v. known d (tv_payment v))) d1 (repo_Transaction ck (de_sql e 4) gid)" for d1
    unfolding repo_Transaction_def
    by (intro safe_and_then [OF safe_PaymentByGID] safe_then_known [OF safe_optional_True]
        safe_then_known [OF safe_query_True] safe_Ret) simp_all
qed

subsection \<open>The system\<close>

text \<open>The requests to the coordinator but Reset, and what it answers.\<close>

datatype dist_request =
    DCreate dist_env create_input
  | DCallback dist_env string callback_input
  | DClose string string
  | DDetails dist_env string
  | DEvents dist_env string
  | DList dist_env
  | DAccount dist_env string
  | DLedger dist_env
  | DMetrics dist_env
  | DTransaction dist_env string
  | DHealth dist_env

datatype dist_answer =
    Created create_input "go_error + create_result"
  | CallbackAnswered "go_error + callback_result"
  | Closed "go_error + payment"
  | Detailed "go_error + payment_details"
  | EventsListed "go_error + payment_event list"
  | Listed "go_error + payment list"
  | AccountRead "go_error + account"
  | LedgerListed "go_error + ledger_entry list"
  | Measured "go_error + metrics_snapshot"
  | TransactionShown "go_error + transaction_view"
  | HealthChecked "health_info \<times> go_error option"
  | OutsideDone

definition answer_with :: "('a \<Rightarrow> dist_answer) \<Rightarrow> (dist, 'a) prog \<Rightarrow> (dist, dist_answer) prog" where
  "answer_with f p = bind_prog p (\<lambda>r. Ret (f r))"

fun dist_serve :: "dist_params \<Rightarrow> dist_request \<Rightarrow> (dist, dist_answer) prog" where
  "dist_serve q (DCreate e input) = answer_with (Created input) (dist_Create q e input)"
| "dist_serve q (DCallback e pid i) = answer_with CallbackAnswered (dist_Callback q e pid i)"
| "dist_serve q (DClose pid reason) = answer_with Closed (dist_Close pid reason)"
| "dist_serve q (DDetails e pid) = answer_with Detailed (dist_Details q e pid)"
| "dist_serve q (DEvents e pid) = answer_with EventsListed (dist_Events q e pid)"
| "dist_serve q (DList e) = answer_with Listed (dist_List q e)"
| "dist_serve q (DAccount e aid) = answer_with AccountRead (dist_Account q e aid)"
| "dist_serve q (DLedger e) = answer_with LedgerListed (dist_Ledger e)"
| "dist_serve q (DMetrics e) = answer_with Measured (dist_Metrics e)"
| "dist_serve q (DTransaction e gid) = answer_with TransactionShown (dist_Transaction q e gid)"
| "dist_serve q (DHealth e) = answer_with HealthChecked (dist_Health q e)"

text \<open>What may arrive: a request, or a step of the world outside.\<close>

definition dist_arrives ::
  "(barrier \<Rightarrow> business \<Rightarrow> business) \<Rightarrow> dist_params \<Rightarrow> (dist, dist_answer) prog \<Rightarrow> bool" where
  "dist_arrives call_with_db q p \<longleftrightarrow>
     (\<exists>rq. p = dist_serve q rq) \<or>
     (\<exists>f. (\<forall>s. outside_step call_with_db (dp_ck q) s (f s)) \<and> p = Step (\<lambda>s. Some (f s, Ret OutsideDone)))"

text \<open>The input as the coordinator uses it.\<close>

definition dist_input :: "dist_params \<Rightarrow> create_input \<Rightarrow> create_input" where
  "dist_input q input = (NormalizeCreateInput (dp_tables q) input)\<lparr>ci_fault := ''''\<rparr>"

text \<open>
  The payments an answer shows, the answers that show the zero payment instead of the payment
  created, and what is claimed of an answer.
\<close>

definition shown :: "dist_answer \<Rightarrow> payment list" where
  "shown a = (case a of
     CallbackAnswered (Inr res) \<Rightarrow> [cr_payment res]
   | Detailed (Inr res) \<Rightarrow> [det_payment res]
   | Listed (Inr ps) \<Rightarrow> ps
   | TransactionShown (Inr v) \<Rightarrow> [tv_payment v]
   | Created _ (Inr res) \<Rightarrow> [cre_payment res]
   | _ \<Rightarrow> [])"

definition lost_answer :: "dist_answer \<Rightarrow> bool" where
  "lost_answer a = (case a of
     Created _ (Inr res) \<Rightarrow> cre_payment res = zero_payment \<and> \<not> cre_replay res
   | _ \<Rightarrow> False)"

definition dist_claim :: "dist_params \<Rightarrow> db \<Rightarrow> dist_answer \<Rightarrow> bool" where
  "dist_claim q d a \<longleftrightarrow>
     (lost_answer a \<or> (\<forall>p\<in>set (shown a). known d p)) \<and>
     (\<forall>input res. a = Created input (Inr res) \<longrightarrow>
        answers (dp_ck q) (ci_key (dist_input q input)) (Fingerprint (dist_input q input)) d res)"

lemma dist_claim_stays: "dist_grows (dp_ck q) d d' \<Longrightarrow> dist_claim q d a \<Longrightarrow> dist_claim q d' a"
  unfolding dist_claim_def by (blast intro: known_stays answers_stays)

lemma safe_answer:
  "safe ck Q d p \<Longrightarrow> (\<And>e r. Q e r \<Longrightarrow> Q' e (f r)) \<Longrightarrow> safe ck Q' d (answer_with f p)"
  unfolding answer_with_def by (rule safe_bind [where Q' = Q]) (auto intro: safe_Ret)

lemma safe_serve:
  assumes "dtm_client cwd q" and "atomic_barrier cwd"
  shows "safe (dp_ck q) (dist_claim q) d (dist_serve q rq)"
proof (cases rq)
  case (DCreate e input)
  have "safe (dp_ck q) (okay (answers (dp_ck q) (ci_key (dist_input q input)) (Fingerprint (dist_input q input)))) d
      (dist_Create q e input)"
    by (rule safe_Create [OF assms refl dist_input_def])
  then show ?thesis
    unfolding DCreate dist_serve.simps
    by (rule safe_answer) (auto simp: okay_def dist_claim_def shown_def lost_answer_def answers_def split: sum.splits)
next
  case (DCallback e pid i)
  show ?thesis
    unfolding DCallback dist_serve.simps
    by (rule safe_answer [OF safe_Callback [OF refl]])
      (auto simp: okay_def dist_claim_def shown_def split: sum.splits)
next
  case (DDetails e pid)
  show ?thesis
    unfolding DDetails dist_serve.simps
    by (rule safe_answer [OF safe_Details [OF refl]])
      (auto simp: okay_def dist_claim_def shown_def split: sum.splits)
next
  case (DList e)
  show ?thesis
    unfolding DList dist_serve.simps
    by (rule safe_answer [OF safe_List [OF refl]])
      (auto simp: okay_def dist_claim_def shown_def split: sum.splits)
next
  case (DTransaction e gid)
  show ?thesis
    unfolding DTransaction dist_serve.simps
    by (rule safe_answer [OF safe_Transaction [OF refl]])
      (auto simp: okay_def dist_claim_def shown_def split: sum.splits)
next
  case (DClose pid reason)
  show ?thesis by (simp add: DClose dist_Close_def answer_with_def safe_Ret dist_claim_def shown_def)
next
  case (DHealth e)
  show ?thesis by (simp add: DHealth dist_Health_def Let_def answer_with_def safe_Ret dist_claim_def shown_def)
next
  case (DEvents e pid)
  show ?thesis
    unfolding DEvents dist_serve.simps dist_Events_def
    by (rule safe_answer [OF safe_Events]) (simp add: dist_claim_def shown_def)
next
  case (DAccount e aid)
  show ?thesis
    unfolding DAccount dist_serve.simps dist_Account_def repo_Account_def
    by (rule safe_answer [OF safe_query_True]) (simp add: dist_claim_def shown_def)
next
  case (DLedger e)
  show ?thesis
    unfolding DLedger dist_serve.simps dist_Ledger_def repo_Ledger_def
    by (rule safe_answer [OF safe_query_True]) (simp add: dist_claim_def shown_def)
next
  case (DMetrics e)
  show ?thesis
    unfolding DMetrics dist_serve.simps
    by (rule safe_answer [OF safe_Metrics]) (simp add: dist_claim_def shown_def)
qed

text \<open>A program of the world outside.\<close>

lemma ensures_outside:
  assumes "\<And>s. outside_step cwd ck s (f s)" and "atomic_barrier cwd" and "\<And>d. Q d r"
  shows "ensures (dist_inv ck) (dist_rel ck) (\<lambda>t. Q (ds_db t)) s (Step (\<lambda>s. Some (f s, Ret r)))"
  by (rule ensures_Step)
    (use outside_moves [OF assms(1,2)] assms(3) in \<open>auto simp: dist_inv_def dist_rel_def dist_moves_def\<close>)

text \<open>Any run of the system from tables with the invariant.\<close>

theorem dist_runs:
  assumes "dtm_client cwd q" and "atomic_barrier cwd" and "dist_ok (dp_ck q) (ds_db s)"
    and "pool_run (dist_arrives cwd q) (s, []) (t, ps)"
  shows "dist_moves (dp_ck q) (ds_db s) (ds_db t) \<and>
    pool_ok (dist_inv (dp_ck q)) (dist_rel (dp_ck q)) (\<lambda>t. dist_claim q (ds_db t)) (t, ps)"
proof -
  let ?Q = "\<lambda>t. dist_claim q (ds_db t)"
  have "ensures (dist_inv (dp_ck q)) (dist_rel (dp_ck q)) ?Q u p" if "dist_arrives cwd q p" "dist_inv (dp_ck q) u" for u p
    using that(1) unfolding dist_arrives_def
  proof (elim disjE exE conjE)
    fix rq assume "p = dist_serve q rq"
    with safe_serve [OF assms(1,2), of "ds_db u" rq] that(2) show ?thesis by (simp add: safe_def dist_inv_def)
  next
    fix f assume "\<forall>s. outside_step cwd (dp_ck q) s (f s)" "p = Step (\<lambda>s. Some (f s, Ret OutsideDone))"
    then show ?thesis
      using ensures_outside [of cwd "dp_ck q" f "dist_claim q" OutsideDone u] assms(2)
      by (simp add: dist_claim_def shown_def)
  qed
  moreover have "stable (dist_rel (dp_ck q)) ?Q"
    unfolding stable_def dist_rel_def by (blast intro: dist_claim_stays)
  moreover have "pool_ok (dist_inv (dp_ck q)) (dist_rel (dp_ck q)) ?Q (s, [])"
    using assms(3) by (simp add: dist_inv_def)
  ultimately have "pool_ok (dist_inv (dp_ck q)) (dist_rel (dp_ck q)) ?Q (t, ps) \<and> dist_rel (dp_ck q) s t"
    using pool_run_inv [OF assms(4), of "dist_inv (dp_ck q)" "dist_rel (dp_ck q)" ?Q] grows_order [of "dp_ck q"]
    by simp
  then show ?thesis by (simp add: pool_ok_def dist_moves_def dist_inv_def dist_rel_def)
qed

lemma pool_claim:
  "pool_ok I G (\<lambda>t. dist_claim q (ds_db t)) (t, ps) \<Longrightarrow> Ret a \<in> set ps \<Longrightarrow> dist_claim q (ds_db t) a"
  by (drule (1) pool_ok_result)

end
