(* ===== verification/Dist_Properties.thy ===== *)
theory Dist_Properties
  imports Dist_Runs Service_Properties
begin

section \<open>Properties of the distributed mode\<close>

text \<open>
  What holds in every run of the system of \<open>Dist_Runs\<close>: SUCCESS only with evidence, history, one
  payment per key, answers that stay true.
\<close>

subsection \<open>A small world for the witnesses\<close>

text \<open>
  The payment p1 of the key k1 is PROCESSING under the gid g1, both participants have confirmed and
  DTM has finished; the client library of this world runs the function and nothing else.
\<close>

definition ex_done :: db where
  "ex_done = ex_db
     \<lparr>db_accounts := [\<lparr>acc_id = ''demo-user'', acc_available = 997500, acc_frozen = 0, acc_currency = ''CNY'', acc_updated = 5\<rparr>],
      db_reservations := [\<lparr>rr_gid = ''g1'', rr_payment = ''p1'', rr_account = ''demo-user'', rr_amount = 2500,
        rr_status = CONFIRMED, rr_created = 5, rr_updated = 5\<rparr>],
      db_ledger := [\<lparr>lr_id = 1, lr_gid = ''g1'', lr_payment = ''p1'', lr_account = ''demo-user'', lr_amount = 2500,
        lr_direction = ''DEBIT'', lr_status = POSTED, lr_created = 5, lr_updated = 5\<rparr>],
      db_payments := map (\<lambda>r. r\<lparr>pr_fingerprint := Fingerprint ex_input\<rparr>) (db_payments ex_db),
      db_trans := [\<lparr>tg_gid = ''g1'', tg_status = ''succeed'', tg_rollback_reason = ''''\<rparr>]\<rparr>"

definition ex_world :: dist where
  "ex_world = \<lparr>ds_db = ex_done, ds_redis = Map.empty, ds_started = 0, ds_cacheHits = 0,
     ds_idempotentReplays = 0, ds_faultsInjected = 0\<rparr>"

definition ex_params :: dist_params where
  "ex_params = \<lparr>dp_ck = id, dp_cache = None, dp_tables = ex_tables,
     dp_config = \<lparr>cf_dtm = ''d'', cf_account = ''a'', cf_ledger = ''l''\<rparr>,
     dp_tcc = (\<lambda>server gid opts body. body (\<lambda>args. Ret None))\<rparr>"

definition ex_dist_env :: dist_env where
  "ex_dist_env = \<lparr>de_sql = (\<lambda>_. ex_sql), de_redis = (\<lambda>_. False), de_gid = Inr ''g2'', de_now = 0,
     de_random = None, de_nano = 0, de_polls = [], de_tie = (\<lambda>_. 0), de_pages = [],
     de_health = \<lparr>he_mysql = None, he_redis = None, he_http = (\<lambda>_. True), he_order = [], he_now = 0\<rparr>\<rparr>"

lemma ex_params_simps [simp]: "dp_ck ex_params = id" "dp_cache ex_params = None"
  by (simp_all add: ex_params_def)

lemma ex_client: "dtm_client cwd ex_params"
  unfolding dtm_client_def ex_params_def by simp

lemma ex_done_ok: "dist_ok id ex_done"
  by (simp add: dist_ok_def tcc_ok_def ex_done_def ex_db_def held_rows_def row_total_def)

lemma ex_world_ok: "dist_ok (dp_ck ex_params) (ds_db ex_world)"
  by (simp add: ex_world_def ex_params_def ex_done_ok)

definition ex_final :: payment_row where
  "ex_final = (hd (db_payments ex_done))\<lparr>pr_status := StatusSuccess, pr_failure := '''', pr_updated := 5\<rparr>"

lemma ex_reconcile:
  "exec (reconcile id (\<lambda>_. ex_sql) (fst (scanPayment (hd (db_payments ex_done))))) s =
     Some (s\<lparr>ds_db := (ds_db s)\<lparr>db_payments := [ex_final],
       db_events := db_events (ds_db s) @ [\<lparr>er_payment = ''p1'', er_event = \<lparr>ev_seq = 1, ev_type = ''STATUS_CHANGED'',
         ev_from = StatusProcessing, ev_to = StatusSuccess, ev_message = ''reconciler observed all DTM Confirm branches'',
         ev_metadata = None, ev_at = 5\<rparr>\<rparr>]\<rparr>\<rparr>, fst (scanPayment ex_final))"
  if "ds_db s = ex_done"
  by (simp add: that reconcile_def ex_done_def ex_db_def scanPayment_def repo_ParticipantStates_def and_then_def
      query_optional_def db_query_def db_act_def query_row_def ex_sql_def success_evidence_def finalize_or_def
      repo_Finalize_def finalize_tx_def in_tx_def getPaymentTxForUpdate_def select_payment_def
      appendEventTx_def next_sequence_def insert_event_def sql_update_Inr sql_update_def repo_GetPayment_def ex_final_def)

definition ex_settled :: db where
  "ex_settled = ex_done\<lparr>db_payments := [ex_final],
     db_events := [\<lparr>er_payment = ''p1'', er_event = \<lparr>ev_seq = 1, ev_type = ''STATUS_CHANGED'',
       ev_from = StatusProcessing, ev_to = StatusSuccess, ev_message = ''reconciler observed all DTM Confirm branches'',
       ev_metadata = None, ev_at = 5\<rparr>\<rparr>]\<rparr>"

abbreviation ex_answer :: create_result where
  "ex_answer \<equiv> \<lparr>cre_payment = fst (scanPayment ex_final), cre_replay = True\<rparr>"

lemma ex_reconcile_world:
  "exec (reconcile id (\<lambda>_. ex_sql) (fst (scanPayment (hd (db_payments ex_done))))) s =
     Some (s\<lparr>ds_db := ex_settled\<rparr>, fst (scanPayment ex_final))" if "ds_db s = ex_done"
  using ex_reconcile [OF that] by (simp add: ex_settled_def that) (simp add: ex_done_def ex_db_def)

lemma ex_reconcile_again:
  "reconcile id e (fst (scanPayment ex_final)) = Ret (fst (scanPayment ex_final))"
  by (simp add: reconcile_def scanPayment_def ex_final_def)

lemma ex_input_fields: "ex_input\<lparr>ci_fault := ''''\<rparr> = ex_input" "ci_key ex_input = ''k1''" "ci_fault ex_input = ''''"
  by (simp_all add: ex_input_def)

lemma ex_dist_Create:
  "dist_Create ex_params ex_dist_env ex_input = create_lookup ex_params ex_dist_env ex_input '''' (Fingerprint ex_input)"
proof -
  have normal: "NormalizeCreateInput (dp_tables ex_params) ex_input = ex_input"
    using ex_normal by (simp add: ex_params_def)
  have "ValidateCreateInput ex_input = None" using ex_valid by (simp add: validate_valid)
  then show ?thesis
    by (simp add: dist_Create_def normal ex_input_fields create_cached_def GetIdempotency_def)
qed

lemma ex_lookup:
  assumes "db_payments (ds_db s) = [r]" and "pr_key r = ''k1''" and "pr_fingerprint r = Fingerprint ex_input"
  shows "exec (create_lookup ex_params ex_dist_env ex_input '''' (Fingerprint ex_input)) s =
     exec (replayed ex_params (\<lambda>_. ex_sql) (fst (scanPayment r))) s"
  using assms
  by (simp add: create_lookup_def findByIdempotencyKey_def db_query_def db_act_def select_payment_def query_row_def
      ex_params_def ex_dist_env_def ex_sql_def ex_input_fields scanPayment_def SetIdempotency_def)

lemma ex_create_first:
  "exec (dist_Create ex_params ex_dist_env ex_input) ex_world =
     Some (ex_world\<lparr>ds_db := ex_settled, ds_idempotentReplays := 1\<rparr>, Inr ex_answer)"
proof -
  have row: "db_payments (ds_db ex_world) = [hd (db_payments ex_done)]"
    by (simp add: ex_world_def ex_done_def ex_db_def)
  have "exec (create_lookup ex_params ex_dist_env ex_input '''' (Fingerprint ex_input)) ex_world =
      exec (replayed ex_params (\<lambda>_. ex_sql) (fst (scanPayment (hd (db_payments ex_done))))) ex_world"
    by (rule ex_lookup [OF row]) (simp_all add: ex_done_def ex_db_def)
  moreover have "ds_db (count_replay ex_world) = ex_done" by (simp add: ex_world_def)
  ultimately show ?thesis
    using ex_reconcile_world [of "count_replay ex_world"]
    unfolding ex_dist_Create
    by (simp add: replayed_def dcount_def exec_bind) (simp add: ex_world_def)
qed

lemma ex_create_second:
  "exec (dist_Create ex_params ex_dist_env ex_input) (ex_world\<lparr>ds_db := ex_settled, ds_idempotentReplays := 1\<rparr>) =
     Some (ex_world\<lparr>ds_db := ex_settled, ds_idempotentReplays := 2\<rparr>, Inr ex_answer)"
proof -
  have "exec (create_lookup ex_params ex_dist_env ex_input '''' (Fingerprint ex_input))
      (ex_world\<lparr>ds_db := ex_settled, ds_idempotentReplays := 1\<rparr>) =
    exec (replayed ex_params (\<lambda>_. ex_sql) (fst (scanPayment ex_final)))
      (ex_world\<lparr>ds_db := ex_settled, ds_idempotentReplays := 1\<rparr>)"
    by (rule ex_lookup) (simp_all add: ex_settled_def ex_final_def ex_done_def ex_db_def)
  then show ?thesis
    unfolding ex_dist_Create by (simp add: replayed_def dcount_def ex_reconcile_again)
qed

lemma ex_arrives: "dist_arrives cwd q (dist_serve q rq)"
  unfolding dist_arrives_def by blast

lemma ex_run_create:
  assumes "exec (dist_Create ex_params ex_dist_env ex_input) s = Some (t, r)"
  shows "pool_run (dist_arrives cwd ex_params) (s, ps) (t, ps @ [Ret (Created ex_input r)])"
proof -
  have "exec (dist_serve ex_params (DCreate ex_dist_env ex_input)) s = Some (t, Created ex_input r)"
    using assms by (simp add: answer_with_def exec_bind)
  with exec_arrive [of "dist_arrives cwd ex_params" "dist_serve ex_params (DCreate ex_dist_env ex_input)" s t]
  show ?thesis using ex_arrives by blast
qed

lemma ex_dist_run:
  "pool_run (dist_arrives cwd ex_params) (ex_world, [])
     (ex_world\<lparr>ds_db := ex_settled, ds_idempotentReplays := 2\<rparr>,
      [Ret (Created ex_input (Inr ex_answer)), Ret (Created ex_input (Inr ex_answer))])"
  using pool_run_trans [OF ex_run_create [OF ex_create_second] ex_run_create [OF ex_create_first], of cwd "[]"]
  by simp

subsection \<open>Runs\<close>

lemma rows_grow_eq: "rows_grow (=) xs ys \<Longrightarrow> \<exists>new. ys = xs @ new"
proof -
  assume "rows_grow (=) xs ys"
  then have "take (length xs) ys = xs" by (intro nth_equalityI) (simp_all add: rows_grow_def)
  then show ?thesis by (metis append_take_drop_id)
qed

text \<open>C2. No SUCCESS without the money and the books: in any run of the distributed mode, with any number
  of coordinators' requests, participants' requests and steps of DTM in any interleaving and with any
  database faults and lost commits, a payment that is SUCCESS has a global transaction with a
  CONFIRMED reservation and a POSTED ledger entry for it.\<close>

theorem success_needs_evidence:
  assumes "dtm_client call_with_db q" and "atomic_barrier call_with_db" and "dist_ok (dp_ck q) (ds_db s)"
    and "pool_run (dist_arrives call_with_db q) (s, []) (t, ps)"
    and "p \<in> set (db_payments (ds_db t))" and "pr_status p = StatusSuccess"
  shows "\<exists>gid. pr_gid p = Some gid \<and>
    (\<exists>r\<in>set (db_reservations (ds_db t)). dp_ck q (rr_gid r) = dp_ck q gid \<and>
       dp_ck q (rr_payment r) = dp_ck q (pr_id p) \<and> rr_status r = CONFIRMED) \<and>
    (\<exists>l\<in>set (db_ledger (ds_db t)). dp_ck q (lr_gid l) = dp_ck q gid \<and>
       dp_ck q (lr_payment l) = dp_ck q (pr_id p) \<and> lr_status l = POSTED)"
  using dist_runs [OF assms(1-4)] assms(5,6)
  by (simp add: dist_moves_def dist_ok_def evidence_def confirmed_row_def posted_row_def)

theorem success_needs_evidence_witness:
  "pr_status ex_final = StatusSuccess \<and>
    (\<exists>gid. pr_gid ex_final = Some gid \<and> (\<exists>r\<in>set (db_reservations ex_settled). rr_gid r = gid \<and> rr_status r = CONFIRMED))"
proof -
  have "pr_status ex_final = StatusSuccess" "ex_final \<in> set (db_payments ex_settled)"
    by (simp_all add: ex_final_def ex_settled_def)
  with success_needs_evidence [OF ex_client plain_barrier_atomic ex_world_ok ex_dist_run, of ex_final]
  show ?thesis by auto
qed

text \<open>C11. The tables of the distributed mode only grow, in any run without a reset: payments keep their
  data and their gid once they are PROCESSING, move forward through their statuses and never change
  again once SUCCESS, FAILED or CLOSED; the event log is appended to; the books of the accounts stay
  balanced and no account's total of available, frozen and confirmed amounts changes.\<close>

theorem distributed_history:
  assumes "dtm_client call_with_db q" and "atomic_barrier call_with_db" and "dist_ok (dp_ck q) (ds_db s)"
    and "pool_run (dist_arrives call_with_db q) (s, []) (t, ps)"
  shows "rows_grow pay_row_moves (db_payments (ds_db s)) (db_payments (ds_db t)) \<and>
    (\<exists>new. db_events (ds_db t) = db_events (ds_db s) @ new) \<and>
    map (\<lambda>a. (acc_id a, account_total (dp_ck q) (ds_db s) a)) (db_accounts (ds_db s)) =
      map (\<lambda>a. (acc_id a, account_total (dp_ck q) (ds_db t) a)) (db_accounts (ds_db t)) \<and>
    (\<forall>a\<in>set (db_accounts (ds_db t)). 0 \<le> sint (acc_available a) \<and>
       sint (acc_frozen a) = held_rows (dp_ck q) FROZEN (acc_id a) (ds_db t))"
  using dist_runs [OF assms]
  by (simp add: dist_moves_def dist_grows_def totals_kept_def dist_ok_def tcc_ok_def rows_grow_eq)

theorem distributed_history_witness:
  "\<exists>new. db_events ex_settled = db_events ex_done @ new \<and> length new = 1"
  using distributed_history [OF ex_client plain_barrier_atomic ex_world_ok ex_dist_run]
  by (simp add: ex_world_def) (simp add: ex_settled_def ex_done_def ex_db_def)

text \<open>C6. One payment per idempotency key, whatever Redis holds, loses or gets from others: if two Create
  requests whose keys MySQL compares as equal both get a payment, in any run without a reset, they get
  the payment with the same id, order, account, amount and currency, and their fingerprints are equal
  for MySQL. The exception is an answer with an empty payment id, which the code gives when it cannot
  read the payment after the global transaction.\<close>

theorem distributed_same_key:
  assumes "dtm_client call_with_db q" and "atomic_barrier call_with_db" and "dist_ok (dp_ck q) (ds_db s)"
    and run: "pool_run (dist_arrives call_with_db q) (s, []) (t, ps)"
    and "Ret (Created i1 (Inr r1)) \<in> set ps" and "Ret (Created i2 (Inr r2)) \<in> set ps"
    and key: "dp_ck q (TrimSpace (ci_key i1)) = dp_ck q (TrimSpace (ci_key i2))"
    and "dp_ck q (pay_id (cre_payment r1)) \<noteq> dp_ck q ''''"
    and "dp_ck q (pay_id (cre_payment r2)) \<noteq> dp_ck q ''''"
  shows "pay_id (cre_payment r1) = pay_id (cre_payment r2) \<and>
    pay_order (cre_payment r1) = pay_order (cre_payment r2) \<and>
    pay_account (cre_payment r1) = pay_account (cre_payment r2) \<and>
    pay_amount (cre_payment r1) = pay_amount (cre_payment r2) \<and>
    pay_currency (cre_payment r1) = pay_currency (cre_payment r2) \<and>
    dp_ck q (Fingerprint (dist_input q i1)) = dp_ck q (Fingerprint (dist_input q i2))"
proof -
  let ?ck = "dp_ck q" and ?d = "ds_db t"
  have ok: "dist_ok ?ck ?d" and pool: "pool_ok (dist_inv ?ck) (dist_rel ?ck) (\<lambda>t. dist_claim q (ds_db t)) (t, ps)"
    using dist_runs [OF assms(1-4)] by (auto simp: dist_moves_def)
  have row: "\<exists>x\<in>set (db_payments ?d). version_of (cre_payment r) x \<and>
      ?ck (pr_key x) = ?ck (TrimSpace (ci_key i)) \<and> ?ck (pr_fingerprint x) = ?ck (Fingerprint (dist_input q i))"
    if "Ret (Created i (Inr r)) \<in> set ps" "?ck (pay_id (cre_payment r)) \<noteq> ?ck ''''" for i r
  proof -
    have "\<not> lost_answer (Created i (Inr r))" using that(2) by (auto simp: zero_payment_def lost_answer_def)
    with pool_claim [OF pool that(1)]
    have "known ?d (cre_payment r)" "answers ?ck (ci_key (dist_input q i)) (Fingerprint (dist_input q i)) ?d r"
      by (simp_all add: dist_claim_def shown_def)
    with that(2) obtain x y where x: "x \<in> set (db_payments ?d)" "version_of (cre_payment r) x"
      and y: "y \<in> set (db_payments ?d)" "?ck (pr_id y) = ?ck (pay_id (cre_payment r))"
        "?ck (pr_key y) = ?ck (ci_key (dist_input q i))" "?ck (pr_fingerprint y) = ?ck (Fingerprint (dist_input q i))"
      unfolding answers_def known_def keyed_def by blast
    have "y = x" using x y version_fields [OF x(2)] by (intro dist_ok_unique(1) [OF ok]) simp_all
    with x y show ?thesis by (auto simp: dist_input_def)
  qed
  from row [OF assms(5,8)] row [OF assms(6,9)] obtain x y where
    x: "x \<in> set (db_payments ?d)" "version_of (cre_payment r1) x"
      "?ck (pr_key x) = ?ck (TrimSpace (ci_key i1))" "?ck (pr_fingerprint x) = ?ck (Fingerprint (dist_input q i1))"
    and y: "y \<in> set (db_payments ?d)" "version_of (cre_payment r2) y"
      "?ck (pr_key y) = ?ck (TrimSpace (ci_key i2))" "?ck (pr_fingerprint y) = ?ck (Fingerprint (dist_input q i2))"
    by blast
  have "y = x" using x y key by (intro dist_ok_unique(2) [OF ok]) simp_all
  with x y version_fields [OF x(2)] version_fields [OF y(2)] show ?thesis by simp
qed

theorem distributed_same_key_witness:
  "\<exists>t ps r1 r2. pool_run (dist_arrives plain_barrier ex_params) (ex_world, []) (t, ps) \<and>
    {Ret (Created ex_input (Inr r1)), Ret (Created ex_input (Inr r2))} \<subseteq> set ps \<and>
    pay_status (cre_payment r1) = StatusSuccess \<and> pay_id (cre_payment r1) = pay_id (cre_payment r2)"
proof -
  note run = ex_dist_run [of plain_barrier]
  have st: "pay_status (cre_payment ex_answer) = StatusSuccess" by (simp add: scanPayment_def ex_final_def)
  have zero: "dp_ck ex_params (pay_id (cre_payment ex_answer)) \<noteq> dp_ck ex_params ''''"
    by (simp add: scanPayment_def ex_final_def ex_done_def ex_db_def)
  have mem: "Ret (Created ex_input (Inr ex_answer)) \<in> set [Ret (Created ex_input (Inr ex_answer)),
      Ret (Created ex_input (Inr ex_answer))]" by simp
  from distributed_same_key [OF ex_client plain_barrier_atomic ex_world_ok run mem mem refl zero zero]
  have "pay_id (cre_payment ex_answer) = pay_id (cre_payment ex_answer)" by blast
  with run mem st show ?thesis by blast
qed

text \<open>C15. What an answer shows is so, until a reset: in any run without one, every payment in an answer of
  Create, Callback, Details, List or Transaction is a row of the table under its id, with its data; and
  if it is shown SUCCESS, FAILED or CLOSED, that row is, at any later moment of the run, exactly the one
  shown. The one exception is the zero payment, with every field empty, in the answer of a Create that
  is not a replay: the code gives it when it cannot read the payment after the global transaction.\<close>

theorem distributed_answers_hold:
  assumes "dtm_client call_with_db q" and "atomic_barrier call_with_db" and "dist_ok (dp_ck q) (ds_db s)"
    and "pool_run (dist_arrives call_with_db q) (s, []) (t, ps)"
    and "Ret a \<in> set ps" and "p \<in> set (shown a)"
  shows "(p = zero_payment \<and> (\<exists>i res. a = Created i (Inr res) \<and> \<not> cre_replay res)) \<or>
    (\<exists>r\<in>set (db_payments (ds_db t)). pr_id r = pay_id p \<and> pr_order r = pay_order p \<and>
      pr_account r = pay_account p \<and> pr_amount r = pay_amount p \<and> pr_currency r = pay_currency p \<and>
      (Terminal (pay_status p) \<longrightarrow> fst (scanPayment r) = p))"
proof (cases "lost_answer a")
  case True
  with assms(6) show ?thesis
    by (auto simp: lost_answer_def shown_def split: dist_answer.splits sum.splits)
next
  case False
  have "pool_ok (dist_inv (dp_ck q)) (dist_rel (dp_ck q)) (\<lambda>t. dist_claim q (ds_db t)) (t, ps)"
    using dist_runs [OF assms(1-4)] by blast
  from pool_claim [OF this assms(5)] assms(6) False obtain r where
    r: "r \<in> set (db_payments (ds_db t))" "version_of p r"
    unfolding dist_claim_def known_def by blast
  with version_fields [OF r(2)] version_terminal [OF r(2)] show ?thesis
    by (intro disjI2 bexI [OF _ r(1)]) simp
qed

theorem distributed_answers_hold_witness:
  "\<exists>r\<in>set (db_payments ex_settled). pr_id r = ''p1'' \<and> fst (scanPayment r) = fst (scanPayment ex_final)"
proof -
  have "fst (scanPayment ex_final) \<in> set (shown (Created ex_input (Inr ex_answer)))"
    by (simp add: shown_def)
  from distributed_answers_hold [OF ex_client plain_barrier_atomic ex_world_ok ex_dist_run _ this]
  obtain r where "r \<in> set (db_payments ex_settled)" "pr_id r = pay_id (fst (scanPayment ex_final))"
    "Terminal (pay_status (fst (scanPayment ex_final))) \<longrightarrow> fst (scanPayment r) = fst (scanPayment ex_final)"
    by auto
  then show ?thesis by (auto simp: scanPayment_def ex_final_def ex_done_def ex_db_def)
qed

end
