(* ===== verification/Dist_Operations.thy ===== *)
theory Dist_Operations
  imports Dist_Properties
begin

section \<open>Single operations of the distributed mode\<close>

text \<open>
  What an operation that runs alone does: the decision of the reconciler, the answer to a callback,
  why the cache never decides, and Reset with the race between its check and its deletions.
\<close>

subsection \<open>The decision of the reconciler\<close>

lemma exec_db_act: "exec (db_act f) s = (case f (ds_db s) of (d, a) \<Rightarrow> Some (s\<lparr>ds_db := d\<rparr>, a))"
  by (simp add: db_act_def split: prod.split)

lemma exec_db_query [simp]: "exec (db_query f) s = Some (s, f (ds_db s))"
  by (simp add: db_query_def exec_db_act)

lemma exec_and_then:
  "exec p s = Some (t, Inr a) \<Longrightarrow> exec (and_then p k) s = exec (k a) t"
  "exec p s = Some (t, Inl err) \<Longrightarrow> exec (and_then p k) s = Some (t, Inl err)"
  by (simp_all add: and_then_def exec_bind)

text \<open>What the three queries of \<open>ParticipantStates\<close> see when nothing fails and nothing changes.\<close>

definition states_of :: "collation \<Rightarrow> db \<Rightarrow> string \<Rightarrow> string \<Rightarrow> reservation_state option \<times> ledger_state option \<times> string" where
  "states_of ck d gid pid =
     (map_option rr_status (find (\<lambda>r. ck (rr_gid r) = ck gid \<and> ck (rr_payment r) = ck pid) (db_reservations d)),
      map_option lr_status (find (\<lambda>r. ck (lr_gid r) = ck gid \<and> ck (lr_payment r) = ck pid) (db_ledger d)),
      case find (\<lambda>t. ck (tg_gid t) = ck gid) (db_trans d) of None \<Rightarrow> '''' | Some t \<Rightarrow> tg_status t)"

lemma query_row_find: "query_row None P rows = (case find P rows of None \<Rightarrow> Inl NoRows | Some r \<Rightarrow> Inr r)"
  unfolding query_row_def by (induction rows) auto

lemma exec_optional: "exec (query_optional None P table) s = Some (s, Inr (find P (table (ds_db s))))"
  by (simp add: query_optional_def query_row_find split: option.split)

lemma exec_states:
  assumes "\<And>k. sq_fault e k = None"
  shows "exec (repo_ParticipantStates ck e gid pid) s = Some (s, Inr (states_of ck (ds_db s) gid pid))"
  unfolding repo_ParticipantStates_def assms
  by (simp add: exec_and_then(1) [OF exec_optional] states_of_def)

lemma select_row:
  assumes "dist_ok ck d" and "r \<in> set (db_payments d)" and "ck (pr_id r) = ck pid"
  shows "getPaymentTxForUpdate ck None pid d = Inr (fst (scanPayment r))"
proof -
  obtain x where x: "find (\<lambda>r. ck (pr_id r) = ck pid) (db_payments d) = Some x"
    using assms(2,3) by (cases "find (\<lambda>r. ck (pr_id r) = ck pid) (db_payments d)") (auto simp: find_None_iff)
  then have "x \<in> set (db_payments d)" "ck (pr_id x) = ck (pr_id r)"
    using assms(3) by (auto simp: find_Some_iff)
  then have "x = r" using assms(1,2) dist_ok_unique(1) by blast
  with x show ?thesis by (simp add: getPaymentTxForUpdate_def select_payment_def query_row_find scanPayment_def)
qed

lemma foldr_max_le:
  "x \<in> set rows \<Longrightarrow> f x \<le> foldr (\<lambda>r m. max (f r) m) rows (z::int)"
  "z \<le> foldr (\<lambda>r m. max (f r) m) rows z"
  by (induction rows) auto

lemma append_event_ok:
  assumes fits: "next_sequence ck pid d < 2 ^ 63" and "\<And>k. sq_fault e k = None"
    and pay: "r \<in> set (db_payments d)" "ck (pr_id r) = ck pid"
  shows "\<exists>ev. appendEventTx ck e k pid ty from to message md d =
    (d\<lparr>db_events := db_events d @ [\<lparr>er_payment = pid, er_event = ev\<rparr>]\<rparr>, Inr ()) \<and>
    ev_from ev = from \<and> ev_to ev = to"
proof -
  let ?n = "next_sequence ck pid d"
  have low: "1 \<le> ?n"
    using foldr_max_le(2) [of 0 "\<lambda>r. sint (ev_seq (er_event r))"] by (simp add: next_sequence_def)
  then have n: "sint (word_of_int ?n :: int64) = ?n" using fits by (intro sint64_of_int) simp_all
  have "ev_seq (er_event x) \<noteq> word_of_int ?n" if "x \<in> set (db_events d)" "ck (er_payment x) = ck pid" for x
  proof -
    have "x \<in> set (filter (\<lambda>r. ck (er_payment r) = ck pid) (db_events d))" using that by simp
    from foldr_max_le(1) [OF this, of "\<lambda>r. sint (ev_seq (er_event r))" 0]
    have "sint (ev_seq (er_event x)) < ?n" by (simp add: next_sequence_def)
    with n show ?thesis by auto
  qed
  then show ?thesis
    using fits assms(2) pay by (auto simp: appendEventTx_def Let_def insert_event_def list_ex_iff)
qed

definition settles :: "dist \<Rightarrow> payment_row \<Rightarrow> payment_status \<Rightarrow> dist \<Rightarrow> payment \<Rightarrow> bool" where
  "settles s r status t p \<longleftrightarrow>
     pay_id p = pr_id r \<and> pay_status p = status \<and> p \<in> (fst \<circ> scanPayment) ` set (db_payments (ds_db t)) \<and>
     same_books (ds_db s) (ds_db t) \<and>
     (\<exists>ev. db_events (ds_db t) = db_events (ds_db s) @ [\<lparr>er_payment = pr_id r, er_event = ev\<rparr>] \<and> ev_to ev = status)"

lemma exec_Finalize:
  assumes ok: "dist_ok ck (ds_db s)" and r: "r \<in> set (db_payments (ds_db s))" "pr_status r = StatusProcessing"
    and st: "status = StatusSuccess \<or> status = StatusFailed"
    and success: "status = StatusSuccess \<Longrightarrow> tracks ck (ds_db s) (pr_id r) gid \<and> evidence ck (ds_db s) gid (pr_id r)"
    and fits: "next_sequence ck (pr_id r) (ds_db s) < 2 ^ 63" and quiet: "\<And>k. sq_fault e k = None"
  shows "\<exists>t p. exec (repo_Finalize ck e (pr_id r) status reason message) s = Some (t, Inr p) \<and> settles s r status t p"
proof -
  let ?d = "ds_db s" and ?pid = "pr_id r"
  define d1 where d1: "d1 = ?d\<lparr>db_payments := map (\<lambda>x. if ck (pr_id x) = ck ?pid \<and> pr_status x = StatusProcessing
      then x\<lparr>pr_status := status, pr_failure := reason, pr_updated := sq_now e 2\<rparr> else x) (db_payments ?d)\<rparr>"
  define r' where "r' = r\<lparr>pr_status := status, pr_failure := reason, pr_updated := sq_now e 2\<rparr>"
  have r': "r' \<in> set (db_payments d1)" unfolding d1 r'_def using r by (auto intro!: image_eqI [of _ _ r])
  have final: "Terminal status" using st by auto
  have m1: "dist_moves ck ?d d1" by (rule finalize_updates [OF ok final success d1])
  have seq: "next_sequence ck ?pid d1 = next_sequence ck ?pid ?d" by (simp add: d1 next_sequence_def)
  have "r' \<in> set (db_payments d1)" "ck (pr_id r') = ck ?pid" using r' by (simp_all add: r'_def)
  from append_event_ok [OF _ quiet this] fits
  obtain ev where ev: "appendEventTx ck e 3 ?pid ''STATUS_CHANGED'' StatusProcessing status
      (if message = '''' then ''DTM TCC transaction finalized'' else message) None d1 =
      (d1\<lparr>db_events := db_events d1 @ [\<lparr>er_payment = ?pid, er_event = ev\<rparr>]\<rparr>, Inr ())" "ev_to ev = status"
    unfolding seq by meson
  define d2 where "d2 = d1\<lparr>db_events := db_events d1 @ [\<lparr>er_payment = ?pid, er_event = ev\<rparr>]\<rparr>"
  have tx: "finalize_tx ck e ?pid status reason message ?d = (d2, Inr None)"
    unfolding finalize_tx_def in_tx_def quiet option.case
    by (simp add: select_row [OF ok r(1) refl] scanPayment_def r(2) sql_update_total d1 [symmetric] ev(1) d2_def
        del: map_map)
  have "dist_ok ck d2" "r' \<in> set (db_payments d2)"
    using m1 event_moves [of ck d1 e 3 ?pid] ev(1) r' unfolding d2_def by (auto simp: dist_moves_def)
  from select_row [OF this] have "getPaymentTxForUpdate ck None ?pid d2 = Inr (fst (scanPayment r'))"
    by (simp add: r'_def)
  moreover have "\<not> (status \<noteq> StatusSuccess \<and> status \<noteq> StatusFailed \<and> status \<noteq> StatusClosed)" using st by blast
  ultimately have "exec (repo_Finalize ck e ?pid status reason message) s =
      Some (s\<lparr>ds_db := d2\<rparr>, Inr (fst (scanPayment r')))"
    unfolding repo_Finalize_def
    by (simp only: if_False) (simp add: exec_and_then(1) [of _ _ _ None] exec_db_act tx repo_GetPayment_def quiet)
  moreover have "r' \<in> set (db_payments (ds_db (s\<lparr>ds_db := d2\<rparr>)))" using r' by (simp add: d2_def)
  moreover have "same_books ?d d2" "db_events d2 = db_events ?d @ [\<lparr>er_payment = ?pid, er_event = ev\<rparr>]"
    by (simp_all add: same_books_def d2_def d1)
  ultimately show ?thesis
    using ev(2) by (intro exI [of _ "s\<lparr>ds_db := d2\<rparr>"] exI [of _ "fst (scanPayment r')"] conjI)
      (simp_all add: settles_def image_eqI [of _ _ r'], simp_all add: r'_def scanPayment_def)
qed

text \<open>C12. The reconciler decides by the states of the participants and nothing else: of a PROCESSING
  payment it makes SUCCESS when its reservation is CONFIRMED, its ledger entry POSTED and DTM's status
  succeed; FAILED when DTM's status is failed and neither a FROZEN reservation nor a POSTED entry is
  left; otherwise it changes nothing at all. It moves no money, and logs the change once. (No database
  faults, and event numbers within 64 bits.)\<close>

theorem reconcile_decides:
  assumes ok: "dist_ok ck (ds_db s)" and r: "r \<in> set (db_payments (ds_db s))" "pr_status r = StatusProcessing"
    and gid: "pr_gid r = Some gid" "gid \<noteq> ''''"
    and fits: "next_sequence ck (pr_id r) (ds_db s) < 2 ^ 63" and quiet: "\<And>k j. sq_fault (e k) j = None"
    and x: "x = states_of ck (ds_db s) gid (pr_id r)"
  shows "\<exists>t p. exec (reconcile ck e (fst (scanPayment r))) s = Some (t, p) \<and> pay_id p = pr_id r \<and>
    p \<in> (fst \<circ> scanPayment) ` set (db_payments (ds_db t)) \<and>
    (if success_evidence x \<or> failure_evidence x
     then pay_status p = (if success_evidence x then StatusSuccess else StatusFailed) \<and>
       same_books (ds_db s) (ds_db t) \<and>
       (\<exists>ev. db_events (ds_db t) = db_events (ds_db s) @ [\<lparr>er_payment = pr_id r, er_event = ev\<rparr>] \<and>
          ev_to ev = pay_status p)
     else t = s \<and> p = fst (scanPayment r))"
proof -
  let ?p = "fst (scanPayment r)"
  have p: "pay_status ?p = StatusProcessing" "pay_gid ?p = gid" "pay_id ?p = pr_id r"
    using r(2) gid(1) by (simp_all add: scanPayment_def)
  let ?win = "repo_Finalize ck (e 1) (pr_id r) StatusSuccess '''' ''reconciler observed all DTM Confirm branches''"
    and ?lose = "repo_Finalize ck (e 2) (pr_id r) StatusFailed ''DTM global transaction failed''
      ''reconciler observed DTM Cancel completion''"
  let ?failed = "if failure_evidence x then finalize_or ?lose (Ret ?p) else Ret ?p"
  have run: "exec (reconcile ck e ?p) s =
      exec (if success_evidence x then finalize_or ?win ?failed else ?failed) s"
    using gid(2) by (simp add: reconcile_def p exec_bind exec_states [OF quiet] x Let_def)
  have evidence: "evidence ck (ds_db s) gid (pr_id r)" if "success_evidence x"
    using that unfolding x success_evidence_def states_of_def evidence_def confirmed_row_def posted_row_def
    by (force simp: find_Some_iff)
  have tracks: "tracks ck (ds_db s) (pr_id r) gid"
    using r gid(1) unfolding tracks_def by (intro bexI [of _ r]) simp_all
  have ends: "\<exists>t p. exec (finalize_or (repo_Finalize ck e' (pr_id r) status m m') next) s = Some (t, p) \<and> settles s r status t p"
    if "\<And>k. sq_fault e' k = None" "status = StatusSuccess \<and> success_evidence x \<or> status = StatusFailed"
    for e' status m m' "next"
    using exec_Finalize [OF ok r _ _ fits that(1), of status gid m m'] that(2) evidence tracks
    by (auto simp: finalize_or_def exec_bind)
  show ?thesis
  proof (cases "success_evidence x")
    case True
    with ends [OF quiet, of StatusSuccess 1 "''''" "''reconciler observed all DTM Confirm branches''" ?failed]
    obtain t p where "exec (finalize_or ?win ?failed) s = Some (t, p)" "settles s r StatusSuccess t p"
      by blast
    with True show ?thesis by (intro exI [of _ t] exI [of _ p]) (simp add: run settles_def)
  next
    case False
    show ?thesis
    proof (cases "failure_evidence x")
      case True
      with False ends [OF quiet, of StatusFailed 2 "''DTM global transaction failed''"
          "''reconciler observed DTM Cancel completion''" "Ret ?p"]
      obtain t p where "exec (finalize_or ?lose (Ret ?p)) s = Some (t, p)" "settles s r StatusFailed t p"
        by blast
      with True False show ?thesis by (intro exI [of _ t] exI [of _ p]) (simp add: run settles_def)
    next
      case no: False
      with False r(1) p(3) show ?thesis by (auto simp: run)
    qed
  qed
qed

theorem reconcile_decides_witness:
  "\<exists>t p. exec (reconcile id (\<lambda>_. ex_sql) (fst (scanPayment (hd (db_payments ex_done))))) ex_world = Some (t, p) \<and>
    pay_status p = StatusSuccess"
proof -
  let ?r = "hd (db_payments ex_done)"
  have "?r \<in> set (db_payments (ds_db ex_world))" "pr_status ?r = StatusProcessing" "pr_gid ?r = Some ''g1''"
    "next_sequence id (pr_id ?r) (ds_db ex_world) < 2 ^ 63"
    by (simp_all add: ex_world_def ex_done_def ex_db_def next_sequence_def)
  moreover have "dist_ok id (ds_db ex_world)" by (simp add: ex_world_def ex_done_ok)
  moreover have "success_evidence (states_of id (ds_db ex_world) ''g1'' (pr_id ?r))"
    by (simp add: success_evidence_def states_of_def ex_world_def ex_done_def ex_db_def)
  ultimately show ?thesis
    using reconcile_decides [of id ex_world ?r "''g1''" "\<lambda>_. ex_sql" "states_of id (ds_db ex_world) ''g1'' (pr_id ?r)"]
    by (simp add: ex_sql_def) blast
qed

subsection \<open>Callbacks\<close>

lemma in_tx_keeps:
  assumes "\<And>d1 a. body d = (d1, Inr a) \<Longrightarrow> R d d1" and "R d d"
  shows "R d (fst (in_tx fail e b c body d))"
proof (cases "body d")
  case (Pair d1 r)
  with assms show ?thesis by (cases r) (auto simp: in_tx_def split: option.split)
qed

lemma exec_RecordEvent_payments:
  "\<exists>t r. exec (repo_RecordEvent ck e pid ty message md) s = Some (t, r) \<and> db_payments (ds_db t) = db_payments (ds_db s) \<and>
    same_books (ds_db s) (ds_db t)"
proof -
  let ?body = "\<lambda>d. case getPaymentTxForUpdate ck (sq_fault e 1) pid d of
      Inl err \<Rightarrow> (d, Inl err) | Inr p \<Rightarrow> appendEventTx ck e 2 pid ty StatusNone StatusNone message md d"
  have body: "db_payments d' = db_payments d \<and> same_books d d'" if "?body d = (d', Inr a)" for d d' a
    using that by (auto simp: same_books_def dest!: appendEventTx_Inr split: sum.splits)
  have keeps: "db_payments (fst (in_tx OtherError e 0 4 ?body d)) = db_payments d \<and> same_books d (fst (in_tx OtherError e 0 4 ?body d))" for d
    by (rule in_tx_keeps [where R = "\<lambda>d d'. db_payments d' = db_payments d \<and> same_books d d'"])
      (rule body, simp_all add: same_books_def)
  obtain d' x where tx: "in_tx OtherError e 0 4 ?body (ds_db s) = (d', x)"
    by (cases "in_tx OtherError e 0 4 ?body (ds_db s)")
  have "db_payments d' = db_payments (ds_db s) \<and> same_books (ds_db s) d'"
    using keeps [of "ds_db s"] unfolding tx fst_conv .
  moreover have "exec (repo_RecordEvent ck e pid ty message md) s = Some (s\<lparr>ds_db := d'\<rparr>, x)"
    by (simp only: repo_RecordEvent_def exec_db_act tx prod.case)
  ultimately show ?thesis by (intro exI [of _ "s\<lparr>ds_db := d'\<rparr>"] exI [of _ x]) simp
qed

text \<open>C36. The distributed mode does answer callbacks: a callback with an event id and a positive sequence
  number for a payment that is SUCCESS, FAILED or CLOSED is accepted and reported as
  terminal_ignored, with the payment as it is and every payment row and balance untouched; for a
  payment that is still INIT it is refused with ErrInvalidTransition and changes nothing.\<close>

theorem distributed_callback_answers:
  assumes ok: "dist_ok (dp_ck q) (ds_db s)" and r: "r \<in> set (db_payments (ds_db s))"
    and pid: "dp_ck q (pr_id r) = dp_ck q (TrimSpace pid)"
    and i: "TrimSpace (cbi_event_id i) \<noteq> ''''" "0 <s cbi_sequence i" and quiet: "sq_fault (de_sql e 0) 0 = None"
  shows "(Terminal (pr_status r) \<longrightarrow>
      (\<exists>t. exec (dist_Callback q e pid i) s =
         Some (t, Inr \<lparr>cr_payment = fst (scanPayment r), cr_disposition = CallbackTerminalIgnored\<rparr>) \<and>
       db_payments (ds_db t) = db_payments (ds_db s) \<and> db_accounts (ds_db t) = db_accounts (ds_db s))) \<and>
    (pr_status r = StatusInit \<longrightarrow> exec (dist_Callback q e pid i) s = Some (s, Inl ErrInvalidTransition))"
proof -
  let ?p = "fst (scanPayment r)"
  have st: "pay_status ?p = pr_status r" by (simp add: scanPayment_def)
  have get: "exec (repo_GetPayment (dp_ck q) (sq_fault (de_sql e 0) 0) (TrimSpace pid)) s = Some (s, Inr ?p)"
    using select_row [OF ok r pid] by (simp add: repo_GetPayment_def quiet)
  have "\<not> (TrimSpace (cbi_event_id i) = '''' \<or> cbi_sequence i <=s 0)"
    using i by (simp add: word_sle_eq word_sless_alt)
  then have run: "exec (dist_Callback q e pid i) s =
      exec (bind_prog (reconcile (dp_ck q) (\<lambda>k. de_sql e (1 + k)) ?p) (\<lambda>p.
        if Terminal (pay_status p) then
          bind_prog (repo_RecordEvent (dp_ck q) (de_sql e 4) (pay_id p) ''CALLBACK_TERMINAL_IGNORED''
              ''external callback ignored because DTM payment is terminal''
              (Some [''event_id'' \<mapsto> cbi_event_id i,
                     ''callback_sequence'' \<mapsto> show_int (sint (cbi_sequence i)),
                     ''outcome'' \<mapsto> cbi_outcome i]))
            (\<lambda>_. Ret (Inr \<lparr>cr_payment = p, cr_disposition = CallbackTerminalIgnored\<rparr>))
        else Ret (Inl ErrInvalidTransition))) s"
    unfolding dist_Callback_def by (simp only: if_False exec_and_then(1) [OF get])
  show ?thesis
  proof (intro conjI impI)
    assume t: "Terminal (pr_status r)"
    obtain t u where "exec (repo_RecordEvent (dp_ck q) (de_sql e 4) (pay_id ?p) ''CALLBACK_TERMINAL_IGNORED''
        ''external callback ignored because DTM payment is terminal''
        (Some [''event_id'' \<mapsto> cbi_event_id i, ''callback_sequence'' \<mapsto> show_int (sint (cbi_sequence i)),
               ''outcome'' \<mapsto> cbi_outcome i])) s = Some (t, u)"
      "db_payments (ds_db t) = db_payments (ds_db s)" "same_books (ds_db s) (ds_db t)"
      using exec_RecordEvent_payments by blast
    moreover have "reconcile (dp_ck q) (\<lambda>k. de_sql e (1 + k)) ?p = Ret ?p"
      using t by (auto simp: reconcile_def st)
    ultimately show "\<exists>t. exec (dist_Callback q e pid i) s =
         Some (t, Inr \<lparr>cr_payment = ?p, cr_disposition = CallbackTerminalIgnored\<rparr>) \<and>
       db_payments (ds_db t) = db_payments (ds_db s) \<and> db_accounts (ds_db t) = db_accounts (ds_db s)"
      unfolding run using t by (simp add: st exec_bind same_books_def)
  next
    assume "pr_status r = StatusInit"
    then show "exec (dist_Callback q e pid i) s = Some (s, Inl ErrInvalidTransition)"
      unfolding run by (simp add: reconcile_def st)
  qed
qed

theorem distributed_callback_answers_witness:
  "\<exists>t res. exec (dist_Callback ex_params ex_dist_env ''p1''
      \<lparr>cbi_event_id = ''e1'', cbi_sequence = 1, cbi_outcome = ''failed'', cbi_reason = '''', cbi_fault = ''''\<rparr>)
      (ex_world\<lparr>ds_db := ex_settled\<rparr>) = Some (t, Inr res) \<and> cr_disposition res = CallbackTerminalIgnored"
proof -
  let ?i = "\<lparr>cbi_event_id = ''e1'', cbi_sequence = 1, cbi_outcome = ''failed'', cbi_reason = '''', cbi_fault = ''''\<rparr>"
  have trim: "TrimSpace ''e1'' \<noteq> ''''" "TrimSpace ''p1'' = ''p1''" by code_simp+
  have ok: "dist_ok (dp_ck ex_params) (ds_db (ex_world\<lparr>ds_db := ex_settled\<rparr>))"
    using dist_runs [OF ex_client plain_barrier_atomic ex_world_ok ex_dist_run] by (simp add: dist_moves_def)
  have "ex_final \<in> set (db_payments (ds_db (ex_world\<lparr>ds_db := ex_settled\<rparr>)))" "pr_id ex_final = ''p1''"
    "pr_status ex_final = StatusSuccess" "sq_fault (de_sql ex_dist_env 0) 0 = None"
    by (simp_all add: ex_settled_def ex_final_def ex_done_def ex_db_def ex_dist_env_def ex_sql_def)
  with distributed_callback_answers [OF ok, of ex_final "''p1''" ?i ex_dist_env] trim
  show ?thesis by (auto simp: word_sless_alt)
qed

subsection \<open>The cache\<close>

text \<open>Programs that end alone in every state: reconciliation waits for nothing.\<close>

definition total :: "('s, 'r) prog \<Rightarrow> bool" where
  "total p \<longleftrightarrow> (\<forall>s. \<exists>t r. exec p s = Some (t, r))"

lemma total_Ret: "total (Ret r)"
  by (simp add: total_def)

lemma total_db_act: "total (db_act f)"
  by (simp add: total_def exec_db_act split: prod.split)

lemma total_bind:
  assumes "total p" and "\<And>r. total (k r)"
  shows "total (bind_prog p k)"
  unfolding total_def
proof
  fix s
  obtain t r where "exec p s = Some (t, r)" using assms(1) unfolding total_def by blast
  then show "\<exists>t r. exec (bind_prog p k) s = Some (t, r)"
    using assms(2) [of r] by (simp add: exec_bind total_def)
qed

lemma total_and_then: "total p \<Longrightarrow> (\<And>r. total (k r)) \<Longrightarrow> total (and_then p k)"
  unfolding and_then_def by (rule total_bind) (simp_all add: total_Ret split: sum.split)

lemma total_query: "total (db_query f)" "total (query_optional fault P table)"
  by (simp_all add: query_optional_def db_query_def total_db_act)

lemmas total_intros = total_Ret total_db_act total_query total_bind total_and_then

lemma total_Finalize: "total (repo_Finalize ck e pid status reason message)"
  unfolding repo_Finalize_def repo_GetPayment_def
  by (auto intro!: total_intros split: option.split)

lemma total_reconcile: "total (reconcile ck e p)"
  unfolding reconcile_def repo_ParticipantStates_def Let_def finalize_or_def
  by (auto intro!: total_intros total_Finalize split: sum.split)

text \<open>What the commands of the cache do, whatever Redis answers.\<close>

lemma exec_Get: "\<exists>hit. exec (GetIdempotency c fault key) s = Some (s, hit)"
  by (cases c) (simp_all add: GetIdempotency_def redis_act_def)

lemma exec_Set: "\<exists>redis. exec (SetIdempotency c fault key pid fp) s = Some (s\<lparr>ds_redis := redis\<rparr>, ())"
proof (cases c)
  case None
  then show ?thesis by (auto simp: SetIdempotency_def intro!: exI [of _ "ds_redis s"])
next
  case (Some rc)
  let ?set = "(ds_redis s)(idempotencyKey (cc_prefix rc) key \<mapsto>
      cc_marshal rc \<lparr>icr_payment = pid, icr_fingerprint = fp\<rparr>)"
  show ?thesis
    by (intro exI [of _ "if fault then ds_redis s else ?set"]) (simp add: Some SetIdempotency_def redis_act_def)
qed

lemma select_only:
  assumes "r \<in> set (db_payments d)" and "P r" and "\<And>x. x \<in> set (db_payments d) \<Longrightarrow> P x \<Longrightarrow> x = r"
  shows "select_payment None P d = Inr (scanPayment r)"
proof -
  obtain x where x: "find P (db_payments d) = Some x"
    using assms(1,2) by (cases "find P (db_payments d)") (auto simp: find_None_iff)
  then have "x = r" using assms(3) by (auto simp: find_Some_iff)
  with x show ?thesis by (simp add: select_payment_def query_row_find)
qed

text \<open>A replay of the row, up to the counters and Redis.\<close>

definition replays :: "dist_params \<Rightarrow> dist_env \<Rightarrow> dist \<Rightarrow> payment_row \<Rightarrow> (dist \<times> (go_error + create_result)) option \<Rightarrow> bool" where
  "replays q e s r x \<longleftrightarrow>
     (\<exists>u t p k. x = Some (t, Inr \<lparr>cre_payment = p, cre_replay = True\<rparr>) \<and> ds_db u = ds_db s \<and> k \<in> {1, 30} \<and>
        exec (reconcile (dp_ck q) (\<lambda>j. de_sql e (k + j)) (fst (scanPayment r))) u = Some (t, p))"

lemma replays_replayed:
  assumes "ds_db u = ds_db s" and "k \<in> {1, 30}"
  shows "replays q e s r (exec (replayed q (\<lambda>j. de_sql e (k + j)) (fst (scanPayment r))) u)"
proof -
  obtain t p where "exec (reconcile (dp_ck q) (\<lambda>j. de_sql e (k + j)) (fst (scanPayment r))) (count_replay u) = Some (t, p)"
    using total_reconcile unfolding total_def by blast
  with assms show ?thesis
    unfolding replays_def replayed_def dcount_def
    by (intro exI [of _ "count_replay u"] exI [of _ t] exI [of _ p] exI [of _ k]) (simp add: exec_bind)
qed

text \<open>The look-up in MySQL decides alone.\<close>

lemma exec_lookup:
  assumes ok: "dist_ok (dp_ck q) (ds_db u)" and r: "r \<in> set (db_payments (ds_db u))"
    and key: "dp_ck q (pr_key r) = dp_ck q (ci_key i)" and quiet: "sq_fault (de_sql e 4) 0 = None"
    and u: "ds_db u = ds_db s"
  shows "if pr_fingerprint r = fp
    then replays q e s r (exec (create_lookup q e i fault fp) u)
    else exec (create_lookup q e i fault fp) u = Some (u, Inl ErrIdempotencyConflict)"
proof -
  have "select_payment None (\<lambda>x. dp_ck q (pr_key x) = dp_ck q (ci_key i)) (ds_db u) = Inr (scanPayment r)"
    using r key by (intro select_only) (auto intro: dist_ok_unique(2) [OF ok])
  then have find: "exec (findByIdempotencyKey (dp_ck q) (sq_fault (de_sql e 4) 0) (ci_key i)) u =
      Some (u, Inr (fst (scanPayment r), pr_fingerprint r))"
    by (simp add: findByIdempotencyKey_def quiet scanPayment_def)
  obtain redis where set: "exec (SetIdempotency (dp_cache q) (de_redis e 1) (ci_key i)
      (pay_id (fst (scanPayment r))) fp) u = Some (u\<lparr>ds_redis := redis\<rparr>, ())"
    using exec_Set by blast
  show ?thesis
    using replays_replayed [of "u\<lparr>ds_redis := redis\<rparr>" s 30 q e r] u
    by (simp add: create_lookup_def exec_bind find set [simplified])
qed

lemma exec_cached:
  assumes ok: "dist_ok (dp_ck q) (ds_db u)" and r: "r \<in> set (db_payments (ds_db u))"
    and key: "dp_ck q (pr_key r) = dp_ck q (ci_key i)" and quiet: "sq_fault (de_sql e 4) 0 = None"
    and fp: "dp_ck q (pr_fingerprint r) = dp_ck q fp \<Longrightarrow> pr_fingerprint r = fp" and u: "ds_db u = ds_db s"
  shows "if pr_fingerprint r = fp
    then replays q e s r (exec (create_cached q e i fault fp) u)
    else exec (create_cached q e i fault fp) u = Some (u, Inl ErrIdempotencyConflict)"
proof -
  note lookup = exec_lookup [OF ok r key quiet u, of fp fault]
  obtain hit where get: "exec (GetIdempotency (dp_cache q) (de_redis e 0) (ci_key i)) u = Some (u, hit)"
    using exec_Get by blast
  show ?thesis
  proof (cases "\<exists>pid. hit = Some (pid, fp)")
    case False
    then have "exec (create_cached q e i fault fp) u = exec (create_lookup q e i fault fp) u"
      by (auto simp: create_cached_def exec_bind get split: option.split)
    with lookup show ?thesis by simp
  next
    case True
    then obtain pid where hit: "hit = Some (pid, fp)" by blast
    let ?P = "\<lambda>r. dp_ck q (pr_id r) = dp_ck q pid \<and> dp_ck q (pr_key r) = dp_ck q (ci_key i) \<and>
        dp_ck q (pr_fingerprint r) = dp_ck q fp"
    let ?row = "select_payment (sq_fault (de_sql e 0) 0) ?P (ds_db u)"
    show ?thesis
    proof (cases ?row)
      case (Inl err)
      then have "exec (create_cached q e i fault fp) u = exec (create_lookup q e i fault fp) u"
        by (simp add: create_cached_def exec_bind get hit repo_VerifyCachedIdempotency_def)
      with lookup show ?thesis by simp
    next
      case (Inr x)
      then obtain y where y: "y \<in> set (db_payments (ds_db u))" "?P y" "x = scanPayment y"
        using select_payment_Inr [of "sq_fault (de_sql e 0) 0" ?P "ds_db u"] by (cases x) (auto simp: scanPayment_def)
      have "y = r" using y key by (intro dist_ok_unique(2) [OF ok _ r]) simp_all
      with y fp have same: "pr_fingerprint r = fp" by simp
      have "replays q e s r (exec (create_cached q e i fault fp) u)"
        using replays_replayed [of "u\<lparr>ds_cacheHits := ds_cacheHits u + 1\<rparr>" s 1 q e r] u \<open>y = r\<close> y(3) Inr
        by (cases "scanPayment r") (simp add: create_cached_def exec_bind get hit repo_VerifyCachedIdempotency_def dcount_def)
      with same show ?thesis by simp
    qed
  qed
qed

text \<open>C35. The cache never decides: for a key that MySQL has a row for, Create answers with the replay of
  that row, as the reconciler leaves it, when the row's fingerprint is the request's and with
  ErrIdempotencyConflict when it is not -- without a cache or with one, whatever Redis holds under
  whatever key, whatever its codec reads there, whichever Redis commands fail and whether or not the
  check of a cached record fails in MySQL. Without reconciliation (a payment that is not PROCESSING) it
  is the row as it stands and the tables stay as they are, as they do for a conflict. The fingerprint
  of the row has to be told from the request's by MySQL, as two hexadecimal digests are, and the
  look-up by key must not fail.\<close>

theorem cache_never_decides:
  assumes ok: "dist_ok (dp_ck q) (ds_db s)" and r: "r \<in> set (db_payments (ds_db s))"
    and key: "dp_ck q (pr_key r) = dp_ck q (TrimSpace (ci_key i))"
    and fp: "dp_ck q (pr_fingerprint r) = dp_ck q (Fingerprint (dist_input q i)) \<Longrightarrow>
      pr_fingerprint r = Fingerprint (dist_input q i)"
    and valid: "ValidateCreateInput (dist_input q i) = None"
    and fault: "ci_fault (NormalizeCreateInput (dp_tables q) i) \<in> {'''', ''after_account_try'', ''ledger_try''}"
    and quiet: "sq_fault (de_sql e 4) 0 = None"
  shows "\<exists>t. if pr_fingerprint r \<noteq> Fingerprint (dist_input q i)
    then exec (dist_Create q e i) s = Some (t, Inl ErrIdempotencyConflict) \<and> ds_db t = ds_db s
    else \<exists>u p k. exec (dist_Create q e i) s = Some (t, Inr \<lparr>cre_payment = p, cre_replay = True\<rparr>) \<and>
      ds_db u = ds_db s \<and> k \<in> {1, 30} \<and>
      exec (reconcile (dp_ck q) (\<lambda>j. de_sql e (k + j)) (fst (scanPayment r))) u = Some (t, p) \<and>
      (pr_status r \<noteq> StatusProcessing \<longrightarrow> p = fst (scanPayment r) \<and> ds_db t = ds_db s)"
proof -
  let ?i = "dist_input q i" and ?f = "ci_fault (NormalizeCreateInput (dp_tables q) i)"
  define u where "u = (if ?f = '''' then s else s\<lparr>ds_faultsInjected := ds_faultsInjected s + 1\<rparr>)"
  have u: "ds_db u = ds_db s" by (simp add: u_def)
  have run: "exec (dist_Create q e i) s = exec (create_cached q e ?i ?f (Fingerprint ?i)) u"
    using valid fault by (auto simp: dist_Create_def dist_input_def dcount_def u_def Let_def)
  have keys: "dp_ck q (pr_key r) = dp_ck q (ci_key ?i)" using key by (simp add: dist_input_def)
  note cached = exec_cached [of q u r ?i e "Fingerprint ?i" s ?f, unfolded u, OF ok r keys quiet fp refl]
  show ?thesis
  proof (cases "pr_fingerprint r = Fingerprint ?i")
    case False
    with cached u show ?thesis unfolding run by (intro exI [of _ u]) simp
  next
    case True
    with cached obtain v t p k where v: "exec (dist_Create q e i) s = Some (t, Inr \<lparr>cre_payment = p, cre_replay = True\<rparr>)"
        "ds_db v = ds_db s" "k \<in> {1, 30}"
        "exec (reconcile (dp_ck q) (\<lambda>j. de_sql e (k + j)) (fst (scanPayment r))) v = Some (t, p)"
      unfolding run by (auto simp: replays_def)
    moreover have "p = fst (scanPayment r) \<and> ds_db t = ds_db s" if "pr_status r \<noteq> StatusProcessing"
      using v(2,4) that by (simp add: reconcile_def scanPayment_def)
    ultimately show ?thesis using True by (intro exI [of _ t]) auto
  qed
qed

text \<open>A Redis that holds, under the key of the request, the right fingerprint with another payment's id.\<close>

definition ex_codec :: redis_cache where
  "ex_codec = \<lparr>cc_prefix = ''payflow:'', cc_marshal = icr_payment,
     cc_unmarshal = (\<lambda>raw. Some \<lparr>icr_payment = raw, icr_fingerprint = Fingerprint ex_input\<rparr>),
     cc_match = (\<lambda>pattern key. True)\<rparr>"

theorem cache_never_decides_witness:
  "\<exists>t. exec (dist_Create (ex_params\<lparr>dp_cache := Some ex_codec\<rparr>) ex_dist_env ex_input)
      (ex_world\<lparr>ds_db := ex_settled, ds_redis := \<lambda>_. Some ''p7''\<rparr>) = Some (t, Inr ex_answer) \<and>
    ds_db t = ex_settled"
proof -
  let ?q = "ex_params\<lparr>dp_cache := Some ex_codec\<rparr>"
    and ?s = "ex_world\<lparr>ds_db := ex_settled, ds_redis := \<lambda>_. Some ''p7''\<rparr>"
  have ok: "dist_ok (dp_ck ?q) (ds_db ?s)"
    using dist_runs [OF ex_client plain_barrier_atomic ex_world_ok ex_dist_run] by (simp add: dist_moves_def)
  have input: "dist_input ?q ex_input = ex_input" "NormalizeCreateInput (dp_tables ?q) ex_input = ex_input"
    using ex_normal by (simp_all add: dist_input_def ex_params_def ex_input_fields)
  have row: "ex_final \<in> set (db_payments (ds_db ?s))" "pr_key ex_final = ''k1''"
    "pr_fingerprint ex_final = Fingerprint ex_input" "pr_status ex_final \<noteq> StatusProcessing"
    by (simp_all add: ex_settled_def ex_final_def ex_done_def ex_db_def)
  have "sq_fault (de_sql ex_dist_env 4) 0 = None" by (simp add: ex_dist_env_def ex_sql_def)
  moreover have "TrimSpace ''k1'' = ''k1''" by code_simp
  moreover have "ValidateCreateInput ex_input = None" using ex_valid by (simp add: validate_valid)
  ultimately show ?thesis
    using cache_never_decides [OF ok row(1), of ex_input ex_dist_env] row(2-4)
    by (simp add: input ex_input_fields ToLower_faults) blast
qed

subsection \<open>Reset\<close>

text \<open>The tables after \<open>Reset\<close>: the DTM tables lose the rows of our gids only.\<close>

definition ours :: "collation \<Rightarrow> db \<Rightarrow> string \<Rightarrow> bool" where
  "ours ck d gid \<longleftrightarrow> (\<exists>p\<in>set (db_payments d). map_option ck (pr_gid p) = Some (ck gid))"

definition reset_db :: "collation \<Rightarrow> time \<Rightarrow> db \<Rightarrow> db" where
  "reset_db ck now d =
     \<lparr>db_accounts = map (\<lambda>a. if ck (acc_id a) = ck ''demo-user''
        then a\<lparr>acc_available := 1000000, acc_frozen := 0, acc_updated := now\<rparr> else a) (db_accounts d),
      db_reservations = [], db_ledger = [], db_payments = [], db_events = [],
      db_trans = filter (\<lambda>t. \<not> ours ck d (tg_gid t)) (db_trans d),
      db_branch_ops = filter (\<lambda>g. \<not> ours ck d g) (db_branch_ops d),
      db_barriers = filter (\<lambda>b. \<not> ours ck d (br_gid b)) (db_barriers d)\<rparr>"

lemma run_reset:
  assumes "\<And>k. fault k = None"
  shows "run_statements fault 1 (reset_statements ck now) d = (reset_db ck now d, Inr ())"
  by (simp add: reset_statements_def Let_def assms reset_db_def ours_def list_ex_iff)

lemma exec_pages:
  assumes "\<And>page. page \<in> set pages \<Longrightarrow> \<exists>keys. page = (Inr keys, None)"
  shows "\<exists>redis. exec (clear_pages rc pages) s = Some (s\<lparr>ds_redis := redis\<rparr>, Inr ())"
  using assms
proof (induction pages arbitrary: s)
  case Nil
  have "exec (clear_pages rc []) s = Some (s\<lparr>ds_redis := ds_redis s\<rparr>, Inr ())" by simp
  then show ?case by blast
next
  case (Cons page pages)
  obtain keys where page: "page = (Inr keys, None)" using Cons.prems [of page] by auto
  have IH: "\<exists>redis. exec (clear_pages rc pages) s' = Some (s'\<lparr>ds_redis := redis\<rparr>, Inr ())" for s'
    using Cons.prems by (intro Cons.IH) auto
  then show ?case
    using IH [of s] IH [of "s\<lparr>ds_redis := ds_redis s |` (- set (filter (cc_match rc (cc_prefix rc @ ''*'')) keys))\<rparr>"]
    by (auto simp: page redis_act_def Let_def)
qed

text \<open>The counters start again.\<close>

definition restarted :: "dist_env \<Rightarrow> db \<Rightarrow> dist \<Rightarrow> bool" where
  "restarted e d t \<longleftrightarrow> ds_db t = d \<and> ds_started t = unix_seconds (de_now e) \<and> ds_cacheHits t = 0 \<and>
     ds_idempotentReplays t = 0 \<and> ds_faultsInjected t = 0"

text \<open>What follows the check.\<close>

definition reset_rest :: "dist_params \<Rightarrow> dist_env \<Rightarrow> (dist, go_error + unit) prog" where
  "reset_rest q e =
     and_then (repo_Reset (dp_ck q) (de_sql e 1)) (\<lambda>_.
     and_then (cache_Clear (dp_cache q) (de_pages e)) (\<lambda>_.
     dcount (\<lambda>s. s\<lparr>ds_cacheHits := 0\<rparr>) (dcount (\<lambda>s. s\<lparr>ds_idempotentReplays := 0\<rparr>)
     (dcount (\<lambda>s. s\<lparr>ds_faultsInjected := 0\<rparr>)
     (dcount (\<lambda>s. s\<lparr>ds_started := unix_seconds (de_now e)\<rparr>) (Ret (Inr ())))))))"

lemma dist_Reset_rest:
  "dist_Reset q e = and_then (repo_EnsureNoActiveTransactions (sq_fault (de_sql e 0) 0)) (\<lambda>_. reset_rest q e)"
  by (simp add: dist_Reset_def reset_rest_def)

lemma exec_reset_rest:
  assumes quiet: "\<And>k. sq_fault (de_sql e 1) k = None"
    and pages: "\<And>page. page \<in> set (de_pages e) \<Longrightarrow> \<exists>keys. page = (Inr keys, None)"
  shows "\<exists>t. exec (reset_rest q e) s = Some (t, Inr ()) \<and>
    restarted e (reset_db (dp_ck q) (sq_now (de_sql e 1) 8) (ds_db s)) t"
proof -
  let ?d = "reset_db (dp_ck q) (sq_now (de_sql e 1) 8) (ds_db s)"
  have reset: "exec (repo_Reset (dp_ck q) (de_sql e 1)) s = Some (s\<lparr>ds_db := ?d\<rparr>, Inr ())"
    using run_reset [of "sq_fault (de_sql e 1)"] quiet
    by (simp add: repo_Reset_def exec_db_act in_tx_def)
  obtain redis where clear: "exec (cache_Clear (dp_cache q) (de_pages e)) (s\<lparr>ds_db := ?d\<rparr>) =
      Some (s\<lparr>ds_db := ?d, ds_redis := redis\<rparr>, Inr ())"
  proof (cases "dp_cache q")
    case None
    then show ?thesis using that [of "ds_redis s"] by (simp add: cache_Clear_def)
  next
    case (Some rc)
    obtain redis where "exec (clear_pages rc (de_pages e)) (s\<lparr>ds_db := ?d\<rparr>) = Some (s\<lparr>ds_db := ?d, ds_redis := redis\<rparr>, Inr ())"
      using exec_pages [of "de_pages e" rc "s\<lparr>ds_db := ?d\<rparr>"] pages by blast
    then show ?thesis using that [of redis] Some by (simp add: cache_Clear_def)
  qed
  show ?thesis
    unfolding reset_rest_def exec_and_then(1) [OF reset] exec_and_then(1) [OF clear] by (simp add: dcount_def restarted_def)
qed

text \<open>C34. Reset is refused with ErrInvalidTransition, changing nothing, exactly when a payment is
  PROCESSING; otherwise it empties the tables of PayFlow, gives the demo account its balance back
  and leaves every other account alone, removes from the tables of DTM the rows of the gids of the
  payments and no others, and starts the counters again. (No faults of MySQL or Redis.)\<close>

theorem distributed_reset:
  assumes "\<And>k. sq_fault (de_sql e 0) k = None" and "\<And>k. sq_fault (de_sql e 1) k = None"
    and "\<And>page. page \<in> set (de_pages e) \<Longrightarrow> \<exists>keys. page = (Inr keys, None)"
  shows "if \<exists>p\<in>set (db_payments (ds_db s)). pr_status p = StatusProcessing
    then exec (dist_Reset q e) s = Some (s, Inl ErrInvalidTransition)
    else \<exists>t. exec (dist_Reset q e) s = Some (t, Inr ()) \<and>
      restarted e (reset_db (dp_ck q) (sq_now (de_sql e 1) 8) (ds_db s)) t"
proof (cases "\<exists>p\<in>set (db_payments (ds_db s)). pr_status p = StatusProcessing")
  case True
  then have "exec (repo_EnsureNoActiveTransactions (sq_fault (de_sql e 0) 0)) s = Some (s, Inl ErrInvalidTransition)"
    by (simp add: repo_EnsureNoActiveTransactions_def assms(1) list_ex_iff)
  from exec_and_then(2) [OF this] True show ?thesis by (simp add: dist_Reset_rest)
next
  case False
  then have "exec (repo_EnsureNoActiveTransactions (sq_fault (de_sql e 0) 0)) s = Some (s, Inr ())"
    by (simp add: repo_EnsureNoActiveTransactions_def assms(1) list_ex_iff)
  then have "exec (dist_Reset q e) s = exec (reset_rest q e) s"
    unfolding dist_Reset_rest by (rule exec_and_then(1))
  with False exec_reset_rest [OF assms(2,3), of q s] show ?thesis by (simp only: if_False simp_thms)
qed

theorem distributed_reset_witness:
  "exec (dist_Reset ex_params ex_dist_env) ex_world = Some (ex_world, Inl ErrInvalidTransition) \<and>
    (\<exists>t. exec (dist_Reset ex_params ex_dist_env) (ex_world\<lparr>ds_db := ex_settled\<rparr>) = Some (t, Inr ()))"
proof -
  have quiet: "sq_fault (de_sql ex_dist_env j) k = None" for j k by (simp add: ex_dist_env_def ex_sql_def)
  have pages: "\<exists>keys. page = (Inr keys, None)" if "page \<in> set (de_pages ex_dist_env)" for page
    using that by (simp add: ex_dist_env_def)
  have "\<exists>p\<in>set (db_payments (ds_db ex_world)). pr_status p = StatusProcessing"
    "\<not> (\<exists>p\<in>set (db_payments (ds_db (ex_world\<lparr>ds_db := ex_settled\<rparr>))). pr_status p = StatusProcessing)"
    by (simp_all add: ex_world_def ex_done_def ex_db_def ex_settled_def ex_final_def)
  with distributed_reset [OF quiet quiet pages, of ex_world ex_params]
    distributed_reset [OF quiet quiet pages, of "ex_world\<lparr>ds_db := ex_settled\<rparr>" ex_params]
  show ?thesis by auto
qed

text \<open>C37. The check of Reset and its deletions are two transactions: after the check has passed in a state
  without PROCESSING payments, the rest of Reset empties the tables in whatever state it finds them,
  PROCESSING payments with frozen balances of other accounts included.\<close>

theorem reset_check_races:
  assumes "\<And>k. sq_fault (de_sql e 0) k = None" and "\<And>k. sq_fault (de_sql e 1) k = None"
    and "\<And>page. page \<in> set (de_pages e) \<Longrightarrow> \<exists>keys. page = (Inr keys, None)"
    and "\<forall>p\<in>set (db_payments (ds_db s)). pr_status p \<noteq> StatusProcessing"
  shows "\<exists>f rest. dist_Reset q e = Step f \<and> f s = Some (s, rest) \<and>
    (\<forall>u. \<exists>t. exec rest u = Some (t, Inr ()) \<and> db_payments (ds_db t) = [] \<and> db_reservations (ds_db t) = [] \<and>
      (\<forall>a\<in>set (db_accounts (ds_db u)). dp_ck q (acc_id a) \<noteq> dp_ck q ''demo-user'' \<longrightarrow> a \<in> set (db_accounts (ds_db t))))"
proof -
  have "\<exists>f. dist_Reset q e = Step f \<and> f s = Some (s, reset_rest q e)"
    using assms(1,4)
    by (simp add: dist_Reset_rest repo_EnsureNoActiveTransactions_def and_then_def db_query_def db_act_def
        act_def list_ex_iff)
  moreover have "\<exists>t. exec (reset_rest q e) u = Some (t, Inr ()) \<and> db_payments (ds_db t) = [] \<and>
      db_reservations (ds_db t) = [] \<and>
      (\<forall>a\<in>set (db_accounts (ds_db u)). dp_ck q (acc_id a) \<noteq> dp_ck q ''demo-user'' \<longrightarrow> a \<in> set (db_accounts (ds_db t)))"
    for u
  proof -
    let ?d = "reset_db (dp_ck q) (sq_now (de_sql e 1) 8) (ds_db u)"
    obtain t where t: "exec (reset_rest q e) u = Some (t, Inr ())" "ds_db t = ?d"
      using exec_reset_rest [OF assms(2,3), of q u] by (auto simp: restarted_def)
    have "a \<in> set (db_accounts ?d)" if "a \<in> set (db_accounts (ds_db u))" "dp_ck q (acc_id a) \<noteq> dp_ck q ''demo-user''" for a
      using that by (auto simp: reset_db_def intro!: image_eqI [of _ _ a])
    with t show ?thesis by (intro exI [of _ t]) (simp add: reset_db_def)
  qed
  ultimately show ?thesis by meson
qed

theorem reset_check_races_witness:
  "\<exists>f rest t. dist_Reset ex_params ex_dist_env = Step f \<and>
    f (ex_world\<lparr>ds_db := ex_settled\<rparr>) = Some (ex_world\<lparr>ds_db := ex_settled\<rparr>, rest) \<and>
    exec rest ex_world = Some (t, Inr ()) \<and> db_payments (ds_db t) = [] \<and>
    pr_status (hd (db_payments (ds_db ex_world))) = StatusProcessing"
proof -
  have quiet: "sq_fault (de_sql ex_dist_env j) k = None" for j k by (simp add: ex_dist_env_def ex_sql_def)
  have pages: "\<exists>keys. page = (Inr keys, None)" if "page \<in> set (de_pages ex_dist_env)" for page
    using that by (simp add: ex_dist_env_def)
  have "\<forall>p\<in>set (db_payments (ds_db (ex_world\<lparr>ds_db := ex_settled\<rparr>))). pr_status p \<noteq> StatusProcessing"
    by (simp add: ex_settled_def ex_final_def)
  moreover have "pr_status (hd (db_payments (ds_db ex_world))) = StatusProcessing"
    by (simp add: ex_world_def ex_done_def ex_db_def)
  ultimately show ?thesis
    using reset_check_races [OF quiet quiet pages, of "ex_world\<lparr>ds_db := ex_settled\<rparr>" ex_params] by meson
qed

subsection \<open>An answer that is lost\<close>

text \<open>C33. When Create has seen the evidence for one outcome but another request has finalized the payment
  with another outcome, Finalize answers ErrInvalidTransition and Create answers with success and the
  empty payment instead of the payment: the variable that held the payment has been overwritten.\<close>

theorem finish_loses_payment:
  assumes ok: "dist_ok (dp_ck q) (ds_db s)" and r: "r \<in> set (db_payments (ds_db s))"
    and pid: "dp_ck q (pr_id r) = dp_ck q pid" and final: "Terminal (pr_status r)"
    and other: "status \<noteq> pr_status r" and st: "status = StatusSuccess \<or> status = StatusFailed"
    and quiet: "\<And>k. sq_fault e k = None"
    and ids: "\<forall>x\<in>set (db_payments (ds_db s)). dp_ck q (pr_id x) \<noteq> dp_ck q ''''"
  shows "exec (finish q e e' pid status reason message) s = Some (s, Inr (created_result zero_payment))"
proof -
  let ?ck = "dp_ck q"
  have "finalize_tx ?ck e pid status reason message (ds_db s) = (ds_db s, Inl ErrInvalidTransition)"
    using final other
    by (simp add: finalize_tx_def in_tx_def quiet select_row [OF ok r pid] scanPayment_def)
  then have "exec (db_act (finalize_tx ?ck e pid status reason message)) s = Some (s, Inl ErrInvalidTransition)"
    by (simp add: exec_db_act)
  then have "exec (repo_Finalize ?ck e pid status reason message) s = Some (s, Inl ErrInvalidTransition)"
    using st unfolding repo_Finalize_def by (auto simp: exec_and_then(2))
  moreover have "\<exists>err. getPaymentTxForUpdate ?ck fault '''' (ds_db s) = Inl err" for fault
  proof (cases "getPaymentTxForUpdate ?ck fault '''' (ds_db s)")
    case (Inr p)
    from getPayment_Inr [OF Inr] ids show ?thesis by blast
  qed simp
  ultimately show ?thesis
    by (auto simp: finish_def read_payment_def exec_bind repo_GetPayment_def zero_payment_def split: sum.split)
      (metis sum.distinct(1))
qed

theorem finish_loses_payment_witness:
  "exec (finish ex_params ex_sql ex_sql ''p1'' StatusFailed ''DTM TCC cancelled: FAILURE'' '''') (ex_world\<lparr>ds_db := ex_settled\<rparr>) =
    Some (ex_world\<lparr>ds_db := ex_settled\<rparr>, Inr (created_result zero_payment))"
proof (rule finish_loses_payment)
  show "dist_ok (dp_ck ex_params) (ds_db (ex_world\<lparr>ds_db := ex_settled\<rparr>))"
    using dist_runs [OF ex_client plain_barrier_atomic ex_world_ok ex_dist_run] by (simp add: dist_moves_def)
  show "ex_final \<in> set (db_payments (ds_db (ex_world\<lparr>ds_db := ex_settled\<rparr>)))"
    "dp_ck ex_params (pr_id ex_final) = dp_ck ex_params ''p1''" "Terminal (pr_status ex_final)"
    "StatusFailed \<noteq> pr_status ex_final" "StatusFailed = StatusSuccess \<or> StatusFailed = StatusFailed"
    "sq_fault ex_sql k = None"
    "\<forall>x\<in>set (db_payments (ds_db (ex_world\<lparr>ds_db := ex_settled\<rparr>))). dp_ck ex_params (pr_id x) \<noteq> dp_ck ex_params ''''" for k
    by (simp_all add: ex_settled_def ex_final_def ex_done_def ex_db_def ex_sql_def)
qed

end
