(* ===== verification/Spec2Isabelle.thy ===== *)
theory Spec2Isabelle
  imports Store_Properties Http_Properties Dist_Operations
begin

text \<open>
  PayFlow-Lab is a payment service in Go with two modes. In memory mode one process keeps accounts,
  payments and a ledger behind a mutex: a payment freezes its amount (Try), is booked when the channel
  reports success (Confirm) and gives the amount back when it fails (Cancel). In distributed mode a
  coordinator keeps payments in MySQL, an account and a ledger service each offer Try, Confirm and
  Cancel, and the transaction manager DTM drives them; Redis caches idempotency records. One HTTP API
  serves both modes. This development models the Go code under \<open>src/internal\<close> and proves what makes it
  correct.

  \<^bold>\<open>How code is modelled.\<close> A struct is a record, an enum a datatype, \<open>int64\<close> and \<open>uint64\<close> are 64-bit words
  that wrap, a Go string is a list of bytes, a Go map a partial function, and an error is the left part
  of a sum. A method that runs whole under a mutex, or one MySQL transaction, is a function from the
  state to the new state and a result. A request is a program of such atomic steps (\<open>Programs\<close>): \<open>exec\<close>
  runs it alone, \<open>pool_run\<close> interleaves any number of requests, and \<open>ensures\<close> is the rely-guarantee
  judgment the interleaving theorems rest on. What a request reads from the world (clock, random bytes,
  database faults, the timing of polls) comes from an environment record that the theorems quantify over.

  \<^bold>\<open>Shared theories.\<close>
  \<^item> \<open>Prelude\<close>: integer types, results, lookups, sums over maps, the collections of hints.
  \<^item> \<open>Programs\<close>: programs, \<open>exec\<close>, \<open>ensures\<close>, interleaving and its invariant rule.
  \<^item> \<open>Go_Text\<close>: \<open>strings.TrimSpace\<close>, \<open>ToLower\<close>, \<open>ToUpper\<close>, decimal and hex text. \<open>Sha256\<close>: SHA-256, with its
    constants computed from the primes.
  \<^item> \<open>Domain\<close>: \<open>domain/model.go\<close> and the interface of \<open>store/store.go\<close> as a record of methods.

  \<^bold>\<open>Memory mode.\<close>
  \<^item> \<open>Memory_Store\<close>: \<open>store/memory.go\<close>, one function per method. \<open>Store_Invariant\<close>, \<open>Store_Growth\<close>, \<open>Store_Money\<close>,
    \<open>Store_Preserve\<close>, \<open>Store_Books\<close>: the invariant that links balances, reservations, statuses, events and
    the ledger, kept by every method. \<open>Store_Machine\<close>: the abstract machine of a payment's states, which
    every method refines. \<open>Store_Contract\<close>: what the service relies on, as the locales \<open>store_contract\<close>,
    \<open>keyed_store\<close> and \<open>payment_store\<close>, interpreted on the in-memory store. \<open>Store_Properties\<close>: the properties.
  \<^item> \<open>Payment_Input\<close>, \<open>Key_Lock\<close>, \<open>Payment_Service\<close>: \<open>service/payment.go\<close>: normalisation, validation and
    fingerprint; the table of per-key locks as a transition system over a heap of lock entries; the
    methods as programs. \<open>Service_Safety\<close> proves in the locales what a method ensures among others,
    \<open>Service_Runs\<close> what it does alone, \<open>Service_Properties\<close> states both.

  \<^bold>\<open>HTTP.\<close> \<open>Transaction_Views\<close> and \<open>Http_Api\<close>: \<open>httpapi/handler.go\<close> over any backend record, with
  \<open>encoding/json\<close> as a parameter that says which error class a body falls into; \<open>Http_Safety\<close> carries the
  service's claims to the responses, \<open>Http_Properties\<close> states them.

  \<^bold>\<open>Distributed mode.\<close>
  \<^item> \<open>Database\<close>: the tables of \<open>infra/mysql\<close> and the SQL statements of the code, with keys, foreign keys,
    CHECK constraints, BIGINT ranges, the collation of text columns as a parameter \<open>ck\<close>, the rounding of
    times by DATETIME(6) columns, a driver fault possible at each statement, and commits whose answer is
    lost.
  \<^item> \<open>Participant\<close>: \<open>participant/account.go\<close>, \<open>ledger.go\<close> and \<open>handler.go\<close>; \<open>Participant_Books\<close> and
    \<open>Participant_Properties\<close>: balances, reservations and ledger rows stay consistent for any requests;
    Cancel undoes Try, Confirm completes it, repetitions are harmless.
  \<^item> \<open>Repository\<close>: \<open>distributed/repository.go\<close> and the queries of \<open>diagnostics.go\<close>, \<open>Cache\<close>:
    \<open>distributed/cache.go\<close> over Redis as a map from keys to texts, with the JSON codec of the records and
    the patterns of SCAN as parameters, \<open>Dist_Service\<close>: \<open>distributed/service.go\<close>.
  \<^item> \<open>Dist_Invariant\<close>: the invariant of all tables (\<open>dist_ok\<close>: a SUCCESS payment has a CONFIRMED reservation
    and a POSTED entry) and their growth (\<open>dist_grows\<close>). \<open>Dist_Safety\<close>: every repository method keeps them
    and says what it has seen. \<open>Dist_Runs\<close>: every method of the coordinator does, and so does every
    interleaving with participants, DTM and Redis. \<open>Dist_Properties\<close>: what follows for runs.
    \<open>Dist_Operations\<close>: the reconciler's decision, callbacks, why the cache never decides, Reset, a lost
    answer.

  \<^bold>\<open>Scope of the theorems on runs.\<close> A reset deletes payments and keys, so the claims that compare two moments
  or two answers of a run (one payment per key, terminal payments, growth, answers that stay true) are
  about runs without a reset; the books of the memory mode (\<open>interleaved_books\<close>) are about runs with any
  number of them. Random ids are whatever the environment draws: two Creates with one key are answered
  201 at most once if they drew different ids, and a Create can fail with 500 only if its id was drawn
  before under another key. A Create of the distributed mode may answer the zero payment when it cannot
  read the payment after the global transaction (\<open>finish_loses_payment\<close> is one such case); the
  theorems on its answers name this exception.

  \<^bold>\<open>Hypotheses about code that is not here.\<close> The barrier of the DTM client (\<open>CallWithDB\<close>) commits a business
  function as a whole or not at all (\<open>atomic_barrier\<close>); the steps of \<open>TccGlobalTransaction2\<close> are steps of
  the function it is given, of the participants or of DTM on its own tables (\<open>dtm_client\<close>). Nothing is
  assumed of the order in which DTM calls branches, so that a reservation has the amount of its payment,
  or that no Try follows a Cancel (the barrier's null compensation and suspension), is not shown.

  \<^bold>\<open>Bounds.\<close> Amounts are 64-bit; the theorems on balances include that no sum wraps. No fuel is used: all
  loops are structural. \<open>waitForOutcome\<close> takes the list of polls that fit before its deadline, \<open>Clear\<close> the
  pages of SCAN; both lists are arbitrary. Functional theorems on single operations assume no database
  fault where they say so, and event numbers below \<open>2 ^ 63\<close>.

  \<^bold>\<open>Not modelled.\<close> The text of JSON, the HTML page and \<open>recoverMiddleware\<close>; \<open>healthHandler\<close> of the
  participants; connection set-up (\<open>OpenMySQL\<close>), process start-up and shutdown (\<open>cmd\<close>, \<open>serverutil\<close>):
  input and output only. The cleaning of paths and the 301 redirects of \<open>ServeMux\<close>: a path with empty or
  dot segments is answered 404 here. The expiry of Redis records (TTL) is left to the environment, which may
  change Redis at any time. The count of users of a key lock (\<open>lock_entry\<close>) is an unbounded integer:
  it never exceeds the number of goroutines. Isolation inside MySQL: a transaction is atomic here, which the
  row locks (\<open>FOR UPDATE\<close>) and unique keys of the code provide for the rows it works on. The
  distributed coordinator as a backend of the HTTP model is left for later.
\<close>

end
